(* ===== verification/Prelude.thy ===== *)
theory Prelude
  imports Main "HOL-Library.Word" "HOL-Library.AList"
begin

text \<open>
  The vocabulary shared by all components of the model of yuha.

  \<^item> Machine integers keep the width of the Rust source (\<open>u16\<close>, \<open>u32\<close>, \<open>u64\<close>); additions wrap, which is
    what the release profile of the workspace does (\<open>Cargo.toml\<close> sets no \<open>overflow-checks\<close>).
    Lengths of vectors and maps (\<open>usize\<close>) are natural numbers.
  \<^item> Points in time and durations are natural numbers of nanoseconds. \<open>a - b\<close> on naturals is
    \<open>a.duration_since(b).unwrap_or(Duration::ZERO)\<close>; \<open>duration_since\<close> below is the fallible call.
  \<^item> A string is the list of its UTF-8 bytes.
  \<^item> A \<open>std::collections::HashMap\<close> is an association list with distinct keys. The order of the list
    stands for the iteration order of the map, which Rust leaves unspecified: every theorem holds
    for every list, hence for every iteration order.
\<close>

section \<open>Types\<close>

type_synonym u8 = "8 word"
type_synonym u16 = "16 word"
type_synonym u32 = "32 word"
type_synonym u64 = "64 word"
type_synonym usize = nat
type_synonym time = nat
type_synonym duration = nat
type_synonym bytes = "u8 list"
type_synonym path_buf = string

type_synonym ('k, 'v) hashmap = "('k \<times> 'v) list"

named_theorems model_defs "definitions that the proofs of a component unfold together"
named_theorems inv_intros "preservation facts of component invariants"

section \<open>Time\<close>

definition nanos_per_sec :: nat where
  "nanos_per_sec = 1000000000"

definition nanos_per_milli :: nat where
  "nanos_per_milli = 1000000"

definition from_secs :: "u64 \<Rightarrow> duration" where
  "from_secs s = unat s * nanos_per_sec"

definition from_millis :: "u64 \<Rightarrow> duration" where
  "from_millis ms = unat ms * nanos_per_milli"

definition duration_since :: "time \<Rightarrow> time \<Rightarrow> duration option" where
  "duration_since later earlier = (if earlier \<le> later then Some (later - earlier) else None)"

lemma duration_since_unwrap [simp]:
  "(case duration_since a b of None \<Rightarrow> 0 | Some d \<Rightarrow> d) = a - b"
  by (simp add: duration_since_def)

lemma duration_since_Some [simp]: "duration_since a b = Some d \<longleftrightarrow> b \<le> a \<and> d = a - b"
  by (auto simp: duration_since_def)

section \<open>Saturating and wrapping counters\<close>

definition saturating_sub1 :: "'w::len word \<Rightarrow> 'w word" where
  "saturating_sub1 x = (if x = 0 then 0 else x - 1)"

lemma unat_saturating_sub1: "unat (saturating_sub1 x) = unat x - 1"
  by (simp add: saturating_sub1_def unat_minus_one)

lemma unat_inc: "Suc (unat (x :: 'w::len word)) < 2 ^ LENGTH('w) \<Longrightarrow> unat (x + 1) = Suc (unat x)"
  by (simp add: unat_word_ariths take_bit_eq_mod)

section \<open>Decimal rendering\<close>

definition digit :: "nat \<Rightarrow> char" where
  "digit d = char_of (48 + d)"

fun show_nat :: "nat \<Rightarrow> string" where
  "show_nat n = (if n < 10 then [digit n] else show_nat (n div 10) @ [digit (n mod 10)])"

declare show_nat.simps [simp del]

lemma digit_inj: "a < 10 \<Longrightarrow> b < 10 \<Longrightarrow> digit a = digit b \<Longrightarrow> a = b"
proof -
  assume ab: "a < 10" "b < 10" and eq: "digit a = digit b"
  have "(of_char (digit a) :: nat) = of_char (digit b)"
    by (simp add: eq)
  then show "a = b"
    using ab by (simp add: digit_def)
qed

lemma show_nat_nonempty: "show_nat n \<noteq> []"
  by (subst show_nat.simps) simp

lemma show_nat_inj: "show_nat m = show_nat n \<Longrightarrow> m = n"
proof (induction m arbitrary: n rule: show_nat.induct)
  case (1 m)
  have m: "show_nat m = (if m < 10 then [digit m] else show_nat (m div 10) @ [digit (m mod 10)])"
    and n: "show_nat n = (if n < 10 then [digit n] else show_nat (n div 10) @ [digit (n mod 10)])"
    by (rule show_nat.simps)+
  show ?case
  proof (cases "m < 10 \<or> n < 10")
    case True
    then show ?thesis
      using "1.prems" m n show_nat_nonempty[of "m div 10"] show_nat_nonempty[of "n div 10"]
      by (auto split: if_splits dest: digit_inj)
  next
    case False
    then have "show_nat (m div 10) = show_nat (n div 10)" and "digit (m mod 10) = digit (n mod 10)"
      using "1.prems" m n by auto
    then have "m div 10 = n div 10" and "m mod 10 = n mod 10"
      using "1.IH" False by (auto intro: digit_inj)
    then show ?thesis
      by (metis div_mult_mod_eq)
  qed
qed

lemma show_nat_digits: "c \<in> set (show_nat n) \<Longrightarrow> \<exists>d<10. c = digit d"
proof (induction n rule: show_nat.induct)
  case (1 n)
  then show ?case
    by (subst (asm) (2) show_nat.simps) (auto split: if_splits intro: exI [of _ "n mod 10"])
qed

lemma char_colon_not_digit: "d < 10 \<Longrightarrow> digit d \<noteq> CHR '':''"
proof
  assume d: "d < 10" and "digit d = CHR '':''"
  then have "(of_char (digit d) :: nat) = of_char CHR '':''"
    by simp
  then show False
    using d by (simp add: digit_def)
qed

lemma colon_notin_show_nat: "CHR '':'' \<notin> set (show_nat n)"
  using show_nat_digits char_colon_not_digit by fastforce

text \<open>Two texts cut at the first occurrence of a separator that neither prefix contains.\<close>

lemma split_at_sep:
  assumes "c \<notin> set xs" and "c \<notin> set xs'" and "xs @ c # ys = xs' @ c # ys'"
  shows "xs = xs' \<and> ys = ys'"
  using assms
proof (induction xs arbitrary: xs')
  case Nil
  then show ?case by (cases xs') auto
next
  case (Cons x xs)
  then show ?case by (cases xs') auto
qed

text \<open>The same cut at the last occurrence.\<close>

lemma split_at_last_sep:
  assumes "c \<notin> set ys" and "c \<notin> set ys'" and "xs @ c # ys = xs' @ c # ys'"
  shows "xs = xs' \<and> ys = ys'"
proof -
  have "rev ys @ c # rev xs = rev ys' @ c # rev xs'"
    using arg_cong [OF assms(3), of rev] by simp
  then have "rev ys = rev ys' \<and> rev xs = rev xs'"
    using split_at_sep [of c "rev ys" "rev ys'" "rev xs" "rev xs'"] assms(1,2) by simp
  then show ?thesis by simp
qed

section \<open>ASCII lower case\<close>

definition to_lower_char :: "char \<Rightarrow> char" where
  "to_lower_char c =
     (let n = (of_char c :: nat) in if 65 \<le> n \<and> n \<le> 90 then char_of (n + 32) else c)"

definition to_lowercase :: "string \<Rightarrow> string" where
  "to_lowercase s = map to_lower_char s"

section \<open>White space\<close>

text \<open>
  \<open>str::trim\<close> on UTF-8: the encodings of the code points with the property \<open>White_Space\<close>, first the
  one-byte ones. No encoding of a code point is a proper part of another, so cutting encodings off
  the ends is cutting characters off.
\<close>

definition newline :: char where
  "newline = CHR 0x0A"

definition white_spaces :: "string list" where
  "white_spaces = [
    [CHR 0x0A], [CHR 0x09], [CHR 0x0B], [CHR 0x0C], [CHR 0x0D], [CHR 0x20], [CHR 0xC2, CHR 0x85],
    [CHR 0xC2, CHR 0xA0], [CHR 0xE1, CHR 0x9A, CHR 0x80], [CHR 0xE2, CHR 0x80, CHR 0x80],
    [CHR 0xE2, CHR 0x80, CHR 0x81], [CHR 0xE2, CHR 0x80, CHR 0x82], [CHR 0xE2, CHR 0x80, CHR 0x83],
    [CHR 0xE2, CHR 0x80, CHR 0x84], [CHR 0xE2, CHR 0x80, CHR 0x85], [CHR 0xE2, CHR 0x80, CHR 0x86],
    [CHR 0xE2, CHR 0x80, CHR 0x87], [CHR 0xE2, CHR 0x80, CHR 0x88], [CHR 0xE2, CHR 0x80, CHR 0x89],
    [CHR 0xE2, CHR 0x80, CHR 0x8A], [CHR 0xE2, CHR 0x80, CHR 0xA8], [CHR 0xE2, CHR 0x80, CHR 0xA9],
    [CHR 0xE2, CHR 0x80, CHR 0xAF], [CHR 0xE2, CHR 0x81, CHR 0x9F], [CHR 0xE3, CHR 0x80, CHR 0x80]]"

function strip :: "'a list list \<Rightarrow> 'a list \<Rightarrow> 'a list" where
  "strip ws s =
     (case find (\<lambda>w. w \<noteq> [] \<and> take (length w) s = w) ws of
        None \<Rightarrow> s
      | Some w \<Rightarrow> strip ws (drop (length w) s))"
  by pat_completeness auto
termination
proof (relation "measure (length \<circ> snd)")
  fix ws s w
  assume "find (\<lambda>w. w \<noteq> [] \<and> take (length w) s = w) ws = Some (w :: 'a list)"
  then have "w \<noteq> []" and "take (length w) s = w"
    by (auto simp: find_Some_iff)
  then have "s \<noteq> []" and "0 < length w"
    by auto
  then show "((ws, drop (length w) s), ws, s) \<in> measure (length \<circ> snd)"
    by simp
qed simp

declare strip.simps [simp del]

definition trim :: "string \<Rightarrow> string" where
  "trim s = rev (strip (map rev white_spaces) (rev (strip white_spaces s)))"

lemma strip_id:
  assumes "s = [] \<or> hd s \<notin> hd ` set ws"
  shows "strip ws s = s"
proof -
  have "find (\<lambda>w. w \<noteq> [] \<and> take (length w) s = w) ws = None"
    using assms by (cases s) (force simp: find_None_iff take_Cons' neq_Nil_conv)+
  then show ?thesis
    by (subst strip.simps) simp
qed

text \<open>A line whose text neither starts nor ends with a byte of a white space.\<close>

definition solid :: "string \<Rightarrow> bool" where
  "solid s \<longleftrightarrow> s \<noteq> [] \<and> hd s \<notin> hd ` set white_spaces \<and> last s \<notin> last ` set white_spaces"

lemma solidI:
  assumes "s \<noteq> []" and "32 < (of_char (hd s) :: nat)" "(of_char (hd s) :: nat) < 128"
    and "32 < (of_char (last s) :: nat)" "(of_char (last s) :: nat) < 128"
  shows "solid s"
proof -
  have "\<forall>w\<in>set white_spaces. (of_char (hd w) :: nat) \<notin> {33..127} \<and> (of_char (last w) :: nat) \<notin> {33..127}"
    by (simp add: white_spaces_def)
  then show ?thesis
    using assms by (auto simp: solid_def)
qed

lemma strip_newline: "strip (map rev white_spaces) (newline # s) = strip (map rev white_spaces) s"
  by (subst strip.simps) (simp add: white_spaces_def newline_def)

lemma trim_line: "solid s \<Longrightarrow> trim (s @ [newline]) = s"
proof -
  assume s: "solid s"
  have "hd ` set (map rev white_spaces) = last ` set white_spaces"
    by (auto simp: white_spaces_def)
  then have "strip (map rev white_spaces) (rev s) = rev s"
    using s by (intro strip_id) (simp add: solid_def hd_rev)
  moreover have "strip white_spaces (s @ [newline]) = s @ [newline]"
    using s by (intro strip_id) (simp add: solid_def)
  ultimately show ?thesis
    by (simp add: trim_def strip_newline)
qed

section \<open>Fallible computations\<close>

text \<open>\<open>e?\<close> of the source: continue with the value, or return the error.\<close>

definition try_bind :: "'e + 'a \<Rightarrow> ('a \<Rightarrow> 'e + 'b) \<Rightarrow> 'e + 'b" where
  "try_bind r f = (case r of Inl e \<Rightarrow> Inl e | Inr a \<Rightarrow> f a)"

lemma try_bind_simps [simp]:
  "try_bind (Inl e) f = Inl e"
  "try_bind (Inr a) f = f a"
  by (simp_all add: try_bind_def)

lemma try_bind_Inr: "try_bind r f = Inr b \<longleftrightarrow> (\<exists>a. r = Inr a \<and> f a = Inr b)"
  by (cases r) auto

definition map_err :: "('e \<Rightarrow> 'f) \<Rightarrow> 'e + 'a \<Rightarrow> 'f + 'a" where
  "map_err g r = map_sum g id r"

lemma map_err_simps [simp]:
  "map_err g (Inl e) = Inl (g e)"
  "map_err g (Inr a) = Inr a"
  by (simp_all add: map_err_def)

definition is_ok :: "'e + 'a \<Rightarrow> bool" where
  "is_ok r = (case r of Inl _ \<Rightarrow> False | Inr _ \<Rightarrow> True)"

lemma is_ok_simps [simp]: "\<not> is_ok (Inl e)" "is_ok (Inr a)"
  by (simp_all add: is_ok_def)

end
