(* ===== verification/Errors.thy ===== *)
theory Errors
  imports Prelude
begin

text \<open>
  \<open>crates/core/src/error/\<close>: the error types of \<open>mod.rs\<close>, their rendering (the \<open>#[error(...)]\<close>
  attributes), classification (\<open>categories.rs\<close>) and enrichment (\<open>context.rs\<close>).
  \<open>std::io::Error\<close> is represented by its display text.
\<close>

section \<open>Error types (\<open>mod.rs\<close>)\<close>

datatype ssh_error =
    KeyError string
  | HostKeyVerification string
  | ChannelCreation string
  | SshCommandExecution string
  | BinaryUpload string

datatype local_error =
    BinaryNotFound string
  | BinaryNotExecutable string
  | ProcessSpawn string
  | ProcessCommunication string

datatype tcp_error =
    ConnectionTimeout u64
  | ConnectionRefused string
  | TlsError string

datatype wsl_error =
    WslNotAvailable
  | DistributionNotFound string
  | WslCommandExecution string

datatype transport_error =
    ConnectionFailed string
  | AuthenticationFailed string
  | NotAvailable (na_transport_type: string) (na_reason: string)
  | ConfigurationError string
  | SshErr ssh_error
  | LocalErr local_error
  | TcpErr tcp_error
  | WslErr wsl_error

datatype protocol_error =
    Serialization string
  | Deserialization string
  | VersionMismatch (vm_expected: string) (vm_actual: string)
  | InvalidFormat string
  | ChannelClosed
  | Timeout u64
  | BufferOverflow usize

datatype session_error =
    NotFound string
  | AlreadyExists string
  | MaxSessionsReached u32
  | InvalidState (current_state: string) (expected_state: string)
  | Expired string
  | PoolingError string

datatype config_error =
    InvalidValue (iv_key: string) (iv_reason: string)
  | MissingRequired string
  | FileError string
  | ProfileNotFound string
  | ValidationFailed string

datatype clipboard_error =
    ReadFailed string
  | WriteFailed string
  | AccessDenied
  | LockFailed string
  | UnsupportedFormat string

datatype browser_error =
    OpenFailed (of_url: string) (of_reason: string)
  | InvalidUrl string
  | NoBrowserAvailable
  | ExecutionFailed string

datatype auth_error =
    InvalidCredentials string
  | PermissionDenied string
  | TokenExpired
  | MethodNotSupported string

datatype daemon_error =
    NotRunning
  | AlreadyRunning u32
  | SocketError string
  | ClientLimitReached u32
  | DaemonShuttingDown

datatype yuha_error =
    TransportE transport_error
  | ProtocolE protocol_error
  | SessionE session_error
  | ConfigE config_error
  | IoE string
  | ClipboardE clipboard_error
  | BrowserE browser_error
  | AuthE auth_error
  | DaemonE daemon_error
  | InternalE string

section \<open>Rendering\<close>

fun show_ssh_error :: "ssh_error \<Rightarrow> string" where
  "show_ssh_error (KeyError r) = ''SSH key error: '' @ r"
| "show_ssh_error (HostKeyVerification r) = ''Host key verification failed: '' @ r"
| "show_ssh_error (ChannelCreation r) = ''SSH channel creation failed: '' @ r"
| "show_ssh_error (SshCommandExecution r) = ''SSH command execution failed: '' @ r"
| "show_ssh_error (BinaryUpload r) = ''Binary upload failed: '' @ r"

fun show_local_error :: "local_error \<Rightarrow> string" where
  "show_local_error (BinaryNotFound p) = ''Local binary not found: '' @ p"
| "show_local_error (BinaryNotExecutable p) = ''Local binary not executable: '' @ p"
| "show_local_error (ProcessSpawn r) = ''Process spawn failed: '' @ r"
| "show_local_error (ProcessCommunication r) = ''Process communication failed: '' @ r"

fun show_tcp_error :: "tcp_error \<Rightarrow> string" where
  "show_tcp_error (ConnectionTimeout ms) = ''TCP connection timeout: '' @ show_nat (unat ms) @ ''ms''"
| "show_tcp_error (ConnectionRefused a) = ''TCP connection refused: '' @ a"
| "show_tcp_error (TlsError r) = ''TLS error: '' @ r"

fun show_wsl_error :: "wsl_error \<Rightarrow> string" where
  "show_wsl_error WslNotAvailable = ''WSL not available on this system''"
| "show_wsl_error (DistributionNotFound d) = ''WSL distribution not found: '' @ d"
| "show_wsl_error (WslCommandExecution r) = ''WSL command execution failed: '' @ r"

fun show_transport_error :: "transport_error \<Rightarrow> string" where
  "show_transport_error (ConnectionFailed r) = ''Connection failed: '' @ r"
| "show_transport_error (AuthenticationFailed r) = ''Authentication failed: '' @ r"
| "show_transport_error (NotAvailable t r) =
     ''Transport '' @ [CHR 0x27] @ t @ [CHR 0x27] @ '' not available: '' @ r"
| "show_transport_error (ConfigurationError r) = ''Transport configuration error: '' @ r"
| "show_transport_error (SshErr e) = show_ssh_error e"
| "show_transport_error (LocalErr e) = show_local_error e"
| "show_transport_error (TcpErr e) = show_tcp_error e"
| "show_transport_error (WslErr e) = show_wsl_error e"

fun show_protocol_error :: "protocol_error \<Rightarrow> string" where
  "show_protocol_error (Serialization r) = ''Message serialization failed: '' @ r"
| "show_protocol_error (Deserialization r) = ''Message deserialization failed: '' @ r"
| "show_protocol_error (VersionMismatch e a) =
     ''Protocol version mismatch: expected '' @ e @ '', got '' @ a"
| "show_protocol_error (InvalidFormat r) = ''Invalid message format: '' @ r"
| "show_protocol_error ChannelClosed = ''Protocol channel closed unexpectedly''"
| "show_protocol_error (Timeout s) = ''Protocol timeout after '' @ show_nat (unat s) @ '' seconds''"
| "show_protocol_error (BufferOverflow n) =
     ''Protocol buffer overflow: message too large ('' @ show_nat n @ '' bytes)''"

fun show_session_error :: "session_error \<Rightarrow> string" where
  "show_session_error (NotFound s) = ''Session not found: '' @ s"
| "show_session_error (AlreadyExists s) = ''Session already exists: '' @ s"
| "show_session_error (MaxSessionsReached n) = ''Maximum sessions reached: '' @ show_nat (unat n)"
| "show_session_error (InvalidState c e) =
     ''Session in invalid state: '' @ c @ '', expected: '' @ e"
| "show_session_error (Expired s) = ''Session expired: '' @ s"
| "show_session_error (PoolingError r) = ''Connection pooling error: '' @ r"

fun show_config_error :: "config_error \<Rightarrow> string" where
  "show_config_error (InvalidValue k r) =
     ''Invalid configuration value for '' @ [CHR 0x27] @ k @ [CHR 0x27] @ '': '' @ r"
| "show_config_error (MissingRequired k) = ''Missing required configuration: '' @ k"
| "show_config_error (FileError r) = ''Configuration file error: '' @ r"
| "show_config_error (ProfileNotFound p) = ''Configuration profile not found: '' @ p"
| "show_config_error (ValidationFailed r) = ''Configuration validation failed: '' @ r"

fun show_clipboard_error :: "clipboard_error \<Rightarrow> string" where
  "show_clipboard_error (ReadFailed r) = ''Failed to read clipboard: '' @ r"
| "show_clipboard_error (WriteFailed r) = ''Failed to write clipboard: '' @ r"
| "show_clipboard_error AccessDenied = ''Clipboard access denied''"
| "show_clipboard_error (LockFailed r) = ''Failed to acquire clipboard lock: '' @ r"
| "show_clipboard_error (UnsupportedFormat f) = ''Unsupported clipboard format: '' @ f"

fun show_browser_error :: "browser_error \<Rightarrow> string" where
  "show_browser_error (OpenFailed u r) =
     ''Failed to open URL '' @ [CHR 0x27] @ u @ [CHR 0x27] @ '': '' @ r"
| "show_browser_error (InvalidUrl u) = ''Invalid URL format: '' @ u"
| "show_browser_error NoBrowserAvailable = ''No default browser available''"
| "show_browser_error (ExecutionFailed r) = ''Browser execution failed: '' @ r"

fun show_auth_error :: "auth_error \<Rightarrow> string" where
  "show_auth_error (InvalidCredentials r) = ''Invalid credentials: '' @ r"
| "show_auth_error (PermissionDenied oper) = ''Permission denied: '' @ oper"
| "show_auth_error TokenExpired = ''Authentication token expired''"
| "show_auth_error (MethodNotSupported m) = ''Authentication method not supported: '' @ m"

fun show_daemon_error :: "daemon_error \<Rightarrow> string" where
  "show_daemon_error NotRunning = ''Daemon not running''"
| "show_daemon_error (AlreadyRunning pid) = ''Daemon already running with PID: '' @ show_nat (unat pid)"
| "show_daemon_error (SocketError r) = ''Daemon socket error: '' @ r"
| "show_daemon_error (ClientLimitReached n) =
     ''Maximum client connections reached: '' @ show_nat (unat n)"
| "show_daemon_error DaemonShuttingDown = ''Daemon is shutting down''"

fun show_error :: "yuha_error \<Rightarrow> string" where
  "show_error (TransportE e) = show_transport_error e"
| "show_error (ProtocolE e) = show_protocol_error e"
| "show_error (SessionE e) = show_session_error e"
| "show_error (ConfigE e) = show_config_error e"
| "show_error (IoE e) = e"
| "show_error (ClipboardE e) = show_clipboard_error e"
| "show_error (BrowserE e) = show_browser_error e"
| "show_error (AuthE e) = show_auth_error e"
| "show_error (DaemonE e) = show_daemon_error e"
| "show_error (InternalE m) = ''Internal error: '' @ m"

section \<open>Constructors and queries of \<open>YuhaError\<close>\<close>

definition err_protocol :: "string \<Rightarrow> yuha_error" where
  "err_protocol m = ProtocolE (InvalidFormat m)"

definition err_config :: "string \<Rightarrow> yuha_error" where
  "err_config m = ConfigE (ValidationFailed m)"

definition err_session :: "string \<Rightarrow> yuha_error" where
  "err_session m = SessionE (InvalidState ''unknown'' m)"

definition err_internal :: "string \<Rightarrow> yuha_error" where
  "err_internal m = InternalE m"

fun is_retriable :: "yuha_error \<Rightarrow> bool" where
  "is_retriable (TransportE (ConnectionFailed _)) = True"
| "is_retriable (ProtocolE (Timeout _)) = True"
| "is_retriable (ProtocolE ChannelClosed) = True"
| "is_retriable (IoE _) = True"
| "is_retriable (DaemonE (SocketError _)) = True"
| "is_retriable _ = False"

text \<open>The inherent method \<open>YuhaError::category\<close>, a label for logs.\<close>

fun category_name :: "yuha_error \<Rightarrow> string" where
  "category_name (TransportE _) = ''transport''"
| "category_name (ProtocolE _) = ''protocol''"
| "category_name (SessionE _) = ''session''"
| "category_name (ConfigE _) = ''config''"
| "category_name (IoE _) = ''io''"
| "category_name (ClipboardE _) = ''clipboard''"
| "category_name (BrowserE _) = ''browser''"
| "category_name (AuthE _) = ''auth''"
| "category_name (DaemonE _) = ''daemon''"
| "category_name (InternalE _) = ''internal''"

fun user_message :: "yuha_error \<Rightarrow> string" where
  "user_message (TransportE (ConnectionFailed _)) =
     ''Unable to connect to remote server. Please check your connection settings.''"
| "user_message (ConfigE (FileError _)) =
     ''Configuration file error. Please check your configuration.''"
| "user_message (AuthE (InvalidCredentials _)) =
     ''Invalid credentials. Please check your username and password.''"
| "user_message e = show_error e"

section \<open>Classification (\<open>categories.rs\<close>)\<close>

datatype error_severity = SevInfo | SevWarning | SevError | SevCritical | SevFatal

datatype error_category =
  Network | Authentication | Configuration | Resource | UserInput | System | Logic | External

fun severity :: "yuha_error \<Rightarrow> error_severity" where
  "severity (TransportE e) =
     (case e of
        ConnectionFailed _ \<Rightarrow> SevError
      | AuthenticationFailed _ \<Rightarrow> SevError
      | NotAvailable _ _ \<Rightarrow> SevCritical
      | ConfigurationError _ \<Rightarrow> SevError
      | _ \<Rightarrow> SevError)"
| "severity (ProtocolE e) =
     (case e of
        Timeout _ \<Rightarrow> SevWarning
      | ChannelClosed \<Rightarrow> SevError
      | BufferOverflow _ \<Rightarrow> SevCritical
      | _ \<Rightarrow> SevError)"
| "severity (SessionE e) =
     (case e of
        NotFound _ \<Rightarrow> SevWarning
      | MaxSessionsReached _ \<Rightarrow> SevCritical
      | Expired _ \<Rightarrow> SevWarning
      | _ \<Rightarrow> SevError)"
| "severity (ConfigE _) = SevError"
| "severity (IoE _) = SevError"
| "severity (ClipboardE _) = SevWarning"
| "severity (BrowserE _) = SevWarning"
| "severity (AuthE _) = SevError"
| "severity (DaemonE e) =
     (case e of
        NotRunning \<Rightarrow> SevError
      | AlreadyRunning _ \<Rightarrow> SevWarning
      | ClientLimitReached _ \<Rightarrow> SevCritical
      | DaemonShuttingDown \<Rightarrow> SevInfo
      | _ \<Rightarrow> SevError)"
| "severity (InternalE _) = SevFatal"

text \<open>The trait method \<open>ErrorClassification::category\<close>.\<close>

fun classify :: "yuha_error \<Rightarrow> error_category" where
  "classify (TransportE _) = Network"
| "classify (ProtocolE _) = Network"
| "classify (SessionE _) = Logic"
| "classify (ConfigE _) = Configuration"
| "classify (IoE _) = System"
| "classify (ClipboardE _) = System"
| "classify (BrowserE _) = External"
| "classify (AuthE _) = Authentication"
| "classify (DaemonE _) = Logic"
| "classify (InternalE _) = Logic"

definition is_user_facing :: "yuha_error \<Rightarrow> bool" where
  "is_user_facing e = (case severity e of SevInfo \<Rightarrow> False | SevWarning \<Rightarrow> False | _ \<Rightarrow> True)"

definition should_log :: "yuha_error \<Rightarrow> bool" where
  "should_log e \<longleftrightarrow> severity e \<noteq> SevInfo"

definition should_alert :: "yuha_error \<Rightarrow> bool" where
  "should_alert e \<longleftrightarrow> severity e = SevCritical \<or> severity e = SevFatal"

fun show_category :: "error_category \<Rightarrow> string" where
  "show_category Network = ''network''"
| "show_category Authentication = ''authentication''"
| "show_category Configuration = ''configuration''"
| "show_category Resource = ''resource''"
| "show_category UserInput = ''user_input''"
| "show_category System = ''system''"
| "show_category Logic = ''logic''"
| "show_category External = ''external''"

fun show_severity :: "error_severity \<Rightarrow> string" where
  "show_severity SevInfo = ''info''"
| "show_severity SevWarning = ''warning''"
| "show_severity SevError = ''error''"
| "show_severity SevCritical = ''critical''"
| "show_severity SevFatal = ''fatal''"

record error_metrics =
  em_error_type :: string
  em_category :: error_category
  em_severity :: error_severity
  em_timestamp :: time
  em_operation :: "string option"
  em_component :: "string option"

text \<open>
  \<open>ErrorMetrics::from_error\<close>. In \<open>error.category()\<close> the inherent method of \<open>YuhaError\<close>
  (\<open>category_name\<close>) takes precedence over the trait method, so the label is matched against the
  names of the categories.
\<close>

definition parse_category :: "string \<Rightarrow> error_category" where
  "parse_category s =
     (if s = ''network'' then Network
      else if s = ''authentication'' then Authentication
      else if s = ''configuration'' then Configuration
      else if s = ''resource'' then Resource
      else if s = ''user_input'' then UserInput
      else if s = ''system'' then System
      else if s = ''logic'' then Logic
      else if s = ''external'' then External
      else Logic)"

definition metrics_from_error :: "time \<Rightarrow> yuha_error \<Rightarrow> error_metrics" where
  "metrics_from_error now e =
     \<lparr>em_error_type = category_name e, em_category = parse_category (category_name e),
      em_severity = severity e, em_timestamp = now, em_operation = None, em_component = None\<rparr>"

definition em_with_operation :: "error_metrics \<Rightarrow> string \<Rightarrow> error_metrics" where
  "em_with_operation m oper = m\<lparr>em_operation := Some oper\<rparr>"

definition em_with_component :: "error_metrics \<Rightarrow> string \<Rightarrow> error_metrics" where
  "em_with_component m c = m\<lparr>em_component := Some c\<rparr>"

section \<open>Properties\<close>

instantiation error_severity :: linorder
begin

fun severity_rank :: "error_severity \<Rightarrow> nat" where
  "severity_rank SevInfo = 0"
| "severity_rank SevWarning = 1"
| "severity_rank SevError = 2"
| "severity_rank SevCritical = 3"
| "severity_rank SevFatal = 4"

definition less_eq_error_severity :: "error_severity \<Rightarrow> error_severity \<Rightarrow> bool" where
  "a \<le> b \<longleftrightarrow> severity_rank a \<le> severity_rank b"

definition less_error_severity :: "error_severity \<Rightarrow> error_severity \<Rightarrow> bool" where
  "a < b \<longleftrightarrow> severity_rank a < severity_rank b"

instance
proof
  fix x y :: error_severity
  show "x \<le> y \<Longrightarrow> y \<le> x \<Longrightarrow> x = y"
    by (cases x; cases y) (simp_all add: less_eq_error_severity_def)
qed (auto simp: less_eq_error_severity_def less_error_severity_def)

end

lemma parse_show_category: "parse_category (show_category c) = c"
  by (cases c) (simp_all add: parse_category_def)

lemma should_alert_user_facing: "should_alert e \<Longrightarrow> is_user_facing e"
  by (auto simp: should_alert_def is_user_facing_def)

lemma user_facing_iff: "is_user_facing e \<longleftrightarrow> SevError \<le> severity e"
  by (cases "severity e") (simp_all add: is_user_facing_def less_eq_error_severity_def)

lemma should_alert_iff: "should_alert e \<longleftrightarrow> SevCritical \<le> severity e"
  by (cases "severity e") (simp_all add: should_alert_def less_eq_error_severity_def)

lemma should_log_iff: "should_log e \<longleftrightarrow> SevWarning \<le> severity e"
  by (cases "severity e") (simp_all add: should_log_def less_eq_error_severity_def)

lemma retriable_severity: "is_retriable e \<Longrightarrow> severity e = SevError \<or> severity e = SevWarning"
  by (cases e rule: is_retriable.cases) auto

lemma retriable_classify: "is_retriable e \<Longrightarrow> classify e \<in> {Network, System, Logic}"
  by (cases e rule: is_retriable.cases) auto

lemma metrics_category_logic: "em_category (metrics_from_error now e) = Logic"
  by (cases e) (simp_all add: metrics_from_error_def parse_category_def)

end
