(* ===== verification/Retry.thy ===== *)
theory Retry
  imports Complex_Main Errors
begin

text \<open>
  \<open>crates/core/src/error/retry.rs\<close>: the retry policy, the retry loop and the circuit breaker.

  \<^item> The multiplier of the policy is an \<open>f64\<close>; the model keeps it as a rational and takes the
    floating-point computation of the raw delay (\<open>as_millis() as f64 * m.powi(k)\<close>, cast back to
    \<open>u64\<close>) as the argument \<open>backoff\<close>, so every bound holds for every rounding.
  \<^item> \<open>fastrand::u64(0..=n)\<close> is the argument \<open>draw\<close>; what the code relies on is \<open>draw n \<le> n\<close>.
  \<^item> The operation that is retried is the sequence of the outcomes of its calls.
\<close>

section \<open>Policy\<close>

record retry_policy =
  max_attempts :: u32
  initial_delay :: duration
  max_delay :: duration
  backoff_multiplier :: rat
  jitter :: bool

definition retry_policy_default :: retry_policy where
  "retry_policy_default =
     \<lparr>max_attempts = 3, initial_delay = from_millis 100, max_delay = from_secs 30,
      backoff_multiplier = 2, jitter = True\<rparr>"

definition retry_policy_new :: "u32 \<Rightarrow> retry_policy" where
  "retry_policy_new n = retry_policy_default\<lparr>max_attempts := n\<rparr>"

definition with_initial_delay :: "retry_policy \<Rightarrow> duration \<Rightarrow> retry_policy" where
  "with_initial_delay p d = p\<lparr>initial_delay := d\<rparr>"

definition with_max_delay :: "retry_policy \<Rightarrow> duration \<Rightarrow> retry_policy" where
  "with_max_delay p d = p\<lparr>max_delay := d\<rparr>"

definition with_backoff_multiplier :: "retry_policy \<Rightarrow> rat \<Rightarrow> retry_policy" where
  "with_backoff_multiplier p m = p\<lparr>backoff_multiplier := m\<rparr>"

definition with_jitter :: "retry_policy \<Rightarrow> bool \<Rightarrow> retry_policy" where
  "with_jitter p j = p\<lparr>jitter := j\<rparr>"

definition as_millis :: "duration \<Rightarrow> nat" where
  "as_millis d = d div nanos_per_milli"

definition delay_for_attempt ::
    "(nat \<Rightarrow> rat \<Rightarrow> nat \<Rightarrow> u64) \<Rightarrow> (u64 \<Rightarrow> u64) \<Rightarrow> retry_policy \<Rightarrow> nat \<Rightarrow> duration" where
  "delay_for_attempt backoff draw p attempt =
     (if attempt = 0 then 0
      else
        let delay_ms = backoff (as_millis (initial_delay p)) (backoff_multiplier p) (attempt - 1);
            delay = min (from_millis delay_ms) (max_delay p)
        in if jitter p
           then delay + from_millis (draw (of_nat (as_millis delay div 10)))
           else delay)"

definition should_retry :: "retry_policy \<Rightarrow> yuha_error \<Rightarrow> nat \<Rightarrow> bool" where
  "should_retry p e attempt = (if attempt \<ge> unat (max_attempts p) then False else is_retriable e)"

section \<open>The retry loop\<close>

text \<open>
  \<open>oper n\<close> is the outcome of call number \<open>n\<close>; \<open>delay n\<close> the delay computed before attempt \<open>n\<close>.
  The result is paired with the list of the delays slept and the number of calls made.
\<close>

record 'a retry_run =
  outcome :: "yuha_error + 'a"
  slept :: "duration list"
  calls :: nat

function retry_loop ::
    "retry_policy \<Rightarrow> (nat \<Rightarrow> duration) \<Rightarrow> (nat \<Rightarrow> yuha_error + 'a) \<Rightarrow> nat \<Rightarrow> yuha_error option
     \<Rightarrow> duration list \<Rightarrow> 'a retry_run" where
  "retry_loop p delay oper attempt last_error ds =
     (if attempt > unat (max_attempts p)
      then \<lparr>outcome = Inl (case last_error of
                Some e \<Rightarrow> e | None \<Rightarrow> err_internal ''Retry operation failed without error''),
             slept = ds, calls = attempt\<rparr>
      else
        let ds' = (if attempt > 0 then ds @ [delay attempt] else ds)
        in case oper attempt of
             Inr r \<Rightarrow> \<lparr>outcome = Inr r, slept = ds', calls = Suc attempt\<rparr>
           | Inl e \<Rightarrow>
               if \<not> should_retry p e attempt
               then \<lparr>outcome = Inl e, slept = ds', calls = Suc attempt\<rparr>
               else retry_loop p delay oper (Suc attempt) (Some e) ds')"
  by pat_completeness auto
termination
  by (relation "measure (\<lambda>(p, _, _, attempt, _, _). Suc (unat (max_attempts p)) - attempt)") auto

declare retry_loop.simps [simp del]

definition retry_async ::
    "(nat \<Rightarrow> yuha_error + 'a) \<Rightarrow> (nat \<Rightarrow> duration) \<Rightarrow> retry_policy \<Rightarrow> 'a retry_run" where
  "retry_async oper delay p = retry_loop p delay oper 0 None []"

definition retry_with_backoff ::
    "(nat \<Rightarrow> rat \<Rightarrow> nat \<Rightarrow> u64) \<Rightarrow> (u64 \<Rightarrow> u64) \<Rightarrow> (nat \<Rightarrow> yuha_error + 'a) \<Rightarrow> u32 \<Rightarrow> 'a retry_run" where
  "retry_with_backoff backoff draw oper n =
     (let p = retry_policy_new n in retry_async oper (delay_for_attempt backoff draw p) p)"

section \<open>Circuit breaker\<close>

datatype circuit_state = Closed | Open | HalfOpen

record circuit_breaker =
  cb_state :: circuit_state
  failure_count :: u32
  failure_threshold :: u32
  success_threshold :: u32
  cb_timeout :: duration
  last_failure_time :: "time option"

definition breaker_new :: "u32 \<Rightarrow> duration \<Rightarrow> circuit_breaker" where
  "breaker_new threshold timeout =
     \<lparr>cb_state = Closed, failure_count = 0, failure_threshold = threshold, success_threshold = 1,
      cb_timeout = timeout, last_failure_time = None\<rparr>"

definition can_execute :: "time \<Rightarrow> circuit_breaker \<Rightarrow> bool \<times> circuit_breaker" where
  "can_execute now b =
     (case cb_state b of
        Closed \<Rightarrow> (True, b)
      | Open \<Rightarrow>
          (case last_failure_time b of
             Some t \<Rightarrow> if now - t \<ge> cb_timeout b then (True, b\<lparr>cb_state := HalfOpen\<rparr>) else (False, b)
           | None \<Rightarrow> (True, b))
      | HalfOpen \<Rightarrow> (True, b))"

definition record_success :: "circuit_breaker \<Rightarrow> circuit_breaker" where
  "record_success b =
     (case cb_state b of
        HalfOpen \<Rightarrow> b\<lparr>cb_state := Closed, failure_count := 0\<rparr>
      | Closed \<Rightarrow> b\<lparr>failure_count := 0\<rparr>
      | Open \<Rightarrow> b)"

definition record_failure :: "time \<Rightarrow> circuit_breaker \<Rightarrow> circuit_breaker" where
  "record_failure now b =
     (let b1 = b\<lparr>failure_count := failure_count b + 1, last_failure_time := Some now\<rparr>
      in if failure_count b1 \<ge> failure_threshold b1 then b1\<lparr>cb_state := Open\<rparr> else b1)"

text \<open>
  The runs of a breaker: any sequence of the three operations. \<open>fails\<close> counts the failures recorded
  since the last success that had an effect.
\<close>

inductive breaker_run :: "u32 \<Rightarrow> duration \<Rightarrow> nat \<Rightarrow> circuit_breaker \<Rightarrow> bool" for thr tmo where
  start: "breaker_run thr tmo 0 (breaker_new thr tmo)"
| query: "breaker_run thr tmo n b \<Longrightarrow> breaker_run thr tmo n (snd (can_execute now b))"
| success: "breaker_run thr tmo n b \<Longrightarrow>
    breaker_run thr tmo (if cb_state b = Open then n else 0) (record_success b)"
| failure: "breaker_run thr tmo n b \<Longrightarrow> breaker_run thr tmo (Suc n) (record_failure now b)"

inductive_cases breaker_startE: "breaker_run thr tmo 0 b"

section \<open>Lemmas: delays\<close>

lemma from_millis_of_div:
  assumes "unat n \<le> as_millis d div 10"
  shows "from_millis n \<le> d div 10"
proof -
  have "unat n * nanos_per_milli \<le> (d div nanos_per_milli div 10) * nanos_per_milli"
    using assms by (simp add: as_millis_def)
  also have "\<dots> = (d div 10 div nanos_per_milli) * nanos_per_milli"
    by (simp add: div_mult2_eq [symmetric] mult.commute)
  also have "\<dots> \<le> d div 10"
    by (rule div_times_less_eq_dividend)
  finally show ?thesis
    by (simp add: from_millis_def)
qed

lemma as_millis_min_bound: "as_millis (min (from_millis ms) d) div 10 < 2 ^ 64"
proof -
  have "as_millis (min (from_millis ms) d) \<le> as_millis (from_millis ms)"
    by (simp add: as_millis_def div_le_mono)
  also have "\<dots> = unat ms"
    by (simp add: as_millis_def from_millis_def nanos_per_milli_def)
  also have "\<dots> < 2 ^ 64"
    using unsigned_less [of ms] by simp
  finally show ?thesis by linarith
qed

lemma jitter_bound:
  assumes "\<And>n. draw n \<le> n"
  shows "from_millis (draw (of_nat (as_millis (min (from_millis ms) d) div 10)))
       \<le> min (from_millis ms) d div 10"
proof (rule from_millis_of_div)
  let ?r = "as_millis (min (from_millis ms) d) div 10"
  have "unat (draw (of_nat ?r)) \<le> unat (of_nat ?r :: u64)"
    using assms by (simp add: word_le_nat_alt [symmetric])
  also have "\<dots> = ?r"
    using as_millis_min_bound [of ms d] by (simp add: unat_of_nat)
  finally show "unat (draw (of_nat ?r)) \<le> ?r" .
qed

section \<open>Lemmas: the loop\<close>

text \<open>The first call at which the loop stops.\<close>

definition stops_at :: "retry_policy \<Rightarrow> (nat \<Rightarrow> yuha_error + 'a) \<Rightarrow> nat \<Rightarrow> bool" where
  "stops_at p oper n =
     (case oper n of Inr _ \<Rightarrow> True | Inl e \<Rightarrow> \<not> should_retry p e n)"

lemma stops_at_max: "stops_at p oper (unat (max_attempts p))"
  by (simp add: stops_at_def should_retry_def split: sum.split)

lemma retry_loop_stops:
  assumes "attempt \<le> n" and "n \<le> unat (max_attempts p)" and "stops_at p oper n"
    and "\<And>k. attempt \<le> k \<Longrightarrow> k < n \<Longrightarrow> \<not> stops_at p oper k"
  shows "retry_loop p delay oper attempt l ds =
    \<lparr>outcome = oper n, slept = ds @ map delay [max 1 attempt..<Suc n], calls = Suc n\<rparr>"
  using assms
proof (induction p delay oper attempt l ds rule: retry_loop.induct)
  case (1 p delay oper attempt l ds)
  show ?case
  proof (cases "attempt = n")
    case True
    then show ?thesis
      using "1.prems"
      by (subst retry_loop.simps) (auto simp: stops_at_def split: sum.splits)
  next
    case False
    then have lt: "attempt < n" and "\<not> stops_at p oper attempt"
      using "1.prems" by auto
    then obtain e where e: "oper attempt = Inl e" and s: "should_retry p e attempt"
      by (auto simp: stops_at_def split: sum.splits)
    let ?ds = "if attempt > 0 then ds @ [delay attempt] else ds"
    have "retry_loop p delay oper attempt l ds = retry_loop p delay oper (Suc attempt) (Some e) ?ds"
      using e s lt "1.prems" by (subst retry_loop.simps) simp
    also have "\<dots> = \<lparr>outcome = oper n, slept = ?ds @ map delay [max 1 (Suc attempt)..<Suc n], calls = Suc n\<rparr>"
      using "1.IH" [OF _ refl e] s lt "1.prems" by auto
    also have "?ds @ map delay [max 1 (Suc attempt)..<Suc n] = ds @ map delay [max 1 attempt..<Suc n]"
      using lt by (cases attempt) (simp_all add: upt_conv_Cons)
    finally show ?thesis .
  qed
qed

lemma first_stop:
  obtains n where "n \<le> unat (max_attempts p)" and "stops_at p oper n"
    and "\<And>k. k < n \<Longrightarrow> \<not> stops_at p oper k"
proof -
  let ?n = "LEAST n. stops_at p oper n"
  have "stops_at p oper ?n"
    by (rule LeastI [of _ "unat (max_attempts p)"]) (rule stops_at_max)
  moreover have "?n \<le> unat (max_attempts p)"
    by (rule Least_le) (rule stops_at_max)
  ultimately show ?thesis
    using that not_less_Least by blast
qed

section \<open>Lemmas: the breaker\<close>

lemmas breaker_defs = can_execute_def record_success_def record_failure_def breaker_new_def Let_def

text \<open>
  The invariant of a run: the parameters are constant, a breaker that is not closed has a recorded
  failure time, and while the counter has not wrapped it counts the failures since the last
  effective success and the closed state means it is below the threshold.
\<close>

definition breaker_inv :: "u32 \<Rightarrow> duration \<Rightarrow> nat \<Rightarrow> circuit_breaker \<Rightarrow> bool" where
  "breaker_inv thr tmo n b \<longleftrightarrow>
     failure_threshold b = thr \<and> cb_timeout b = tmo \<and>
     (cb_state b \<noteq> Closed \<longrightarrow> last_failure_time b \<noteq> None) \<and>
     (n < 2 ^ 32 \<longrightarrow>
        unat (failure_count b) = n \<and>
        (if n < unat thr \<or> n = 0 then cb_state b = Closed else cb_state b \<noteq> Closed))"

lemma breaker_inv_start: "breaker_inv thr tmo 0 (breaker_new thr tmo)"
  by (simp add: breaker_inv_def breaker_new_def)

lemma breaker_inv_query:
  "breaker_inv thr tmo n b \<Longrightarrow> breaker_inv thr tmo n (snd (can_execute now b))"
  by (auto simp: breaker_inv_def can_execute_def split: circuit_state.splits option.splits)

lemma breaker_inv_success:
  "breaker_inv thr tmo n b \<Longrightarrow>
   breaker_inv thr tmo (if cb_state b = Open then n else 0) (record_success b)"
  by (cases "cb_state b") (auto simp: breaker_inv_def record_success_def split: if_splits)

lemma breaker_inv_failure:
  assumes "breaker_inv thr tmo n b"
  shows "breaker_inv thr tmo (Suc n) (record_failure now b)"
proof -
  have "unat (failure_count b + 1) = Suc n" if "Suc n < 2 ^ 32"
    using that assms unat_inc [of "failure_count b"] by (simp add: breaker_inv_def)
  then show ?thesis
    using assms by (auto simp: breaker_inv_def record_failure_def Let_def word_le_nat_alt)
qed

lemma breaker_run_inv: "breaker_run thr tmo n b \<Longrightarrow> breaker_inv thr tmo n b"
  by (induction rule: breaker_run.induct)
    (blast intro: breaker_inv_start breaker_inv_query breaker_inv_success breaker_inv_failure)+

section \<open>Properties\<close>

text \<open>C35. The retry loop stops at the first call that succeeds or whose error is not to be retried,
  within \<open>max_attempts + 1\<close> calls; it returns the outcome of exactly that call (the fallback error
  "failed without error" is never returned) and has slept the delays of attempts \<open>1..n\<close> in order.\<close>

theorem retry_async_first_stop:
  "\<exists>n. n \<le> unat (max_attempts p) \<and> stops_at p oper n \<and> (\<forall>k<n. \<not> stops_at p oper k) \<and>
     retry_async oper delay p = \<lparr>outcome = oper n, slept = map delay [1..<Suc n], calls = Suc n\<rparr>"
proof -
  obtain n where n: "n \<le> unat (max_attempts p)" "stops_at p oper n" "\<And>k. k < n \<Longrightarrow> \<not> stops_at p oper k"
    using first_stop [of p oper] by blast
  then have "retry_async oper delay p = \<lparr>outcome = oper n, slept = map delay [1..<Suc n], calls = Suc n\<rparr>"
    using retry_loop_stops [of 0 n p oper delay None "[]"] by (simp add: retry_async_def)
  with n show ?thesis by blast
qed

definition flaky :: "nat \<Rightarrow> yuha_error + nat" where
  "flaky n = (if n < 2 then Inl (IoE ''reset'') else Inr 7)"

theorem retry_async_first_stop_witness:
  "outcome (retry_async flaky (\<lambda>n. n * 10) retry_policy_default) = Inr 7"
proof -
  have s: "stops_at retry_policy_default flaky n \<longleftrightarrow> n \<ge> 2" for n
    by (simp add: stops_at_def flaky_def should_retry_def retry_policy_default_def)
  from retry_async_first_stop [of retry_policy_default flaky "\<lambda>n. n * 10"] show ?thesis
    by (auto simp: s flaky_def)
qed

text \<open>A computed delay never exceeds the configured maximum by more than ten percent, whatever the
  floating-point backoff returns, and without jitter it never exceeds the maximum; the first attempt
  is never delayed.\<close>

theorem delay_for_attempt_bounded:
  assumes "\<And>n. draw n \<le> n"
  shows "delay_for_attempt backoff draw p attempt \<le> max_delay p + max_delay p div 10 \<and>
    (jitter p \<or> delay_for_attempt backoff draw p attempt \<le> max_delay p) \<and>
    delay_for_attempt backoff draw p 0 = 0"
proof -
  let ?ms = "backoff (as_millis (initial_delay p)) (backoff_multiplier p) (attempt - 1)"
  let ?d = "min (from_millis ?ms) (max_delay p)"
  have "from_millis (draw (of_nat (as_millis ?d div 10))) \<le> ?d div 10"
    by (rule jitter_bound) (rule assms)
  also have "\<dots> \<le> max_delay p div 10"
    by (rule div_le_mono) simp
  finally show ?thesis
    by (auto simp: delay_for_attempt_def Let_def intro: add_mono)
qed

theorem delay_for_attempt_bounded_witness:
  "delay_for_attempt (\<lambda>ms m k. of_nat (ms * 2 ^ k)) (\<lambda>n. n) retry_policy_default 3
     \<le> max_delay retry_policy_default + max_delay retry_policy_default div 10"
  using delay_for_attempt_bounded [of "\<lambda>n. n" "\<lambda>ms m k. of_nat (ms * 2 ^ k)" retry_policy_default 3]
  by simp

text \<open>C36. In every run of the breaker, with \<open>n\<close> failures recorded since the last effective success (and
  the 32-bit counter not wrapped), the breaker is closed exactly below the threshold (or when \<open>n\<close> is 0,
  should the threshold be 0), and it refuses an operation exactly when it is open and the timeout since the last failure has not elapsed; in
  particular the branch of an open breaker without a failure time is dead.\<close>

theorem breaker_refuses_iff:
  assumes "breaker_run thr tmo n b" and "n < 2 ^ 32"
  shows "(cb_state b = Closed \<longleftrightarrow> n < unat thr \<or> n = 0) \<and>
    (fst (can_execute now b) = False \<longleftrightarrow>
       cb_state b = Open \<and> (\<exists>t. last_failure_time b = Some t \<and> now - t < tmo))"
proof -
  have "breaker_inv thr tmo n b"
    using assms(1) by (rule breaker_run_inv)
  then show ?thesis
    using assms(2)
    by (auto simp: breaker_inv_def can_execute_def split: circuit_state.splits option.splits if_splits)
qed

theorem breaker_refuses_iff_witness:
  "\<not> fst (can_execute 50 (record_failure 10 (record_failure 5 (breaker_new 2 100))))"
proof -
  let ?b = "record_failure 10 (record_failure 5 (breaker_new 2 100))"
  have "breaker_run 2 100 (Suc (Suc 0)) ?b"
    by (intro breaker_run.intros)
  moreover have "cb_state ?b = Open \<and> last_failure_time ?b = Some 10"
    by (simp add: record_failure_def breaker_new_def Let_def)
  ultimately show ?thesis
    using breaker_refuses_iff [of 2 100 "Suc (Suc 0)" ?b 50] by simp
qed

text \<open>C37. An open breaker recovers: once the timeout has elapsed it admits a trial, and a successful
  trial closes it with the counter cleared, while a failed trial opens it again.\<close>

theorem breaker_recovers:
  assumes "breaker_run thr tmo n b" and "cb_state b = Open" and "Suc n < 2 ^ 32"
    and "last_failure_time b = Some t" and "t + tmo \<le> now"
  shows "fst (can_execute now b) \<and>
    cb_state (record_success (snd (can_execute now b))) = Closed \<and>
    failure_count (record_success (snd (can_execute now b))) = 0 \<and>
    cb_state (record_failure later (snd (can_execute now b))) = Open"
proof -
  let ?b = "snd (can_execute now b)"
  have run: "breaker_run thr tmo n ?b"
    using assms(1) by (rule breaker_run.query)
  have half: "fst (can_execute now b)" "cb_state ?b = HalfOpen"
    using assms breaker_run_inv [OF assms(1)] by (auto simp: can_execute_def breaker_inv_def)
  have "cb_state (record_failure later ?b) \<noteq> Closed"
    using breaker_run_inv [OF breaker_run.failure [OF run]] breaker_run_inv [OF run] assms(3) half
    by (auto simp: breaker_inv_def split: if_splits)
  then have "cb_state (record_failure later ?b) = Open"
    using breaker_run_inv [OF run] assms(3) half unat_inc [of "failure_count ?b"]
    by (auto simp: record_failure_def Let_def breaker_inv_def word_le_nat_alt split: if_splits)
  with half show ?thesis
    by (simp add: record_success_def)
qed

theorem breaker_recovers_witness:
  "fst (can_execute 110 (record_failure 10 (record_failure 5 (breaker_new 2 100))))"
proof -
  let ?b = "record_failure 10 (record_failure 5 (breaker_new 2 100))"
  have "breaker_run 2 100 (Suc (Suc 0)) ?b"
    by (intro breaker_run.intros)
  moreover have "cb_state ?b = Open" "last_failure_time ?b = Some 10"
    by (simp_all add: record_failure_def breaker_new_def Let_def)
  ultimately show ?thesis
    using breaker_recovers [of 2 100 "Suc (Suc 0)" ?b 10 110] by simp
qed

end
