(* ===== verification/Hash_Map.thy ===== *)
theory Hash_Map
  imports Prelude "HOL-Library.Multiset"
begin

text \<open>
  The part of \<open>std::collections::HashMap\<close> the source uses, as operations on association lists, and
  two interfaces over it:

  \<^item> \<open>hash_map\<close> states what a client of a map may rely on, with the entries known only as a multiset,
    so nothing proved in it depends on the iteration order;
  \<^item> \<open>id_index\<close> states what the secondary indexes of the session registry and the session pool
    promise: a map from a key to the vector of the session ids filed under it, maintained with
    \<open>entry(k).or_default().push(id)\<close> and \<open>retain(|&x| x != id)\<close>.
\<close>

section \<open>Operations\<close>

definition hm_get :: "('k, 'v) hashmap \<Rightarrow> 'k \<Rightarrow> 'v option" where
  "hm_get m k = map_of m k"

definition hm_insert :: "'k \<Rightarrow> 'v \<Rightarrow> ('k, 'v) hashmap \<Rightarrow> ('k, 'v) hashmap" where
  "hm_insert k v m = AList.update k v m"

definition hm_remove :: "'k \<Rightarrow> ('k, 'v) hashmap \<Rightarrow> ('k, 'v) hashmap" where
  "hm_remove k m = AList.delete k m"

definition hm_contains :: "('k, 'v) hashmap \<Rightarrow> 'k \<Rightarrow> bool" where
  "hm_contains m k \<longleftrightarrow> hm_get m k \<noteq> None"

definition hm_keys :: "('k, 'v) hashmap \<Rightarrow> 'k list" where
  "hm_keys m = map fst m"

definition hm_values :: "('k, 'v) hashmap \<Rightarrow> 'v list" where
  "hm_values m = map snd m"

definition hm_ok :: "('k, 'v) hashmap \<Rightarrow> bool" where
  "hm_ok m \<longleftrightarrow> distinct (map fst m)"

text \<open>\<open>*m.entry(k).or_insert(d) = f(old)\<close>.\<close>

definition hm_upsert :: "'v \<Rightarrow> ('v \<Rightarrow> 'v) \<Rightarrow> 'k \<Rightarrow> ('k, 'v) hashmap \<Rightarrow> ('k, 'v) hashmap" where
  "hm_upsert d f k m = hm_insert k (f (case hm_get m k of None \<Rightarrow> d | Some v \<Rightarrow> v)) m"

section \<open>The interface of a map\<close>

definition entry_count :: "('v \<Rightarrow> bool) \<Rightarrow> ('k \<times> 'v) list \<Rightarrow> nat" where
  "entry_count P es = length (filter (\<lambda>(k, v). P v) es)"

lemma entry_count_mset: "entry_count P es = size (filter_mset (\<lambda>(k, v). P v) (mset es))"
  by (simp add: entry_count_def flip: mset_filter)

lemma size_filter_replace:
  assumes "x \<in># M"
  shows "size (filter_mset P (add_mset y (M - {#x#}))) + (if P x then 1 else 0)
       = size (filter_mset P M) + (if P y then 1 else 0)"
proof -
  obtain N where "M = add_mset x N"
    using assms by (metis insert_DiffM)
  then show ?thesis by auto
qed

lemma size_filter_drop:
  assumes "x \<in># M"
  shows "size (filter_mset P (M - {#x#})) + (if P x then 1 else 0) = size (filter_mset P M)"
proof -
  obtain N where "M = add_mset x N"
    using assms by (metis insert_DiffM)
  then show ?thesis by auto
qed

locale hash_map =
  fixes get :: "'m \<Rightarrow> 'k \<Rightarrow> 'v option"
    and put :: "'k \<Rightarrow> 'v \<Rightarrow> 'm \<Rightarrow> 'm"
    and del :: "'k \<Rightarrow> 'm \<Rightarrow> 'm"
    and entries :: "'m \<Rightarrow> ('k \<times> 'v) list"
    and ok :: "'m \<Rightarrow> bool"
  assumes get_put: "get (put k v m) j = (if j = k then Some v else get m j)"
    and get_del: "get (del k m) j = (if j = k then None else get m j)"
    and ok_put: "ok m \<Longrightarrow> ok (put k v m)"
    and ok_del: "ok m \<Longrightarrow> ok (del k m)"
    and get_entries: "ok m \<Longrightarrow> get m k = Some v \<longleftrightarrow> (k, v) \<in> set (entries m)"
    and entries_put_new: "ok m \<Longrightarrow> get m k = None \<Longrightarrow>
      mset (entries (put k v m)) = add_mset (k, v) (mset (entries m))"
    and entries_put_old: "ok m \<Longrightarrow> get m k = Some u \<Longrightarrow>
      mset (entries (put k v m)) = add_mset (k, v) (mset (entries m) - {#(k, u)#})"
    and entries_del: "ok m \<Longrightarrow> get m k = Some u \<Longrightarrow>
      mset (entries (del k m)) = mset (entries m) - {#(k, u)#}"
    and del_absent: "get m k = None \<Longrightarrow> del k m = m"
begin

lemma count_put_new:
  "ok m \<Longrightarrow> get m k = None \<Longrightarrow>
   entry_count P (entries (put k v m)) = entry_count P (entries m) + (if P v then 1 else 0)"
  by (simp add: entry_count_mset entries_put_new)

lemma count_put_old:
  assumes "ok m" and "get m k = Some u"
  shows "entry_count P (entries (put k v m)) + (if P u then 1 else 0)
       = entry_count P (entries m) + (if P v then 1 else 0)"
proof -
  have "(k, u) \<in># mset (entries m)"
    using assms get_entries by simp
  from size_filter_replace [OF this, of "\<lambda>(k, v). P v" "(k, v)"] show ?thesis
    using assms by (simp add: entry_count_mset entries_put_old)
qed

lemma count_del:
  assumes "ok m" and "get m k = Some u"
  shows "entry_count P (entries (del k m)) + (if P u then 1 else 0) = entry_count P (entries m)"
proof -
  have "(k, u) \<in># mset (entries m)"
    using assms get_entries by simp
  from size_filter_drop [OF this, of "\<lambda>(k, v). P v"] show ?thesis
    using assms by (simp add: entry_count_mset entries_del)
qed

lemma length_count: "length (entries m) = entry_count (\<lambda>_. True) (entries m)"
  by (simp add: entry_count_def case_prod_unfold)

lemma length_put_new:
  "ok m \<Longrightarrow> get m k = None \<Longrightarrow> length (entries (put k v m)) = Suc (length (entries m))"
  using count_put_new [of m k "\<lambda>_. True"] by (simp add: length_count)

lemma length_put_old:
  "ok m \<Longrightarrow> get m k = Some u \<Longrightarrow> length (entries (put k v m)) = length (entries m)"
  using count_put_old [of m k u "\<lambda>_. True"] by (simp add: length_count)

lemma length_del:
  "ok m \<Longrightarrow> get m k = Some u \<Longrightarrow> Suc (length (entries (del k m))) = length (entries m)"
  using count_del [of m k u "\<lambda>_. True"] by (simp add: length_count)

lemma length_del_le: "ok m \<Longrightarrow> length (entries (del k m)) \<le> length (entries m)"
  using length_del [of m k] del_absent [of m k] by (cases "get m k") auto

end

section \<open>The association list provides it\<close>

lemma hm_get_empty [simp]: "hm_get [] k = None"
  by (simp add: hm_get_def)

lemma hm_ok_empty [simp]: "hm_ok []"
  by (simp add: hm_ok_def)

lemma hm_get_insert [simp]: "hm_get (hm_insert k v m) j = (if j = k then Some v else hm_get m j)"
  by (simp add: hm_get_def hm_insert_def AList.update_conv')

lemma hm_get_remove [simp]: "hm_get (hm_remove k m) j = (if j = k then None else hm_get m j)"
  by (simp add: hm_get_def hm_remove_def AList.delete_conv')

lemma hm_ok_insert [simp]: "hm_ok m \<Longrightarrow> hm_ok (hm_insert k v m)"
  by (simp add: hm_ok_def hm_insert_def AList.distinct_update)

lemma hm_ok_remove [simp]: "hm_ok m \<Longrightarrow> hm_ok (hm_remove k m)"
  by (simp add: hm_ok_def hm_remove_def AList.distinct_delete)

lemma hm_get_in_set: "hm_ok m \<Longrightarrow> hm_get m k = Some v \<longleftrightarrow> (k, v) \<in> set m"
  by (simp add: hm_get_def hm_ok_def)

lemma hm_remove_absent: "hm_get m k = None \<Longrightarrow> hm_remove k m = m"
  by (simp add: hm_get_def hm_remove_def AList.delete_notin_dom map_of_eq_None_iff)

lemma mset_update_new:
  "map_of m k = None \<Longrightarrow> mset (AList.update k v m) = add_mset (k, v) (mset m)"
  by (induction m) (auto split: if_splits)

lemma mset_update_old:
  "distinct (map fst m) \<Longrightarrow> map_of m k = Some u \<Longrightarrow>
   mset (AList.update k v m) = add_mset (k, v) (mset m - {#(k, u)#})"
proof (induction m)
  case (Cons p m)
  then show ?case
    by (cases p) (auto split: if_splits dest!: map_of_SomeD)
qed simp

lemma delete_notin: "k \<notin> fst ` set m \<Longrightarrow> AList.delete k m = m"
  by (simp add: AList.delete_notin_dom)

lemma mset_delete_old:
  "distinct (map fst m) \<Longrightarrow> map_of m k = Some u \<Longrightarrow>
   mset (AList.delete k m) = mset m - {#(k, u)#}"
proof (induction m)
  case (Cons p m)
  then show ?case
    by (cases p) (auto simp: delete_notin split: if_splits dest!: map_of_SomeD)
qed simp

interpretation hm: hash_map hm_get hm_insert hm_remove "\<lambda>m. m" hm_ok
proof unfold_locales
  fix m :: "('k, 'v) hashmap" and k v u
  show "hm_ok m \<Longrightarrow> hm_get m k = None \<Longrightarrow> mset (hm_insert k v m) = add_mset (k, v) (mset m)"
    by (simp add: hm_get_def hm_insert_def mset_update_new)
  show "hm_ok m \<Longrightarrow> hm_get m k = Some u \<Longrightarrow>
    mset (hm_insert k v m) = add_mset (k, v) (mset m - {#(k, u)#})"
    by (simp add: hm_get_def hm_insert_def hm_ok_def mset_update_old)
  show "hm_ok m \<Longrightarrow> hm_get m k = Some u \<Longrightarrow> mset (hm_remove k m) = mset m - {#(k, u)#}"
    by (simp add: hm_get_def hm_remove_def hm_ok_def mset_delete_old)
qed (auto simp: hm_get_in_set hm_remove_absent)

lemma hm_upsert_get [simp]:
  "hm_get (hm_upsert d f k m) j =
   (if j = k then Some (f (case hm_get m k of None \<Rightarrow> d | Some v \<Rightarrow> v)) else hm_get m j)"
  by (simp add: hm_upsert_def)

lemma hm_ok_upsert [simp]: "hm_ok m \<Longrightarrow> hm_ok (hm_upsert d f k m)"
  by (simp add: hm_upsert_def)

lemma hm_contains_iff [simp]: "hm_contains m k \<longleftrightarrow> (\<exists>v. hm_get m k = Some v)"
  by (auto simp: hm_contains_def)

lemma hm_values_in: "hm_ok m \<Longrightarrow> v \<in> set (hm_values m) \<longleftrightarrow> (\<exists>k. hm_get m k = Some v)"
  by (auto simp: hm_values_def hm_get_in_set intro: rev_image_eqI)

lemma hm_keys_in: "k \<in> set (hm_keys m) \<longleftrightarrow> (\<exists>v. hm_get m k = Some v)"
  by (auto simp: hm_keys_def hm_get_def map_of_eq_None_iff not_None_eq [symmetric]
      simp del: not_None_eq)

end
