(* ===== verification/Error_Context.thy ===== *)
theory Error_Context
  imports Errors Hash_Map
begin

text \<open>
  \<open>crates/core/src/error/context.rs\<close>: an error together with what was being done when it occurred. How the
  standard library prints a map with \<open>{:?}\<close> is the argument \<open>debug_map\<close>; the clock is an argument too.
\<close>

section \<open>Contexts\<close>

record error_context =
  ec_operation :: string
  ec_component :: string
  ec_metadata :: "(string, string) hashmap"
  ec_timestamp :: time

definition error_context_new :: "time \<Rightarrow> string \<Rightarrow> string \<Rightarrow> error_context" where
  "error_context_new now operation component =
     \<lparr>ec_operation = operation, ec_component = component, ec_metadata = [], ec_timestamp = now\<rparr>"

definition with_metadata :: "string \<Rightarrow> string \<Rightarrow> error_context \<Rightarrow> error_context" where
  "with_metadata k v c = c\<lparr>ec_metadata := hm_insert k v (ec_metadata c)\<rparr>"

definition with_session_id :: "string \<Rightarrow> error_context \<Rightarrow> error_context" where
  "with_session_id i = with_metadata ''session_id'' i"

definition with_transport :: "string \<Rightarrow> error_context \<Rightarrow> error_context" where
  "with_transport t = with_metadata ''transport_type'' t"

definition with_host :: "string \<Rightarrow> error_context \<Rightarrow> error_context" where
  "with_host h = with_metadata ''host'' h"

record contextual_error =
  ce_error :: yuha_error
  ce_context :: error_context

definition into_inner :: "contextual_error \<Rightarrow> yuha_error" where
  "into_inner e = ce_error e"

definition show_contextual :: "((string, string) hashmap \<Rightarrow> string) \<Rightarrow> contextual_error \<Rightarrow> string" where
  "show_contextual debug_map e =
     ''['' @ ec_component (ce_context e) @ '':'' @ ec_operation (ce_context e) @ ''] '' @
     category_name (ce_error e) @ '': '' @ show_error (ce_error e) @
     '' (metadata: '' @ debug_map (ec_metadata (ce_context e)) @ '')''"

definition error_with_context :: "error_context \<Rightarrow> yuha_error \<Rightarrow> contextual_error" where
  "error_with_context c e = \<lparr>ce_error = e, ce_context = c\<rparr>"

definition error_with_operation :: "time \<Rightarrow> string \<Rightarrow> string \<Rightarrow> yuha_error \<Rightarrow> contextual_error" where
  "error_with_operation now operation component e =
     error_with_context (error_context_new now operation component) e"

definition result_with_context :: "error_context \<Rightarrow> yuha_error + 'a \<Rightarrow> contextual_error + 'a" where
  "result_with_context c r = map_err (error_with_context c) r"

definition result_with_operation ::
    "time \<Rightarrow> string \<Rightarrow> string \<Rightarrow> yuha_error + 'a \<Rightarrow> contextual_error + 'a" where
  "result_with_operation now operation component r = map_err (error_with_operation now operation component) r"

section \<open>Lemmas\<close>

lemma map_err_comp: "map_err g (map_err f r) = map_err (g \<circ> f) r"
  by (cases r) (simp_all add: map_err_def)

text \<open>Adding a context loses nothing: the inner error can be taken out again.\<close>

lemma inner_of_context: "map_err into_inner (result_with_context c r) = r"
  by (cases r) (simp_all add: result_with_context_def map_err_def error_with_context_def into_inner_def)

text \<open>The last value filed under a key is the one that is kept, and the other keys are untouched.\<close>

lemma with_metadata_get [simp]:
  "hm_get (ec_metadata (with_metadata k v c)) k' = (if k' = k then Some v else hm_get (ec_metadata c) k')"
  by (simp add: with_metadata_def)

lemma context_fields:
  "hm_get (ec_metadata (with_host h (with_transport t (with_session_id i (error_context_new now operation component))))) k =
     (if k = ''host'' then Some h else if k = ''transport_type'' then Some t
      else if k = ''session_id'' then Some i else None)"
  by (simp add: with_host_def with_transport_def with_session_id_def error_context_new_def hm_get_def [of "[]"])

end
