(* ===== verification/Transport.thy ===== *)
theory Transport
  imports Errors Hash_Map
begin

text \<open>
  \<open>crates/core/src/transport/\<close>: transport types and capabilities (\<open>types.rs\<close>), the unified
  configuration with its connection key and validation (\<open>mod.rs\<close>), and the builders
  (\<open>builder.rs\<close>). Two facts about the platform are arguments: \<open>exists\<close>, the answer of
  \<open>Path::exists\<close>, and \<open>windows\<close>, the value of \<open>cfg!(windows)\<close>.
\<close>

section \<open>Transport types (\<open>types.rs\<close>)\<close>

datatype transport_type = Ssh | Local | Tcp | Wsl

fun show_transport_type :: "transport_type \<Rightarrow> string" where
  "show_transport_type Ssh = ''ssh''"
| "show_transport_type Local = ''local''"
| "show_transport_type Tcp = ''tcp''"
| "show_transport_type Wsl = ''wsl''"

definition parse_transport_type :: "string \<Rightarrow> transport_error + transport_type" where
  "parse_transport_type s =
     (let l = to_lowercase s in
      if l = ''ssh'' then Inr Ssh
      else if l = ''local'' then Inr Local
      else if l = ''tcp'' then Inr Tcp
      else if l = ''wsl'' then Inr Wsl
      else Inl (ConfigurationError (''Unknown transport type: '' @ s)))"

datatype connection_state = Disconnected | Connecting | Connected | Failed | Reconnecting

fun show_connection_state :: "connection_state \<Rightarrow> string" where
  "show_connection_state Disconnected = ''disconnected''"
| "show_connection_state Connecting = ''connecting''"
| "show_connection_state Connected = ''connected''"
| "show_connection_state Failed = ''failed''"
| "show_connection_state Reconnecting = ''reconnecting''"

record transport_capabilities =
  cap_auto_upload :: bool
  cap_port_forwarding :: bool
  cap_secure :: bool
  cap_platform_specific :: bool
  cap_reconnectable :: bool
  cap_multiplexing :: bool

fun for_transport_type :: "transport_type \<Rightarrow> transport_capabilities" where
  "for_transport_type Ssh =
     \<lparr>cap_auto_upload = True, cap_port_forwarding = True, cap_secure = True,
      cap_platform_specific = False, cap_reconnectable = True, cap_multiplexing = True\<rparr>"
| "for_transport_type Local =
     \<lparr>cap_auto_upload = False, cap_port_forwarding = False, cap_secure = False,
      cap_platform_specific = False, cap_reconnectable = False, cap_multiplexing = False\<rparr>"
| "for_transport_type Tcp =
     \<lparr>cap_auto_upload = False, cap_port_forwarding = False, cap_secure = False,
      cap_platform_specific = False, cap_reconnectable = True, cap_multiplexing = False\<rparr>"
| "for_transport_type Wsl =
     \<lparr>cap_auto_upload = False, cap_port_forwarding = False, cap_secure = False,
      cap_platform_specific = True, cap_reconnectable = False, cap_multiplexing = False\<rparr>"

section \<open>Configuration (\<open>mod.rs\<close>)\<close>

record ssh_config =
  ssh_host :: string
  ssh_port :: u16
  ssh_username :: string
  ssh_password :: "string option"
  ssh_key_path :: "path_buf option"
  ssh_auto_upload_binary :: bool
  ssh_timeout :: u64
  ssh_keepalive :: u64

record local_config =
  local_binary_path :: path_buf
  local_args :: "string list"
  local_working_dir :: "path_buf option"

record tls_config =
  tls_enabled :: bool
  tls_verify_cert :: bool
  tls_client_cert :: "path_buf option"
  tls_client_key :: "path_buf option"
  tls_ca_cert :: "path_buf option"

record tcp_config =
  tcp_host :: string
  tcp_port :: u16
  tcp_timeout :: u64
  tcp_tls :: "tls_config option"

record wsl_config =
  wsl_distribution :: "string option"
  wsl_user :: "string option"
  wsl_binary_path :: "path_buf option"
  wsl_working_dir :: "path_buf option"

record general_config =
  gen_max_retries :: u32
  gen_retry_delay :: u64
  gen_env_vars :: "(string, string) hashmap"
  gen_remote_binary_path :: "path_buf option"

record transport_config =
  tc_type :: transport_type
  tc_ssh :: "ssh_config option"
  tc_local :: "local_config option"
  tc_tcp :: "tcp_config option"
  tc_wsl :: "wsl_config option"
  tc_general :: general_config

definition default_ssh_port :: u16 where "default_ssh_port = 22"
definition default_timeout :: u64 where "default_timeout = 30"
definition default_keepalive :: u64 where "default_keepalive = 60"
definition default_max_retries :: u32 where "default_max_retries = 3"
definition default_retry_delay :: u64 where "default_retry_delay = 1000"
definition default_tls_verify :: bool where "default_tls_verify = True"

definition local_config_default :: local_config where
  "local_config_default =
     \<lparr>local_binary_path = ''yuha-remote'', local_args = [''--stdio''], local_working_dir = None\<rparr>"

definition general_config_default :: general_config where
  "general_config_default =
     \<lparr>gen_max_retries = default_max_retries, gen_retry_delay = default_retry_delay,
      gen_env_vars = [], gen_remote_binary_path = None\<rparr>"

definition tls_config_default :: tls_config where
  "tls_config_default =
     \<lparr>tls_enabled = False, tls_verify_cert = default_tls_verify, tls_client_cert = None,
      tls_client_key = None, tls_ca_cert = None\<rparr>"

definition transport_config_default :: transport_config where
  "transport_config_default =
     \<lparr>tc_type = Local, tc_ssh = None, tc_local = Some local_config_default, tc_tcp = None,
      tc_wsl = None, tc_general = general_config_default\<rparr>"

definition unwrap_or :: "'a option \<Rightarrow> 'a \<Rightarrow> 'a" where
  "unwrap_or x d = (case x of None \<Rightarrow> d | Some a \<Rightarrow> a)"

definition connection_key :: "transport_config \<Rightarrow> string" where
  "connection_key c =
     (case tc_type c of
        Ssh \<Rightarrow>
          (case tc_ssh c of
             Some s \<Rightarrow> ''ssh://'' @ ssh_username s @ ''@'' @ ssh_host s @ '':'' @ show_nat (unat (ssh_port s))
           | None \<Rightarrow> ''ssh://unknown'')
      | Local \<Rightarrow>
          (case tc_local c of
             Some l \<Rightarrow> ''local://'' @ local_binary_path l
           | None \<Rightarrow> ''local://unknown'')
      | Tcp \<Rightarrow>
          (case tc_tcp c of
             Some t \<Rightarrow>
               (if unwrap_or (map_option tls_enabled (tcp_tls t)) False then ''tcps'' else ''tcp'')
               @ ''://'' @ tcp_host t @ '':'' @ show_nat (unat (tcp_port t))
           | None \<Rightarrow> ''tcp://unknown'')
      | Wsl \<Rightarrow>
          (case tc_wsl c of
             Some w \<Rightarrow> ''wsl://'' @ unwrap_or (wsl_user w) ''default'' @ ''@''
                        @ unwrap_or (wsl_distribution w) ''default''
           | None \<Rightarrow> ''wsl://default''))"

definition config_error :: "string \<Rightarrow> yuha_error" where
  "config_error reason = TransportE (ConfigurationError reason)"

definition validate :: "bool \<Rightarrow> (path_buf \<Rightarrow> bool) \<Rightarrow> transport_config \<Rightarrow> yuha_error + unit" where
  "validate windows exists c =
     (case tc_type c of
        Ssh \<Rightarrow>
          (case tc_ssh c of
             None \<Rightarrow> Inl (config_error ''SSH transport requires SSH configuration'')
           | Some s \<Rightarrow>
               if ssh_host s = [] then Inl (config_error ''SSH host cannot be empty'')
               else if ssh_username s = [] then Inl (config_error ''SSH username cannot be empty'')
               else if ssh_password s = None \<and> ssh_key_path s = None
               then Inl (config_error ''SSH transport requires either password or key authentication'')
               else Inr ())
      | Local \<Rightarrow>
          (case tc_local c of
             None \<Rightarrow> Inl (config_error ''Local transport requires local configuration'')
           | Some l \<Rightarrow>
               if \<not> exists (local_binary_path l)
               then Inl (config_error (''Local binary not found: '' @ local_binary_path l))
               else Inr ())
      | Tcp \<Rightarrow>
          (case tc_tcp c of
             None \<Rightarrow> Inl (config_error ''TCP transport requires TCP configuration'')
           | Some t \<Rightarrow>
               if tcp_host t = [] then Inl (config_error ''TCP host cannot be empty'')
               else if tcp_port t = 0 then Inl (config_error ''TCP port cannot be 0'')
               else Inr ())
      | Wsl \<Rightarrow>
          if \<not> windows
          then Inl (TransportE (NotAvailable ''WSL'' ''WSL is only available on Windows''))
          else Inr ())"

definition is_available :: "bool \<Rightarrow> transport_config \<Rightarrow> bool" where
  "is_available windows c =
     (case tc_type c of Ssh \<Rightarrow> True | Local \<Rightarrow> True | Tcp \<Rightarrow> True | Wsl \<Rightarrow> windows)"

section \<open>Builders (\<open>builder.rs\<close>)\<close>

record transport_builder =
  tb_config :: transport_config

definition builder_new :: transport_builder where
  "builder_new = \<lparr>tb_config = transport_config_default\<rparr>"

definition with_general :: "transport_builder \<Rightarrow> general_config \<Rightarrow> transport_builder" where
  "with_general b g = \<lparr>tb_config = (tb_config b)\<lparr>tc_general := g\<rparr>\<rparr>"

definition general_env_var :: "general_config \<Rightarrow> string \<Rightarrow> string \<Rightarrow> general_config" where
  "general_env_var g k v = g\<lparr>gen_env_vars := hm_insert k v (gen_env_vars g)\<rparr>"

definition with_env_var :: "transport_builder \<Rightarrow> string \<Rightarrow> string \<Rightarrow> transport_builder" where
  "with_env_var b k v =
     \<lparr>tb_config = (tb_config b)\<lparr>tc_general := general_env_var (tc_general (tb_config b)) k v\<rparr>\<rparr>"

definition with_retries :: "transport_builder \<Rightarrow> u32 \<Rightarrow> u64 \<Rightarrow> transport_builder" where
  "with_retries b n d =
     \<lparr>tb_config = (tb_config b)\<lparr>tc_general :=
        (tc_general (tb_config b))\<lparr>gen_max_retries := n, gen_retry_delay := d\<rparr>\<rparr>\<rparr>"

text \<open>The end of every \<open>build\<close>: \<open>config.validate()?; Ok(config)\<close>.\<close>

definition validated ::
    "bool \<Rightarrow> (path_buf \<Rightarrow> bool) \<Rightarrow> transport_config \<Rightarrow> yuha_error + transport_config" where
  "validated windows exists c = try_bind (validate windows exists c) (\<lambda>_. Inr c)"

definition builder_build ::
    "bool \<Rightarrow> (path_buf \<Rightarrow> bool) \<Rightarrow> transport_builder \<Rightarrow> yuha_error + transport_config" where
  "builder_build windows exists b = validated windows exists (tb_config b)"

record ssh_builder =
  sb_config :: ssh_config
  sb_general :: general_config

definition ssh_builder_new :: ssh_builder where
  "ssh_builder_new =
     \<lparr>sb_config = \<lparr>ssh_host = [], ssh_port = 22, ssh_username = [], ssh_password = None,
        ssh_key_path = None, ssh_auto_upload_binary = False, ssh_timeout = 30, ssh_keepalive = 60\<rparr>,
      sb_general = general_config_default\<rparr>"

definition sb_host :: "string \<Rightarrow> ssh_builder \<Rightarrow> ssh_builder" where
  "sb_host h b = b\<lparr>sb_config := (sb_config b)\<lparr>ssh_host := h\<rparr>\<rparr>"

definition sb_port :: "u16 \<Rightarrow> ssh_builder \<Rightarrow> ssh_builder" where
  "sb_port p b = b\<lparr>sb_config := (sb_config b)\<lparr>ssh_port := p\<rparr>\<rparr>"

definition sb_username :: "string \<Rightarrow> ssh_builder \<Rightarrow> ssh_builder" where
  "sb_username u b = b\<lparr>sb_config := (sb_config b)\<lparr>ssh_username := u\<rparr>\<rparr>"

definition sb_password :: "string \<Rightarrow> ssh_builder \<Rightarrow> ssh_builder" where
  "sb_password p b = b\<lparr>sb_config := (sb_config b)\<lparr>ssh_password := Some p\<rparr>\<rparr>"

definition sb_key_file :: "path_buf \<Rightarrow> ssh_builder \<Rightarrow> ssh_builder" where
  "sb_key_file p b = b\<lparr>sb_config := (sb_config b)\<lparr>ssh_key_path := Some p\<rparr>\<rparr>"

definition sb_auto_upload_binary :: "ssh_builder \<Rightarrow> ssh_builder" where
  "sb_auto_upload_binary b = b\<lparr>sb_config := (sb_config b)\<lparr>ssh_auto_upload_binary := True\<rparr>\<rparr>"

definition sb_timeout :: "u64 \<Rightarrow> ssh_builder \<Rightarrow> ssh_builder" where
  "sb_timeout s b = b\<lparr>sb_config := (sb_config b)\<lparr>ssh_timeout := s\<rparr>\<rparr>"

definition sb_keepalive :: "u64 \<Rightarrow> ssh_builder \<Rightarrow> ssh_builder" where
  "sb_keepalive s b = b\<lparr>sb_config := (sb_config b)\<lparr>ssh_keepalive := s\<rparr>\<rparr>"

definition sb_with_env_var :: "string \<Rightarrow> string \<Rightarrow> ssh_builder \<Rightarrow> ssh_builder" where
  "sb_with_env_var k v b = b\<lparr>sb_general := general_env_var (sb_general b) k v\<rparr>"

definition ssh_build ::
    "bool \<Rightarrow> (path_buf \<Rightarrow> bool) \<Rightarrow> ssh_builder \<Rightarrow> yuha_error + transport_config" where
  "ssh_build windows exists b =
     validated windows exists
       \<lparr>tc_type = Ssh, tc_ssh = Some (sb_config b), tc_local = None, tc_tcp = None, tc_wsl = None,
        tc_general = sb_general b\<rparr>"

record local_builder =
  lb_config :: local_config
  lb_general :: general_config

definition local_builder_new :: local_builder where
  "local_builder_new = \<lparr>lb_config = local_config_default, lb_general = general_config_default\<rparr>"

definition lb_binary_path :: "path_buf \<Rightarrow> local_builder \<Rightarrow> local_builder" where
  "lb_binary_path p b = b\<lparr>lb_config := (lb_config b)\<lparr>local_binary_path := p\<rparr>\<rparr>"

definition lb_arg :: "string \<Rightarrow> local_builder \<Rightarrow> local_builder" where
  "lb_arg a b = b\<lparr>lb_config := (lb_config b)\<lparr>local_args := local_args (lb_config b) @ [a]\<rparr>\<rparr>"

definition lb_args :: "string list \<Rightarrow> local_builder \<Rightarrow> local_builder" where
  "lb_args as b = b\<lparr>lb_config := (lb_config b)\<lparr>local_args := as\<rparr>\<rparr>"

definition lb_working_dir :: "path_buf \<Rightarrow> local_builder \<Rightarrow> local_builder" where
  "lb_working_dir p b = b\<lparr>lb_config := (lb_config b)\<lparr>local_working_dir := Some p\<rparr>\<rparr>"

definition lb_with_env_var :: "string \<Rightarrow> string \<Rightarrow> local_builder \<Rightarrow> local_builder" where
  "lb_with_env_var k v b = b\<lparr>lb_general := general_env_var (lb_general b) k v\<rparr>"

definition local_build ::
    "bool \<Rightarrow> (path_buf \<Rightarrow> bool) \<Rightarrow> local_builder \<Rightarrow> yuha_error + transport_config" where
  "local_build windows exists b =
     validated windows exists
       \<lparr>tc_type = Local, tc_ssh = None, tc_local = Some (lb_config b), tc_tcp = None, tc_wsl = None,
        tc_general = lb_general b\<rparr>"

record tcp_builder =
  tcpb_config :: tcp_config
  tcpb_general :: general_config

definition tcp_builder_new :: tcp_builder where
  "tcp_builder_new =
     \<lparr>tcpb_config = \<lparr>tcp_host = [], tcp_port = 0, tcp_timeout = 30, tcp_tls = None\<rparr>,
      tcpb_general = general_config_default\<rparr>"

definition tcpb_host :: "string \<Rightarrow> tcp_builder \<Rightarrow> tcp_builder" where
  "tcpb_host h b = b\<lparr>tcpb_config := (tcpb_config b)\<lparr>tcp_host := h\<rparr>\<rparr>"

definition tcpb_port :: "u16 \<Rightarrow> tcp_builder \<Rightarrow> tcp_builder" where
  "tcpb_port p b = b\<lparr>tcpb_config := (tcpb_config b)\<lparr>tcp_port := p\<rparr>\<rparr>"

definition tcpb_timeout :: "u64 \<Rightarrow> tcp_builder \<Rightarrow> tcp_builder" where
  "tcpb_timeout s b = b\<lparr>tcpb_config := (tcpb_config b)\<lparr>tcp_timeout := s\<rparr>\<rparr>"

definition tcpb_with_env_var :: "string \<Rightarrow> string \<Rightarrow> tcp_builder \<Rightarrow> tcp_builder" where
  "tcpb_with_env_var k v b = b\<lparr>tcpb_general := general_env_var (tcpb_general b) k v\<rparr>"

definition tcp_build ::
    "bool \<Rightarrow> (path_buf \<Rightarrow> bool) \<Rightarrow> tcp_builder \<Rightarrow> yuha_error + transport_config" where
  "tcp_build windows exists b =
     validated windows exists
       \<lparr>tc_type = Tcp, tc_ssh = None, tc_local = None, tc_tcp = Some (tcpb_config b), tc_wsl = None,
        tc_general = tcpb_general b\<rparr>"

record tls_builder =
  tlsb_tcp_builder :: tcp_builder
  tlsb_config :: tls_config

definition tcpb_with_tls :: "tcp_builder \<Rightarrow> tls_builder" where
  "tcpb_with_tls b =
     \<lparr>tlsb_tcp_builder = b,
      tlsb_config = \<lparr>tls_enabled = True, tls_verify_cert = True, tls_client_cert = None,
        tls_client_key = None, tls_ca_cert = None\<rparr>\<rparr>"

definition tlsb_insecure :: "tls_builder \<Rightarrow> tls_builder" where
  "tlsb_insecure b = b\<lparr>tlsb_config := (tlsb_config b)\<lparr>tls_verify_cert := False\<rparr>\<rparr>"

definition tlsb_client_cert :: "path_buf \<Rightarrow> tls_builder \<Rightarrow> tls_builder" where
  "tlsb_client_cert p b = b\<lparr>tlsb_config := (tlsb_config b)\<lparr>tls_client_cert := Some p\<rparr>\<rparr>"

definition tlsb_client_key :: "path_buf \<Rightarrow> tls_builder \<Rightarrow> tls_builder" where
  "tlsb_client_key p b = b\<lparr>tlsb_config := (tlsb_config b)\<lparr>tls_client_key := Some p\<rparr>\<rparr>"

definition tlsb_ca_cert :: "path_buf \<Rightarrow> tls_builder \<Rightarrow> tls_builder" where
  "tlsb_ca_cert p b = b\<lparr>tlsb_config := (tlsb_config b)\<lparr>tls_ca_cert := Some p\<rparr>\<rparr>"

definition tlsb_done :: "tls_builder \<Rightarrow> tcp_builder" where
  "tlsb_done b =
     (tlsb_tcp_builder b)\<lparr>tcpb_config := (tcpb_config (tlsb_tcp_builder b))\<lparr>tcp_tls := Some (tlsb_config b)\<rparr>\<rparr>"

record wsl_builder =
  wb_config :: wsl_config
  wb_general :: general_config

definition wsl_builder_new :: wsl_builder where
  "wsl_builder_new =
     \<lparr>wb_config = \<lparr>wsl_distribution = None, wsl_user = None, wsl_binary_path = None,
        wsl_working_dir = None\<rparr>,
      wb_general = general_config_default\<rparr>"

definition wb_distribution :: "string \<Rightarrow> wsl_builder \<Rightarrow> wsl_builder" where
  "wb_distribution d b = b\<lparr>wb_config := (wb_config b)\<lparr>wsl_distribution := Some d\<rparr>\<rparr>"

definition wb_user :: "string \<Rightarrow> wsl_builder \<Rightarrow> wsl_builder" where
  "wb_user u b = b\<lparr>wb_config := (wb_config b)\<lparr>wsl_user := Some u\<rparr>\<rparr>"

definition wb_binary_path :: "path_buf \<Rightarrow> wsl_builder \<Rightarrow> wsl_builder" where
  "wb_binary_path p b = b\<lparr>wb_config := (wb_config b)\<lparr>wsl_binary_path := Some p\<rparr>\<rparr>"

definition wb_working_dir :: "path_buf \<Rightarrow> wsl_builder \<Rightarrow> wsl_builder" where
  "wb_working_dir p b = b\<lparr>wb_config := (wb_config b)\<lparr>wsl_working_dir := Some p\<rparr>\<rparr>"

definition wb_with_env_var :: "string \<Rightarrow> string \<Rightarrow> wsl_builder \<Rightarrow> wsl_builder" where
  "wb_with_env_var k v b = b\<lparr>wb_general := general_env_var (wb_general b) k v\<rparr>"

definition wsl_build ::
    "bool \<Rightarrow> (path_buf \<Rightarrow> bool) \<Rightarrow> wsl_builder \<Rightarrow> yuha_error + transport_config" where
  "wsl_build windows exists b =
     validated windows exists
       \<lparr>tc_type = Wsl, tc_ssh = None, tc_local = None, tc_tcp = None, tc_wsl = Some (wb_config b),
        tc_general = wb_general b\<rparr>"

section \<open>Lemmas\<close>

lemma validated_Inr: "validated w ex c = Inr d \<longleftrightarrow> validate w ex c = Inr () \<and> d = c"
  by (auto simp: validated_def try_bind_Inr)

lemma validate_type_section:
  "validate w ex c = Inr () \<Longrightarrow>
   (tc_type c = Ssh \<longrightarrow> tc_ssh c \<noteq> None) \<and> (tc_type c = Local \<longrightarrow> tc_local c \<noteq> None) \<and>
   (tc_type c = Tcp \<longrightarrow> tc_tcp c \<noteq> None)"
  by (auto simp: validate_def split: option.splits)

text \<open>The head of a connection key tells the transport type: the schemes start with distinct letters.\<close>

lemma connection_key_head:
  "hd (connection_key c) = (case tc_type c of
     Ssh \<Rightarrow> CHR ''s'' | Local \<Rightarrow> CHR ''l'' | Tcp \<Rightarrow> CHR ''t'' | Wsl \<Rightarrow> CHR ''w'')"
  by (auto simp: connection_key_def split: transport_type.splits option.splits)

text \<open>The host and the port at the end of a key can be read off it.\<close>

lemma host_port_inj:
  fixes p q :: u16
  assumes "h @ CHR '':'' # show_nat (unat p) = h' @ CHR '':'' # show_nat (unat q)"
  shows "h = h' \<and> p = q"
proof -
  have "h = h' \<and> show_nat (unat p) = show_nat (unat q)"
    by (rule split_at_last_sep [OF colon_notin_show_nat colon_notin_show_nat assms])
  then have "h = h'" and "unat p = unat q"
    by (auto dest: show_nat_inj)
  then show ?thesis
    by (simp add: word_unat_eq_iff)
qed

definition uses_tls :: "tcp_config \<Rightarrow> bool" where
  "uses_tls t = unwrap_or (map_option tls_enabled (tcp_tls t)) False"

section \<open>Properties\<close>

text \<open>C38. What equal connection keys have in common: the transport type; for TCP the host, the port and whether
  TLS is used; for SSH the port and the pair \<open>user@host\<close>, and hence the user and the host if no \<open>@\<close> occurs in
  either user name. Pooled sessions are shared between different SSH endpoints only if a user name contains
  an \<open>@\<close>.\<close>

theorem connection_key_determines_endpoint:
  assumes "connection_key c = connection_key d"
  shows "tc_type c = tc_type d \<and>
    (\<forall>s t. tc_type c = Tcp \<and> tc_tcp c = Some s \<and> tc_tcp d = Some t \<longrightarrow>
       tcp_host s = tcp_host t \<and> tcp_port s = tcp_port t \<and> uses_tls s = uses_tls t) \<and>
    (\<forall>s t. tc_type c = Ssh \<and> tc_ssh c = Some s \<and> tc_ssh d = Some t \<longrightarrow>
       ssh_port s = ssh_port t \<and>
       ssh_username s @ CHR ''@'' # ssh_host s = ssh_username t @ CHR ''@'' # ssh_host t \<and>
       (CHR ''@'' \<notin> set (ssh_username s) \<and> CHR ''@'' \<notin> set (ssh_username t) \<longrightarrow>
          ssh_username s = ssh_username t \<and> ssh_host s = ssh_host t))"
proof (intro conjI allI impI)
  show ty: "tc_type c = tc_type d"
    using arg_cong [OF assms, of hd] by (simp add: connection_key_head split: transport_type.splits)
  {
    fix s t
    assume h: "tc_type c = Tcp \<and> tc_tcp c = Some s \<and> tc_tcp d = Some t"
    let ?rest = "\<lambda>t. tcp_host t @ CHR '':'' # show_nat (unat (tcp_port t))"
    have "uses_tls s = uses_tls t \<and> ?rest s = ?rest t"
      using assms h ty by (auto simp: connection_key_def uses_tls_def split: if_splits)
    then show "tcp_host s = tcp_host t" and "tcp_port s = tcp_port t" and "uses_tls s = uses_tls t"
      using host_port_inj by blast+
  }
  fix s t
  assume h: "tc_type c = Ssh \<and> tc_ssh c = Some s \<and> tc_ssh d = Some t"
  let ?login = "\<lambda>s. ssh_username s @ CHR ''@'' # ssh_host s"
  have "?login s @ CHR '':'' # show_nat (unat (ssh_port s)) = ?login t @ CHR '':'' # show_nat (unat (ssh_port t))"
    using assms h ty by (simp add: connection_key_def)
  from host_port_inj [OF this] show "ssh_port s = ssh_port t" and login: "?login s = ?login t"
    by blast+
  assume "CHR ''@'' \<notin> set (ssh_username s) \<and> CHR ''@'' \<notin> set (ssh_username t)"
  then show "ssh_username s = ssh_username t" and "ssh_host s = ssh_host t"
    using split_at_sep [OF _ _ login] by blast+
qed

definition sample_ssh :: "string \<Rightarrow> string \<Rightarrow> transport_config" where
  "sample_ssh user host =
     \<lparr>tc_type = Ssh,
      tc_ssh = Some (sb_config (sb_username user (sb_host host ssh_builder_new))),
      tc_local = None, tc_tcp = None, tc_wsl = None, tc_general = general_config_default\<rparr>"

theorem connection_key_determines_endpoint_witness:
  "\<exists>c d s t. c \<noteq> d \<and> connection_key c = connection_key d \<and> tc_ssh c = Some s \<and> tc_ssh d = Some t \<and> s \<noteq> t \<and>
     ssh_username s = ssh_username t \<and> ssh_host s = ssh_host t \<and> ssh_port s = ssh_port t"
proof -
  let ?s = "sb_config (sb_username ''bob'' (sb_host ''h'' ssh_builder_new))"
  let ?t = "?s\<lparr>ssh_password := Some ''pw''\<rparr>"
  let ?c = "sample_ssh ''bob'' ''h''"
  let ?d = "?c\<lparr>tc_ssh := Some ?t\<rparr>"
  have key: "connection_key ?c = connection_key ?d"
    by (simp add: sample_ssh_def connection_key_def)
  have "tc_type ?c = Ssh \<and> tc_ssh ?c = Some ?s \<and> tc_ssh ?d = Some ?t"
    by (simp add: sample_ssh_def)
  moreover have "CHR ''@'' \<notin> set (ssh_username ?s) \<and> CHR ''@'' \<notin> set (ssh_username ?t)"
    by (simp add: sb_username_def)
  ultimately have "ssh_username ?s = ssh_username ?t \<and> ssh_host ?s = ssh_host ?t \<and> ssh_port ?s = ssh_port ?t"
    using connection_key_determines_endpoint [OF key] by blast
  moreover have "?s \<noteq> ?t" and "?c \<noteq> ?d"
    by (simp_all add: sample_ssh_def sb_username_def sb_host_def ssh_builder_new_def)
  ultimately show ?thesis
    using key \<open>tc_type ?c = Ssh \<and> tc_ssh ?c = Some ?s \<and> tc_ssh ?d = Some ?t\<close> by blast
qed

text \<open>With an \<open>@\<close> in a user name two endpoints share a key.\<close>

lemma at_sign_key_collision:
  "connection_key (sample_ssh ''a@b'' ''c'') = connection_key (sample_ssh ''a'' ''b@c'')"
  by (simp add: sample_ssh_def connection_key_def sb_username_def sb_host_def ssh_builder_new_def)

text \<open>A builder hands out a configuration exactly when it is complete: SSH needs a host, a user
  and a password or key; TCP a host and a non-zero port; Local an existing binary; WSL the Windows
  platform. The configuration it returns carries the builder's own section.\<close>

theorem build_ok_iff:
  "((\<exists>c. ssh_build w ex b = Inr c \<and> tc_type c = Ssh \<and> tc_ssh c = Some (sb_config b)) \<longleftrightarrow>
      ssh_host (sb_config b) \<noteq> [] \<and> ssh_username (sb_config b) \<noteq> [] \<and>
      (ssh_password (sb_config b) \<noteq> None \<or> ssh_key_path (sb_config b) \<noteq> None)) \<and>
   ((\<exists>c. tcp_build w ex tb = Inr c \<and> tc_type c = Tcp \<and> tc_tcp c = Some (tcpb_config tb)) \<longleftrightarrow>
      tcp_host (tcpb_config tb) \<noteq> [] \<and> tcp_port (tcpb_config tb) \<noteq> 0) \<and>
   ((\<exists>c. local_build w ex lb = Inr c \<and> tc_type c = Local \<and> tc_local c = Some (lb_config lb)) \<longleftrightarrow>
      ex (local_binary_path (lb_config lb))) \<and>
   ((\<exists>c. wsl_build w ex wb = Inr c \<and> tc_type c = Wsl \<and> tc_wsl c = Some (wb_config wb)) \<longleftrightarrow> w)"
  by (auto simp: ssh_build_def tcp_build_def local_build_def wsl_build_def validated_Inr validate_def)

theorem build_ok_iff_witness:
  "\<exists>c. ssh_build False (\<lambda>_. False)
      (sb_password ''pw'' (sb_username ''bob'' (sb_host ''h'' ssh_builder_new))) = Inr c \<and> tc_type c = Ssh"
  using build_ok_iff [of False "\<lambda>_. False"
      "sb_password ''pw'' (sb_username ''bob'' (sb_host ''h'' ssh_builder_new))" tcp_builder_new
      local_builder_new wsl_builder_new]
  by (auto simp: sb_password_def sb_username_def sb_host_def)

text \<open>Parsing inverts rendering, and accepts exactly the four names up to case.\<close>

theorem transport_type_roundtrip:
  "parse_transport_type (show_transport_type t) = Inr t \<and>
   (parse_transport_type s = Inr t \<longleftrightarrow> to_lowercase s = show_transport_type t)"
proof -
  have iff: "parse_transport_type s = Inr t \<longleftrightarrow> to_lowercase s = show_transport_type t" for s
    by (cases t) (auto simp: parse_transport_type_def Let_def)
  have "to_lowercase (show_transport_type t) = show_transport_type t"
    by (cases t) (simp_all add: to_lowercase_def to_lower_char_def)
  then show ?thesis
    by (simp add: iff)
qed

end
