(* ===== verification/Session.thy ===== *)
theory Session
  imports Transport
begin

text \<open>
  \<open>crates/core/src/session/mod.rs\<close>: identifiers, status, priority and metadata of a session.

  A \<open>SessionId\<close> is the 128-bit value of its UUID. The \<open>uuid\<close> crate is an argument where it is used:
  \<open>show_id\<close> renders an id, \<open>parse_uuid\<close> reads one, and a freshly generated id is an argument of the
  operation that generates it. Reading the clock is the argument \<open>now\<close>; one operation uses one
  reading.
\<close>

section \<open>Identifiers\<close>

type_synonym session_id = "128 word"

definition parse_session_id ::
    "(string \<Rightarrow> string + session_id) \<Rightarrow> string \<Rightarrow> yuha_error + session_id" where
  "parse_session_id parse_uuid s =
     map_err (\<lambda>e. err_session (''Invalid session ID: '' @ e)) (parse_uuid s)"

section \<open>Status and priority\<close>

datatype session_status =
  Creating | Connecting | Active | Idle | Reconnecting | Failed | Closing | Closed

fun show_status :: "session_status \<Rightarrow> string" where
  "show_status Creating = ''creating''"
| "show_status Connecting = ''connecting''"
| "show_status Active = ''active''"
| "show_status Idle = ''idle''"
| "show_status Reconnecting = ''reconnecting''"
| "show_status Failed = ''failed''"
| "show_status Closing = ''closing''"
| "show_status Closed = ''closed''"

text \<open>The derived \<open>Debug\<close> rendering, used in the daemon's answers.\<close>

fun debug_status :: "session_status \<Rightarrow> string" where
  "debug_status Creating = ''Creating''"
| "debug_status Connecting = ''Connecting''"
| "debug_status Active = ''Active''"
| "debug_status Idle = ''Idle''"
| "debug_status Reconnecting = ''Reconnecting''"
| "debug_status Failed = ''Failed''"
| "debug_status Closing = ''Closing''"
| "debug_status Closed = ''Closed''"

datatype session_priority = Low | Normal | High | Critical

definition default_priority :: session_priority where
  "default_priority = Normal"

instantiation session_priority :: linorder
begin

fun priority_rank :: "session_priority \<Rightarrow> nat" where
  "priority_rank Low = 0"
| "priority_rank Normal = 1"
| "priority_rank High = 2"
| "priority_rank Critical = 3"

definition less_eq_session_priority :: "session_priority \<Rightarrow> session_priority \<Rightarrow> bool" where
  "a \<le> b \<longleftrightarrow> priority_rank a \<le> priority_rank b"

definition less_session_priority :: "session_priority \<Rightarrow> session_priority \<Rightarrow> bool" where
  "a < b \<longleftrightarrow> priority_rank a < priority_rank b"

instance
proof
  fix x y :: session_priority
  show "x \<le> y \<Longrightarrow> y \<le> x \<Longrightarrow> x = y"
    by (cases x; cases y) (simp_all add: less_eq_session_priority_def)
qed (auto simp: less_eq_session_priority_def less_session_priority_def)

end

section \<open>Metadata\<close>

record session_metadata =
  sm_id :: session_id
  sm_name :: string
  sm_transport_config :: transport_config
  sm_status :: session_status
  sm_priority :: session_priority
  sm_created_at :: time
  sm_last_used :: time
  sm_use_count :: u64
  sm_tags :: "string list"
  sm_description :: "string option"

definition metadata_new ::
    "time \<Rightarrow> session_id \<Rightarrow> string \<Rightarrow> transport_config \<Rightarrow> string list \<Rightarrow> string option
     \<Rightarrow> session_metadata" where
  "metadata_new now fresh name tc tags description =
     \<lparr>sm_id = fresh, sm_name = name, sm_transport_config = tc, sm_status = Creating,
      sm_priority = default_priority, sm_created_at = now, sm_last_used = now, sm_use_count = 0,
      sm_tags = tags, sm_description = description\<rparr>"

definition mark_used :: "time \<Rightarrow> session_metadata \<Rightarrow> session_metadata" where
  "mark_used now m = m\<lparr>sm_last_used := now, sm_use_count := sm_use_count m + 1\<rparr>"

definition set_status :: "time \<Rightarrow> session_status \<Rightarrow> session_metadata \<Rightarrow> session_metadata" where
  "set_status now status m =
     (let m' = m\<lparr>sm_status := status\<rparr>
      in if status = Active \<or> status = Idle then m'\<lparr>sm_last_used := now\<rparr> else m')"

definition set_priority :: "session_priority \<Rightarrow> session_metadata \<Rightarrow> session_metadata" where
  "set_priority p m = m\<lparr>sm_priority := p\<rparr>"

definition age :: "time \<Rightarrow> session_metadata \<Rightarrow> duration" where
  "age now m = unwrap_or (duration_since now (sm_created_at m)) 0"

definition idle_time :: "time \<Rightarrow> session_metadata \<Rightarrow> duration" where
  "idle_time now m = unwrap_or (duration_since now (sm_last_used m)) 0"

definition has_tags :: "string list \<Rightarrow> session_metadata \<Rightarrow> bool" where
  "has_tags tags m = list_all (\<lambda>t. t \<in> set (sm_tags m)) tags"

definition has_any_tag :: "string list \<Rightarrow> session_metadata \<Rightarrow> bool" where
  "has_any_tag tags m = list_ex (\<lambda>t. t \<in> set (sm_tags m)) tags"

definition session_key :: "session_metadata \<Rightarrow> string" where
  "session_key m = connection_key (sm_transport_config m)"

definition is_usable :: "session_metadata \<Rightarrow> bool" where
  "is_usable m \<longleftrightarrow> sm_status m = Active \<or> sm_status m = Idle"

definition is_terminated :: "session_metadata \<Rightarrow> bool" where
  "is_terminated m \<longleftrightarrow> sm_status m = Failed \<or> sm_status m = Closed"

definition is_transitional :: "session_metadata \<Rightarrow> bool" where
  "is_transitional m \<longleftrightarrow>
     sm_status m = Creating \<or> sm_status m = Connecting \<or> sm_status m = Reconnecting \<or>
     sm_status m = Closing"

section \<open>Lemmas\<close>

lemma age_eq [simp]: "age now m = now - sm_created_at m"
  by (simp add: age_def unwrap_or_def duration_since_def)

lemma idle_time_eq [simp]: "idle_time now m = now - sm_last_used m"
  by (simp add: idle_time_def unwrap_or_def duration_since_def)

lemma set_status_simps [simp]:
  "sm_id (set_status now s m) = sm_id m"
  "sm_name (set_status now s m) = sm_name m"
  "sm_status (set_status now s m) = s"
  "sm_transport_config (set_status now s m) = sm_transport_config m"
  "sm_created_at (set_status now s m) = sm_created_at m"
  "sm_use_count (set_status now s m) = sm_use_count m"
  "session_key (set_status now s m) = session_key m"
  by (simp_all add: set_status_def Let_def session_key_def)

lemma mark_used_simps [simp]:
  "sm_id (mark_used now m) = sm_id m"
  "sm_name (mark_used now m) = sm_name m"
  "sm_status (mark_used now m) = sm_status m"
  "sm_transport_config (mark_used now m) = sm_transport_config m"
  "sm_created_at (mark_used now m) = sm_created_at m"
  "session_key (mark_used now m) = session_key m"
  by (simp_all add: mark_used_def session_key_def)

lemma metadata_new_simps [simp]:
  "sm_id (metadata_new now i n tc tags d) = i"
  "sm_name (metadata_new now i n tc tags d) = n"
  "sm_status (metadata_new now i n tc tags d) = Creating"
  "sm_use_count (metadata_new now i n tc tags d) = 0"
  "session_key (metadata_new now i n tc tags d) = connection_key tc"
  by (simp_all add: metadata_new_def session_key_def)

text \<open>Every status is in exactly one of the three classes.\<close>

lemma status_classes:
  "is_usable m \<or> is_terminated m \<or> is_transitional m"
  "\<not> (is_usable m \<and> is_terminated m)" "\<not> (is_usable m \<and> is_transitional m)"
  "\<not> (is_terminated m \<and> is_transitional m)"
  by (cases "sm_status m"; simp add: is_usable_def is_terminated_def is_transitional_def)+

end
