(* ===== verification/Id_Index.thy ===== *)
theory Id_Index
  imports Hash_Map
begin

text \<open>
  The secondary indexes of \<open>session/registry.rs\<close> (by name, by connection key) and of
  \<open>session/pool.rs\<close> (by connection key): a \<open>HashMap<String, Vec<SessionId>>\<close> whose vectors are
  appended to with \<open>entry(key).or_default().push(id)\<close> and pruned with \<open>retain\<close>, the entry being
  dropped when its vector becomes empty.
\<close>

section \<open>Operations\<close>

definition index_push :: "('k, 'i list) hashmap \<Rightarrow> 'k \<Rightarrow> 'i \<Rightarrow> ('k, 'i list) hashmap" where
  "index_push m k i = hm_upsert [] (\<lambda>ids. ids @ [i]) k m"

definition index_drop :: "('k, 'i list) hashmap \<Rightarrow> 'k \<Rightarrow> 'i \<Rightarrow> ('k, 'i list) hashmap" where
  "index_drop m k i =
     (case hm_get m k of
        None \<Rightarrow> m
      | Some ids \<Rightarrow>
          let ids' = filter (\<lambda>x. x \<noteq> i) ids
          in if ids' = [] then hm_remove k m else hm_insert k ids' m)"

text \<open>What a reader of the index sees for a key: \<open>get(key).cloned().unwrap_or_default()\<close>.\<close>

definition index_bucket :: "('k, 'i list) hashmap \<Rightarrow> 'k \<Rightarrow> 'i list" where
  "index_bucket m k = (case hm_get m k of None \<Rightarrow> [] | Some ids \<Rightarrow> ids)"

section \<open>The contract of an index\<close>

text \<open>
  The index files exactly the ids of \<open>f\<close> (a finite map from an id to the key it belongs under), each
  once.
\<close>

definition indexes :: "('m \<Rightarrow> 'k \<Rightarrow> 'i list) \<Rightarrow> 'm \<Rightarrow> ('i \<Rightarrow> 'k option) \<Rightarrow> bool" where
  "indexes bucket m f \<longleftrightarrow>
     (\<forall>k. distinct (bucket m k)) \<and> (\<forall>k i. i \<in> set (bucket m k) \<longleftrightarrow> f i = Some k)"

lemma indexesD:
  assumes "indexes bucket m f"
  shows "distinct (bucket m k)" and "i \<in> set (bucket m k) \<longleftrightarrow> f i = Some k"
  using assms by (simp_all add: indexes_def)

locale id_index =
  fixes bucket :: "'m \<Rightarrow> 'k \<Rightarrow> 'i list"
    and push :: "'m \<Rightarrow> 'k \<Rightarrow> 'i \<Rightarrow> 'm"
    and drop :: "'m \<Rightarrow> 'k \<Rightarrow> 'i \<Rightarrow> 'm"
  assumes bucket_push: "bucket (push m k i) j = (if j = k then bucket m k @ [i] else bucket m j)"
    and bucket_drop:
      "bucket (drop m k i) j = (if j = k then filter (\<lambda>x. x \<noteq> i) (bucket m k) else bucket m j)"
begin

lemma indexes_push:
  "indexes bucket m f \<Longrightarrow> f i = None \<Longrightarrow> indexes bucket (push m k i) (f(i := Some k))"
  by (auto simp: indexes_def bucket_push)

lemma indexes_drop:
  "indexes bucket m f \<Longrightarrow> f i = Some k \<Longrightarrow> indexes bucket (drop m k i) (f(i := None))"
  by (auto simp: indexes_def bucket_drop)

lemma indexes_move:
  assumes "indexes bucket m f" and "f i = Some k"
  shows "indexes bucket (push (drop m k i) k' i) (f(i := Some k'))"
proof -
  have "indexes bucket (drop m k i) (f(i := None))"
    using assms by (rule indexes_drop)
  from indexes_push [OF this, of i k'] show ?thesis by simp
qed

lemma drop_push_fresh: "i \<notin> set (bucket m k) \<Longrightarrow> bucket (drop (push m k i) k i) j = bucket m j"
  by (auto simp: bucket_push bucket_drop filter_id_conv)

lemma length_bucket_push: "length (bucket (push m k i) k) = Suc (length (bucket m k))"
  by (simp add: bucket_push)

lemma length_bucket_drop_le: "length (bucket (drop m k i) j) \<le> length (bucket m j)"
  by (simp add: bucket_drop)

end

lemma index_bucket_push:
  "index_bucket (index_push m k i) j = (if j = k then index_bucket m k @ [i] else index_bucket m j)"
  by (auto simp: index_bucket_def index_push_def split: option.splits)

lemma index_bucket_drop:
  "index_bucket (index_drop m k i) j =
   (if j = k then filter (\<lambda>x. x \<noteq> i) (index_bucket m k) else index_bucket m j)"
  by (auto simp: index_bucket_def index_drop_def Let_def filter_empty_conv split: option.splits)

interpretation idx: id_index index_bucket index_push index_drop
  by unfold_locales (auto simp: index_bucket_push index_bucket_drop)

section \<open>Representation facts\<close>

text \<open>No key keeps an empty vector: \<open>list_connection_keys\<close> lists exactly the keys in use.\<close>

definition no_empty_bucket :: "('k, 'i list) hashmap \<Rightarrow> bool" where
  "no_empty_bucket m \<longleftrightarrow> (\<forall>k. hm_get m k \<noteq> Some [])"

lemma no_empty_push: "no_empty_bucket m \<Longrightarrow> no_empty_bucket (index_push m k i)"
  by (auto simp: no_empty_bucket_def index_push_def)

lemma no_empty_drop: "no_empty_bucket m \<Longrightarrow> no_empty_bucket (index_drop m k i)"
  by (auto simp: no_empty_bucket_def index_drop_def Let_def split: option.splits)

lemma hm_ok_push [simp]: "hm_ok m \<Longrightarrow> hm_ok (index_push m k i)"
  by (simp add: index_push_def)

lemma hm_ok_drop [simp]: "hm_ok m \<Longrightarrow> hm_ok (index_drop m k i)"
  by (auto simp: index_drop_def Let_def split: option.splits)

lemma no_empty_keys:
  "no_empty_bucket m \<Longrightarrow> k \<in> set (hm_keys m) \<longleftrightarrow> index_bucket m k \<noteq> []"
  by (auto simp: hm_keys_in index_bucket_def no_empty_bucket_def split: option.splits)

lemma indexes_empty: "indexes index_bucket [] (\<lambda>_. None)"
  by (simp add: indexes_def index_bucket_def)

end
