(* ===== verification/Registry.thy ===== *)
theory Registry
  imports Session Id_Index
begin

text \<open>
  \<open>crates/core/src/session/registry.rs\<close>: the registry of session metadata with its name index and
  its connection-key index. \<open>register\<close> takes its locks twice, once to check the limits and once to
  insert, so it is modelled as \<open>register_check\<close> followed by \<open>register_commit\<close>. Concurrent callers
  interleave these two, and the insertion itself, which writes the map and the indexes under one lock after
  the other; \<open>Registry_Race\<close> splits it into those turns.
\<close>

section \<open>State\<close>

record registry_config =
  max_sessions :: u32
  allow_duplicate_names :: bool
  enable_name_index :: bool

definition registry_config_default :: registry_config where
  "registry_config_default =
     \<lparr>max_sessions = 1000, allow_duplicate_names = True, enable_name_index = True\<rparr>"

record registry =
  reg_config :: registry_config
  sessions :: "(session_id, session_metadata) hashmap"
  name_index :: "(string, session_id list) hashmap"
  connection_index :: "(string, session_id list) hashmap"

definition registry_new :: "registry_config \<Rightarrow> registry" where
  "registry_new c = \<lparr>reg_config = c, sessions = [], name_index = [], connection_index = []\<rparr>"

section \<open>Operations\<close>

definition register_check :: "registry \<Rightarrow> session_metadata \<Rightarrow> yuha_error + unit" where
  "register_check r m =
     (if length (sessions r) \<ge> unat (max_sessions (reg_config r))
      then Inl (SessionE (MaxSessionsReached (max_sessions (reg_config r))))
      else if \<not> allow_duplicate_names (reg_config r)
      then (case hm_get (name_index r) (sm_name m) of
              Some existing_ids \<Rightarrow>
                if existing_ids \<noteq> [] then Inl (SessionE (AlreadyExists (sm_name m))) else Inr ()
            | None \<Rightarrow> Inr ())
      else Inr ())"

text \<open>\<open>Creating\<close> becomes \<open>Connecting\<close> on registration.\<close>

definition started :: "session_metadata \<Rightarrow> session_metadata" where
  "started m = (if sm_status m = Creating then m\<lparr>sm_status := Connecting\<rparr> else m)"

definition register_commit :: "registry \<Rightarrow> session_metadata \<Rightarrow> registry" where
  "register_commit r m =
     (let m' = started m;
          r1 = r\<lparr>sessions := hm_insert (sm_id m') m' (sessions r)\<rparr>;
          r2 = (if enable_name_index (reg_config r)
                then r1\<lparr>name_index := index_push (name_index r1) (sm_name m') (sm_id m')\<rparr> else r1)
      in r2\<lparr>connection_index := index_push (connection_index r2) (session_key m') (sm_id m')\<rparr>)"

definition register :: "registry \<Rightarrow> session_metadata \<Rightarrow> yuha_error + (session_id \<times> registry)" where
  "register r m =
     try_bind (register_check r m) (\<lambda>_. Inr (sm_id m, register_commit r m))"

definition unregister ::
    "registry \<Rightarrow> session_id \<Rightarrow> session_metadata option \<times> registry" where
  "unregister r i =
     (case hm_get (sessions r) i of
        None \<Rightarrow> (None, r\<lparr>sessions := hm_remove i (sessions r)\<rparr>)
      | Some m \<Rightarrow>
          let r1 = r\<lparr>sessions := hm_remove i (sessions r)\<rparr>;
              r2 = (if enable_name_index (reg_config r)
                    then r1\<lparr>name_index := index_drop (name_index r1) (sm_name m) i\<rparr> else r1)
          in (Some m, r2\<lparr>connection_index := index_drop (connection_index r2) (session_key m) i\<rparr>))"

definition reg_get :: "registry \<Rightarrow> session_id \<Rightarrow> session_metadata option" where
  "reg_get r i = hm_get (sessions r) i"

definition not_found :: "(session_id \<Rightarrow> string) \<Rightarrow> session_id \<Rightarrow> yuha_error" where
  "not_found show_id i = SessionE (NotFound (show_id i))"

definition reg_update ::
    "(session_id \<Rightarrow> string) \<Rightarrow> registry \<Rightarrow> session_id \<Rightarrow> session_metadata \<Rightarrow> yuha_error + registry" where
  "reg_update show_id r i m =
     (if sm_id m \<noteq> i
      then Inl (SessionE (InvalidState ''metadata ID mismatch'' ''matching session ID''))
      else case hm_get (sessions r) i of
        None \<Rightarrow> Inl (not_found show_id i)
      | Some old \<Rightarrow>
          let old_key = session_key old;
              new_key = session_key m;
              r1 = (if old_key \<noteq> new_key
                    then r\<lparr>connection_index :=
                             index_push (index_drop (connection_index r) old_key i) new_key i\<rparr>
                    else r);
              r2 = (if enable_name_index (reg_config r) \<and> sm_name old \<noteq> sm_name m
                    then r1\<lparr>name_index :=
                             index_push (index_drop (name_index r1) (sm_name old) i) (sm_name m) i\<rparr>
                    else r1)
          in Inr (r2\<lparr>sessions := hm_insert i m (sessions r2)\<rparr>))"

text \<open>\<open>get_mut\<close> and an in-place change: \<open>update_status\<close> and \<open>mark_used\<close> share it.\<close>

definition reg_modify ::
    "(session_id \<Rightarrow> string) \<Rightarrow> (session_metadata \<Rightarrow> session_metadata) \<Rightarrow> registry \<Rightarrow> session_id
     \<Rightarrow> yuha_error + registry" where
  "reg_modify show_id f r i =
     (case hm_get (sessions r) i of
        Some m \<Rightarrow> Inr (r\<lparr>sessions := hm_insert i (f m) (sessions r)\<rparr>)
      | None \<Rightarrow> Inl (not_found show_id i))"

definition update_status ::
    "(session_id \<Rightarrow> string) \<Rightarrow> time \<Rightarrow> registry \<Rightarrow> session_id \<Rightarrow> session_status \<Rightarrow> yuha_error + registry" where
  "update_status show_id now r i status = reg_modify show_id (set_status now status) r i"

definition reg_mark_used ::
    "(session_id \<Rightarrow> string) \<Rightarrow> time \<Rightarrow> registry \<Rightarrow> session_id \<Rightarrow> yuha_error + registry" where
  "reg_mark_used show_id now r i = reg_modify show_id (mark_used now) r i"

definition list_all_sessions :: "registry \<Rightarrow> session_metadata list" where
  "list_all_sessions r = hm_values (sessions r)"

definition list_by_status :: "registry \<Rightarrow> session_status \<Rightarrow> session_metadata list" where
  "list_by_status r status = filter (\<lambda>m. sm_status m = status) (hm_values (sessions r))"

definition lookup_ids :: "registry \<Rightarrow> session_id list \<Rightarrow> session_metadata list" where
  "lookup_ids r ids = List.map_filter (hm_get (sessions r)) ids"

definition list_by_name :: "registry \<Rightarrow> string \<Rightarrow> session_metadata list" where
  "list_by_name r name =
     (if enable_name_index (reg_config r)
      then (case hm_get (name_index r) name of
              Some ids \<Rightarrow> lookup_ids r ids
            | None \<Rightarrow> [])
      else filter (\<lambda>m. sm_name m = name) (hm_values (sessions r)))"

definition list_by_connection_key :: "registry \<Rightarrow> string \<Rightarrow> session_metadata list" where
  "list_by_connection_key r key =
     (case hm_get (connection_index r) key of
        Some ids \<Rightarrow> lookup_ids r ids
      | None \<Rightarrow> [])"

definition list_by_tags :: "registry \<Rightarrow> string list \<Rightarrow> session_metadata list" where
  "list_by_tags r tags = filter (has_tags tags) (hm_values (sessions r))"

definition reg_count :: "registry \<Rightarrow> usize" where
  "reg_count r = length (sessions r)"

definition count_by_status :: "registry \<Rightarrow> session_status \<Rightarrow> usize" where
  "count_by_status r status = length (filter (\<lambda>m. sm_status m = status) (hm_values (sessions r)))"

definition reg_exists :: "registry \<Rightarrow> session_id \<Rightarrow> bool" where
  "reg_exists r i = hm_contains (sessions r) i"

definition reg_clear :: "registry \<Rightarrow> registry" where
  "reg_clear r = r\<lparr>sessions := [], name_index := [], connection_index := []\<rparr>"

section \<open>Well-formedness\<close>

text \<open>
  The registry is keyed by the id in the metadata, and each index files every registered session
  under its current name or connection key exactly once, with no stale or empty entry.
\<close>

definition file_by :: "(session_metadata \<Rightarrow> string) \<Rightarrow> registry \<Rightarrow> session_id \<Rightarrow> string option" where
  "file_by key r i = map_option key (hm_get (sessions r) i)"

definition registry_wf :: "registry \<Rightarrow> bool" where
  "registry_wf r \<longleftrightarrow>
     hm_ok (sessions r) \<and> hm_ok (name_index r) \<and> hm_ok (connection_index r) \<and>
     no_empty_bucket (name_index r) \<and> no_empty_bucket (connection_index r) \<and>
     (\<forall>i m. hm_get (sessions r) i = Some m \<longrightarrow> sm_id m = i) \<and>
     indexes index_bucket (connection_index r) (file_by session_key r) \<and>
     (if enable_name_index (reg_config r)
      then indexes index_bucket (name_index r) (file_by sm_name r) else name_index r = [])"

lemma registry_wfD:
  assumes "registry_wf r"
  shows "hm_ok (sessions r)" and "hm_get (sessions r) i = Some m \<Longrightarrow> sm_id m = i"
    and "indexes index_bucket (connection_index r) (file_by session_key r)"
    and "enable_name_index (reg_config r) \<Longrightarrow> indexes index_bucket (name_index r) (file_by sm_name r)"
  using assms by (simp_all add: registry_wf_def)

lemma registry_wf_new: "registry_wf (registry_new c)"
  by (simp add: registry_wf_def registry_new_def no_empty_bucket_def indexes_empty file_by_def [abs_def])

lemma started_simps [simp]:
  "sm_id (started m) = sm_id m" "sm_name (started m) = sm_name m"
  "session_key (started m) = session_key m"
  "sm_transport_config (started m) = sm_transport_config m"
  "sm_created_at (started m) = sm_created_at m" "sm_last_used (started m) = sm_last_used m"
  by (simp_all add: started_def session_key_def)

lemma started_not_creating: "sm_status (started m) \<noteq> Creating"
  by (simp add: started_def)

lemma file_by_upd:
  "file_by key (r\<lparr>sessions := hm_insert i m (sessions r)\<rparr>) = (file_by key r)(i := Some (key m))"
  by (auto simp: file_by_def fun_eq_iff)

lemma file_by_del:
  "file_by key (r\<lparr>sessions := hm_remove i (sessions r)\<rparr>) = (file_by key r)(i := None)"
  by (auto simp: file_by_def fun_eq_iff)

lemma file_by_cong: "sessions r = sessions s \<Longrightarrow> file_by key r = file_by key s"
  by (simp add: file_by_def [abs_def])

lemma sessions_commit:
  "sessions (register_commit r m) = hm_insert (sm_id m) (started m) (sessions r)"
  by (simp add: register_commit_def Let_def)

lemma sessions_unregister: "sessions (snd (unregister r i)) = hm_remove i (sessions r)"
  by (simp add: unregister_def Let_def split: option.splits)

lemma config_commit [simp]: "reg_config (register_commit r m) = reg_config r"
  by (simp add: register_commit_def Let_def)

lemma config_unregister [simp]: "reg_config (snd (unregister r i)) = reg_config r"
  by (simp add: unregister_def Let_def split: option.splits)

lemma registry_wf_commit:
  assumes wf: "registry_wf r" and fresh: "hm_get (sessions r) (sm_id m) = None"
  shows "registry_wf (register_commit r m)"
proof -
  have none: "file_by key r (sm_id m) = None" for key
    using fresh by (simp add: file_by_def)
  have f: "file_by key (register_commit r m) = (file_by key r)(sm_id m := Some (key (started m)))" for key
    by (auto simp: file_by_def sessions_commit fun_eq_iff)
  have "indexes index_bucket (connection_index (register_commit r m)) (file_by session_key (register_commit r m))"
    unfolding f using idx.indexes_push [OF registry_wfD(3) [OF wf] none]
    by (simp add: register_commit_def Let_def)
  moreover have "indexes index_bucket (name_index (register_commit r m)) (file_by sm_name (register_commit r m))"
    if "enable_name_index (reg_config r)"
    unfolding f using idx.indexes_push [OF registry_wfD(4) [OF wf that] none] that
    by (simp add: register_commit_def Let_def)
  ultimately show ?thesis
    using wf by (auto simp: registry_wf_def sessions_commit)
      (auto simp: register_commit_def Let_def no_empty_push)
qed

lemma unregister_absent: "hm_get (sessions r) i = None \<Longrightarrow> unregister r i = (None, r)"
  by (simp add: unregister_def hm_remove_absent)

lemma registry_wf_unregister:
  assumes wf: "registry_wf r"
  shows "registry_wf (snd (unregister r i))"
proof (cases "hm_get (sessions r) i")
  case None
  with wf show ?thesis by (simp add: unregister_absent)
next
  case (Some m)
  have s: "file_by key r i = Some (key m)" for key
    using Some by (simp add: file_by_def)
  have f: "file_by key (snd (unregister r i)) = (file_by key r)(i := None)" for key
    by (auto simp: file_by_def sessions_unregister fun_eq_iff)
  have "indexes index_bucket (connection_index (snd (unregister r i))) (file_by session_key (snd (unregister r i)))"
    unfolding f using idx.indexes_drop [OF registry_wfD(3) [OF wf] s] Some
    by (simp add: unregister_def Let_def)
  moreover have "indexes index_bucket (name_index (snd (unregister r i))) (file_by sm_name (snd (unregister r i)))"
    if "enable_name_index (reg_config r)"
    unfolding f using idx.indexes_drop [OF registry_wfD(4) [OF wf that] s] that Some
    by (simp add: unregister_def Let_def)
  ultimately show ?thesis
    using wf Some by (auto simp: registry_wf_def sessions_unregister split: if_splits)
      (auto simp: unregister_def Let_def no_empty_drop)
qed

text \<open>An in-place change that keeps id, name and connection key.\<close>

lemma registry_wf_modify:
  assumes wf: "registry_wf r" and "reg_modify show_id f r i = Inr r'"
    and "\<And>m. sm_id (f m) = sm_id m \<and> sm_name (f m) = sm_name m \<and> session_key (f m) = session_key m"
  shows "registry_wf r'"
proof -
  obtain m where m: "hm_get (sessions r) i = Some m"
    and r': "r' = r\<lparr>sessions := hm_insert i (f m) (sessions r)\<rparr>"
    using assms(2) by (auto simp: reg_modify_def split: option.splits)
  have "file_by key r' = file_by key r" if "key (f m) = key m" for key
    using that m by (auto simp: file_by_def fun_eq_iff r')
  then show ?thesis
    using assms m by (simp add: registry_wf_def r')
qed

lemma registry_wf_update:
  assumes wf: "registry_wf r" and upd: "reg_update show_id r i m = Inr r'"
  shows "registry_wf r'"
proof -
  obtain old where old: "hm_get (sessions r) i = Some old" and i: "sm_id m = i"
    using upd by (auto simp: reg_update_def split: if_splits option.splits)
  have s: "file_by key r i = Some (key old)" for key
    using old by (simp add: file_by_def)
  have r': "sessions r' = hm_insert i m (sessions r)" "reg_config r' = reg_config r"
    "connection_index r' = (if session_key old \<noteq> session_key m
       then index_push (index_drop (connection_index r) (session_key old) i) (session_key m) i
       else connection_index r)"
    "name_index r' = (if enable_name_index (reg_config r) \<and> sm_name old \<noteq> sm_name m
       then index_push (index_drop (name_index r) (sm_name old) i) (sm_name m) i
       else name_index r)"
    using upd old i by (auto simp: reg_update_def Let_def split: if_splits)
  have f: "file_by key r' = (file_by key r)(i := Some (key m))" for key
    by (auto simp: file_by_def r' fun_eq_iff)
  have same: "(file_by key r)(i := Some (key m)) = file_by key r" if "key old = key m" for key
    using s [of key] that by (simp add: fun_upd_idem)
  have "indexes index_bucket (connection_index r') (file_by session_key r')"
    unfolding f using idx.indexes_move [OF registry_wfD(3) [OF wf] s] registry_wfD(3) [OF wf]
    by (simp add: r' same)
  moreover have "indexes index_bucket (name_index r') (file_by sm_name r')"
    if "enable_name_index (reg_config r)"
    unfolding f using idx.indexes_move [OF registry_wfD(4) [OF wf that] s] registry_wfD(4) [OF wf that] that
    by (simp add: r' same)
  ultimately show ?thesis
    using wf i by (auto simp: registry_wf_def r' no_empty_push no_empty_drop split: if_splits)
qed

section \<open>What the rest of the session layer relies on\<close>

text \<open>
  The session manager sees the registry as a store of sessions that it looks up, enters, changes in
  place and withdraws, and of which it counts those with a given property. A counter kept beside the
  store with wrapping increments and saturating decrements follows such a count as long as the count
  fits the width of the counter.
\<close>

definition tally :: "(session_metadata \<Rightarrow> bool) \<Rightarrow> registry \<Rightarrow> nat" where
  "tally P r = entry_count P (sessions r)"

locale session_store =
  fixes lookup :: "'r \<Rightarrow> session_id \<Rightarrow> session_metadata option"
    and tally :: "(session_metadata \<Rightarrow> bool) \<Rightarrow> 'r \<Rightarrow> nat"
    and ok :: "'r \<Rightarrow> bool"
    and enter :: "'r \<Rightarrow> session_metadata \<Rightarrow> 'r"
    and change :: "(session_metadata \<Rightarrow> session_metadata) \<Rightarrow> 'r \<Rightarrow> session_id \<Rightarrow> 'e + 'r"
    and withdraw :: "'r \<Rightarrow> session_id \<Rightarrow> session_metadata option \<times> 'r"
  assumes tally_enter: "ok r \<Longrightarrow> lookup r (sm_id m) = None \<Longrightarrow>
      tally P (enter r m) = tally P r + (if P (started m) then 1 else 0)"
    and tally_change: "ok r \<Longrightarrow> lookup r i = Some m \<Longrightarrow> change f r i = Inr r' \<Longrightarrow>
      tally P r' + (if P m then 1 else 0) = tally P r + (if P (f m) then 1 else 0)"
    and tally_withdraw: "ok r \<Longrightarrow> lookup r i = Some m \<Longrightarrow>
      tally P (snd (withdraw r i)) + (if P m then 1 else 0) = tally P r"
    and lookup_enter: "lookup (enter r m) j = (if j = sm_id m then Some (started m) else lookup r j)"
    and lookup_change: "change f r i = Inr r' \<Longrightarrow>
      lookup r' j = (if j = i then map_option f (lookup r i) else lookup r j)"
    and change_ok_iff: "is_ok (change f r i) \<longleftrightarrow> lookup r i \<noteq> None"
    and lookup_withdraw: "lookup (snd (withdraw r i)) j = (if j = i then None else lookup r j)"
    and withdraw_result: "fst (withdraw r i) = lookup r i"
begin

definition follows :: "'w::len word \<Rightarrow> (session_metadata \<Rightarrow> bool) \<Rightarrow> 'r \<Rightarrow> bool" where
  "follows w P r \<longleftrightarrow> unat w = tally P r"

lemma tally_pos:
  assumes "ok r" and "lookup r i = Some m" and "P m"
  shows "0 < tally P r"
  using tally_withdraw [OF assms(1,2), of P] assms(3) by simp

lemma follows_enter:
  assumes "ok r" and "lookup r (sm_id m) = None" and "follows (w :: 'w::len word) P r"
    and "tally P (enter r m) < 2 ^ LENGTH('w)"
  shows "follows (if P (started m) then w + 1 else w) P (enter r m)"
  using assms by (auto simp: follows_def tally_enter unat_inc)

lemma follows_withdraw:
  assumes "ok r" and "lookup r i = Some m" and "follows w P r"
  shows "follows (if P m then saturating_sub1 w else w) P (snd (withdraw r i))"
  using tally_withdraw [OF assms(1,2), of P] assms(3)
  by (auto simp: follows_def unat_saturating_sub1)

lemma follows_change:
  assumes "ok r" and "lookup r i = Some m" and "change f r i = Inr r'"
    and "follows (w :: 'w::len word) P r" and "tally P r' < 2 ^ LENGTH('w)"
  defines "v \<equiv> if P m then saturating_sub1 w else w"
  shows "follows (if P (f m) then v + 1 else v) P r'"
proof -
  have v: "unat v + (if P m then 1 else 0) = tally P r"
    using assms tally_pos [OF assms(1,2), of P] by (auto simp: follows_def unat_saturating_sub1)
  show ?thesis
  proof (cases "P (f m)")
    case True
    then have r': "tally P r' = Suc (unat v)"
      using v tally_change [OF assms(1-3), of P] by (simp split: if_splits)
    then have "unat (v + 1) = Suc (unat v)"
      using assms(5) by (intro unat_inc) simp
    with True r' show ?thesis
      by (simp add: follows_def)
  next
    case False
    then show ?thesis
      using v tally_change [OF assms(1-3), of P] by (simp add: follows_def split: if_splits)
  qed
qed

end

lemma reg_modify_Inr:
  "reg_modify show_id f r i = Inr r' \<longleftrightarrow>
   (\<exists>m. hm_get (sessions r) i = Some m \<and> r' = r\<lparr>sessions := hm_insert i (f m) (sessions r)\<rparr>)"
  by (auto simp: reg_modify_def split: option.splits)

lemma unregister_fst: "fst (unregister r i) = hm_get (sessions r) i"
  by (simp add: unregister_def Let_def split: option.splits)

interpretation store: session_store reg_get tally registry_wf register_commit
  "\<lambda>f r i. reg_modify show_id f r i" unregister for show_id
proof unfold_locales
  fix r :: registry and m i P
  assume wf: "registry_wf r"
  show "reg_get r (sm_id m) = None \<Longrightarrow>
      tally P (register_commit r m) = tally P r + (if P (started m) then 1 else 0)"
    by (simp add: tally_def reg_get_def sessions_commit hm.count_put_new registry_wfD [OF wf])
  show "reg_get r i = Some m \<Longrightarrow> tally P (snd (unregister r i)) + (if P m then 1 else 0) = tally P r"
    by (simp add: tally_def reg_get_def sessions_unregister hm.count_del registry_wfD [OF wf])
  fix f r'
  show "reg_get r i = Some m \<Longrightarrow> reg_modify show_id f r i = Inr r' \<Longrightarrow>
      tally P r' + (if P m then 1 else 0) = tally P r + (if P (f m) then 1 else 0)"
    by (auto simp: tally_def reg_get_def reg_modify_Inr hm.count_put_old registry_wfD [OF wf])
qed (auto simp: reg_get_def sessions_commit sessions_unregister unregister_fst reg_modify_Inr
      reg_modify_def split: option.splits)

lemma tally_le: "tally P r \<le> length (sessions r)"
  by (simp add: tally_def entry_count_def)

lemma tally_bound:
  assumes "length (sessions r) \<le> unat (n :: u32)"
  shows "tally P r < 2 ^ LENGTH(32)"
proof -
  have "tally P r \<le> unat n"
    using tally_le [of P r] assms by simp
  also have "\<dots> < 2 ^ LENGTH(32)"
    by (rule unsigned_less)
  finally show ?thesis .
qed

section \<open>Runs\<close>

text \<open>
  Everything a holder of the registry can do to it, one operation at a time. Registration takes the
  id it was given from the generator, so the id is new.
\<close>

inductive registry_run :: "registry_config \<Rightarrow> registry \<Rightarrow> bool" for c where
  run_new: "registry_run c (registry_new c)"
| run_register: "registry_run c r \<Longrightarrow> reg_get r (sm_id m) = None \<Longrightarrow> register r m = Inr (i, r')
    \<Longrightarrow> registry_run c r'"
| run_unregister: "registry_run c r \<Longrightarrow> registry_run c (snd (unregister r i))"
| run_update: "registry_run c r \<Longrightarrow> reg_update show_id r i m = Inr r' \<Longrightarrow> registry_run c r'"
| run_status: "registry_run c r \<Longrightarrow> update_status show_id now r i s = Inr r' \<Longrightarrow> registry_run c r'"
| run_used: "registry_run c r \<Longrightarrow> reg_mark_used show_id now r i = Inr r' \<Longrightarrow> registry_run c r'"
| run_clear: "registry_run c r \<Longrightarrow> registry_run c (reg_clear r)"

lemma register_Inr:
  "register r m = Inr (i, r') \<longleftrightarrow>
   register_check r m = Inr () \<and> i = sm_id m \<and> r' = register_commit r m"
  by (auto simp: register_def try_bind_Inr)

lemma register_check_limit:
  "register_check r m = Inr () \<Longrightarrow> length (sessions r) < unat (max_sessions (reg_config r))"
  by (auto simp: register_check_def split: if_splits)

lemma registry_wf_status: "registry_wf r \<Longrightarrow> update_status show_id now r i s = Inr r' \<Longrightarrow> registry_wf r'"
  unfolding update_status_def by (erule (1) registry_wf_modify) simp

lemma registry_wf_used: "registry_wf r \<Longrightarrow> reg_mark_used show_id now r i = Inr r' \<Longrightarrow> registry_wf r'"
  unfolding reg_mark_used_def by (erule (1) registry_wf_modify) simp

lemma registry_wf_clear: "registry_wf r \<Longrightarrow> registry_wf (reg_clear r)"
  by (simp add: registry_wf_def reg_clear_def no_empty_bucket_def indexes_empty file_by_def [abs_def])

lemma length_modify:
  "hm_ok (sessions r) \<Longrightarrow> reg_modify show_id f r i = Inr r' \<Longrightarrow>
   length (sessions r') = length (sessions r) \<and> reg_config r' = reg_config r"
  by (auto simp: reg_modify_Inr hm.length_put_old)

lemma length_update:
  "hm_ok (sessions r) \<Longrightarrow> reg_update show_id r i m = Inr r' \<Longrightarrow>
   length (sessions r') = length (sessions r) \<and> reg_config r' = reg_config r"
  by (auto simp: reg_update_def Let_def hm.length_put_old split: if_splits option.splits)

lemma registry_run_inv:
  "registry_run c r \<Longrightarrow>
   registry_wf r \<and> reg_config r = c \<and> length (sessions r) \<le> unat (max_sessions c)"
proof (induction rule: registry_run.induct)
  case run_new
  show ?case by (simp add: registry_wf_new) (simp add: registry_new_def)
next
  case (run_register r m i r')
  then show ?case
    by (auto simp: register_Inr reg_get_def registry_wf_commit sessions_commit hm.length_put_new
        registry_wfD dest: register_check_limit)
next
  case (run_unregister r i)
  then show ?case
    using hm.length_del_le [of "sessions r" i]
    by (simp add: registry_wf_unregister sessions_unregister registry_wfD)
next
  case (run_update r show_id i m r')
  then show ?case
    using length_update [of r show_id i m r'] registry_wf_update [of r show_id i m r']
    by (simp add: registry_wfD)
next
  case (run_status r show_id now i s r')
  then show ?case
    using length_modify [of r show_id "set_status now s" i r'] registry_wf_status
    by (simp add: registry_wfD update_status_def) blast
next
  case (run_used r show_id now i r')
  then show ?case
    using length_modify [of r show_id "mark_used now" i r'] registry_wf_used
    by (simp add: registry_wfD reg_mark_used_def) blast
next
  case (run_clear r)
  then show ?case
    by (simp add: registry_wf_clear) (simp add: reg_clear_def)
qed

section \<open>Indexed listings\<close>

lemma set_lookup_ids: "m \<in> set (lookup_ids r ids) \<longleftrightarrow> (\<exists>i\<in>set ids. hm_get (sessions r) i = Some m)"
  by (force simp: lookup_ids_def map_filter_def)

lemma distinct_lookup_ids:
  assumes "distinct ids" and "\<And>i m. hm_get (sessions r) i = Some m \<Longrightarrow> sm_id m = i"
  shows "distinct (lookup_ids r ids)"
proof -
  have "inj_on (the \<circ> hm_get (sessions r)) {i. hm_get (sessions r) i \<noteq> None}"
  proof (rule inj_onI)
    fix i j
    assume "i \<in> {i. hm_get (sessions r) i \<noteq> None}" and "j \<in> {i. hm_get (sessions r) i \<noteq> None}"
      and "(the \<circ> hm_get (sessions r)) i = (the \<circ> hm_get (sessions r)) j"
    then obtain m where "hm_get (sessions r) i = Some m" and "hm_get (sessions r) j = Some m"
      by auto
    then show "i = j"
      using assms(2) by blast
  qed
  then show ?thesis
    using assms(1) by (auto simp: lookup_ids_def map_filter_def distinct_map intro: inj_on_subset)
qed

text \<open>A listing through an index is the scan of all sessions, up to the order.\<close>

lemma lookup_bucket:
  assumes wf: "registry_wf r" and ix: "indexes index_bucket ix (file_by key r)"
  shows "mset (case hm_get ix k of Some ids \<Rightarrow> lookup_ids r ids | None \<Rightarrow> [])
       = mset (filter (\<lambda>m. key m = k) (hm_values (sessions r)))"
proof -
  let ?l = "case hm_get ix k of Some ids \<Rightarrow> lookup_ids r ids | None \<Rightarrow> []"
  have l: "?l = lookup_ids r (index_bucket ix k)"
    by (simp add: index_bucket_def lookup_ids_def map_filter_def split: option.splits)
  have ids: "\<And>i m. hm_get (sessions r) i = Some m \<Longrightarrow> sm_id m = i"
    using registry_wfD(2) [OF wf] .
  have "distinct ?l"
    unfolding l using indexesD(1) [OF ix] ids by (rule distinct_lookup_ids)
  moreover have "distinct (filter (\<lambda>m. key m = k) (hm_values (sessions r)))"
  proof (rule distinct_filter)
    have "inj_on snd (set (sessions r))"
    proof (rule inj_onI)
      fix p q
      assume pq: "p \<in> set (sessions r)" "q \<in> set (sessions r)" and eq: "snd p = snd q"
      have "hm_get (sessions r) (fst p) = Some (snd p)" and "hm_get (sessions r) (fst q) = Some (snd q)"
        unfolding hm_get_in_set [OF registry_wfD(1) [OF wf]] using pq by simp_all
      then have "fst p = fst q"
        using ids eq by metis
      with eq show "p = q"
        by (simp add: prod_eq_iff)
    qed
    then show "distinct (hm_values (sessions r))"
      using registry_wfD(1) [OF wf] by (auto simp: hm_values_def hm_ok_def distinct_map)
  qed
  moreover have "set ?l = set (filter (\<lambda>m. key m = k) (hm_values (sessions r)))"
    unfolding l using indexesD(2) [OF ix] registry_wfD(1) [OF wf]
    by (auto simp: set_lookup_ids hm_values_in file_by_def) blast+
  ultimately show ?thesis
    by (rule set_eq_iff_mset_eq_distinct [THEN iffD1])
qed

section \<open>Concurrent registration\<close>

text \<open>
  \<open>register\<close> releases the lock of the session map between its check and its insertion. With at most
  \<open>k\<close> tasks inside \<open>register\<close> at any moment, \<open>ps\<close> holds the metadata of those that have passed the
  check and not yet inserted.
\<close>

inductive race :: "nat \<Rightarrow> registry_config \<Rightarrow> session_metadata list \<Rightarrow> registry \<Rightarrow> bool" for k c where
  race_new: "race k c [] (registry_new c)"
| race_check: "race k c ps r \<Longrightarrow> length ps < k \<Longrightarrow> register_check r m = Inr () \<Longrightarrow>
    reg_get r (sm_id m) = None \<Longrightarrow> sm_id m \<notin> sm_id ` set ps \<Longrightarrow> race k c (m # ps) r"
| race_commit: "race k c (ps @ m # qs) r \<Longrightarrow> race k c (ps @ qs) (register_commit r m)"
| race_unregister: "race k c ps r \<Longrightarrow> race k c ps (snd (unregister r i))"

lemma race_inv:
  "race k c ps r \<Longrightarrow>
   registry_wf r \<and> reg_config r = c \<and> distinct (map sm_id ps) \<and> length ps \<le> k \<and>
   (\<forall>m\<in>set ps. reg_get r (sm_id m) = None) \<and>
   (0 < k \<longrightarrow> length (sessions r) + length ps < unat (max_sessions c) + k)"
proof (induction rule: race.induct)
  case race_new
  show ?case by (simp add: registry_wf_new) (simp add: registry_new_def)
next
  case (race_check ps r m)
  then have "length (sessions r) < unat (max_sessions c)"
    using register_check_limit by blast
  with race_check show ?case
    by auto
next
  case (race_commit ps m qs r)
  then have fresh: "hm_get (sessions r) (sm_id m) = None"
    by (simp add: reg_get_def)
  have "length (sessions (register_commit r m)) = Suc (length (sessions r))"
    using race_commit fresh by (simp add: sessions_commit hm.length_put_new registry_wfD)
  moreover have "\<forall>x\<in>set ps \<union> set qs. sm_id x \<noteq> sm_id m"
    using race_commit.IH by (auto simp: rev_image_eqI)
  moreover have "registry_wf (register_commit r m)"
    using race_commit.IH fresh by (simp add: registry_wf_commit)
  ultimately show ?case
    using race_commit.IH by (simp add: reg_get_def sessions_commit)
next
  case (race_unregister ps r i)
  then show ?case
    using hm.length_del_le [of "sessions r" i]
    by (auto simp: registry_wf_unregister sessions_unregister registry_wfD reg_get_def)
qed

section \<open>Properties\<close>

text \<open>C13. Every sequence of operations keeps the registry well formed, whether they succeed or fail:
  each session is filed under its own id, each index lists every session under its current name or
  connection key exactly once and nothing else, no empty bucket is left behind, and there are never
  more sessions than \<open>max_sessions\<close>.\<close>

theorem registry_runs_well_formed:
  assumes "registry_run c r"
  shows "registry_wf r \<and> reg_count r \<le> unat (max_sessions c)"
  using registry_run_inv [OF assms] by (simp add: reg_count_def)

definition sample_session :: "session_id \<Rightarrow> string \<Rightarrow> session_metadata" where
  "sample_session i name = metadata_new 0 i name (sample_ssh ''bob'' ''h'') [] None"

theorem registry_runs_well_formed_witness:
  "registry_wf (register_commit (registry_new registry_config_default) (sample_session 1 ''a''))"
proof -
  let ?r = "registry_new registry_config_default"
  have "registry_run registry_config_default (register_commit ?r (sample_session 1 ''a''))"
    by (rule run_register [OF run_new, where m = "sample_session 1 ''a''"])
      (simp_all add: register_Inr register_check_def reg_get_def registry_new_def
        registry_config_default_def sample_session_def)
  then show ?thesis
    using registry_runs_well_formed by blast
qed

text \<open>C14. The indexed listings answer exactly what a scan of all sessions would: \<open>list_by_name\<close> (with
  the name index on or off) and \<open>list_by_connection_key\<close> return every session with that name or
  connection key, once, and no other.\<close>

theorem indexed_listing_is_scan:
  assumes "registry_run c r"
  shows "mset (list_by_name r name) = mset (filter (\<lambda>m. sm_name m = name) (list_all_sessions r)) \<and>
    mset (list_by_connection_key r key) = mset (filter (\<lambda>m. session_key m = key) (list_all_sessions r))"
proof -
  have wf: "registry_wf r"
    using registry_run_inv [OF assms] by simp
  show ?thesis
    using lookup_bucket [OF wf registry_wfD(3) [OF wf], of key] lookup_bucket [OF wf registry_wfD(4) [OF wf], of name]
    by (simp add: list_by_name_def list_by_connection_key_def list_all_sessions_def)
qed

theorem indexed_listing_is_scan_witness:
  "mset (list_by_name (registry_new registry_config_default) ''x'') = {#}"
  using indexed_listing_is_scan [OF run_new, of registry_config_default "''x''" "[]"]
  by (simp add: list_all_sessions_def registry_new_def hm_values_def)

text \<open>Which registrations succeed: there must be room and, when duplicate names are forbidden and
  the name index is kept, no session may have the name. With the name index switched off the
  prohibition of duplicate names has no effect, since only the index is consulted.\<close>

theorem register_accepts_iff:
  assumes "registry_run c r"
  shows "is_ok (register r m) \<longleftrightarrow>
    reg_count r < unat (max_sessions c) \<and>
    (allow_duplicate_names c \<or> \<not> enable_name_index c \<or>
     list_ex (\<lambda>m'. sm_name m' = sm_name m) (list_all_sessions r) = False)"
proof -
  have wf: "registry_wf r" and c: "reg_config r = c"
    using registry_run_inv [OF assms] by simp_all
  have off: "name_index r = []" if "\<not> enable_name_index c"
    using wf c that by (simp add: registry_wf_def)
  have on: "hm_get (name_index r) n = None \<longleftrightarrow>
      \<not> list_ex (\<lambda>m'. sm_name m' = n) (list_all_sessions r)"
    and ne: "hm_get (name_index r) n \<noteq> Some []" if "enable_name_index c" for n
  proof -
    have ix: "indexes index_bucket (name_index r) (file_by sm_name r)"
      and nb: "no_empty_bucket (name_index r)"
      using wf c that by (simp_all add: registry_wf_def)
    show "hm_get (name_index r) n \<noteq> Some []"
      using nb by (simp add: no_empty_bucket_def)
    have "hm_get (name_index r) n = None \<longleftrightarrow> index_bucket (name_index r) n = []"
      using nb by (auto simp: index_bucket_def no_empty_bucket_def split: option.splits)
    also have "\<dots> \<longleftrightarrow> (\<forall>i. i \<notin> set (index_bucket (name_index r) n))"
      by (simp flip: set_empty add: all_not_in_conv)
    also have "\<dots> \<longleftrightarrow> \<not> list_ex (\<lambda>m'. sm_name m' = n) (list_all_sessions r)"
      unfolding list_ex_iff Ball_def Bex_def list_all_sessions_def hm_values_in [OF registry_wfD(1) [OF wf]]
      by (auto simp: indexesD(2) [OF ix] file_by_def)
    finally show "hm_get (name_index r) n = None \<longleftrightarrow>
      \<not> list_ex (\<lambda>m'. sm_name m' = n) (list_all_sessions r)" .
  qed
  show ?thesis
    using c off on [of "sm_name m"] ne [of "sm_name m"]
    by (cases "enable_name_index c")
      (auto simp: register_def register_check_def reg_count_def split: option.splits)
qed

theorem register_accepts_iff_witness:
  "\<not> is_ok (register (registry_new (registry_config_default\<lparr>max_sessions := 0\<rparr>)) (sample_session 1 ''a''))"
  using register_accepts_iff [OF run_new, of "registry_config_default\<lparr>max_sessions := 0\<rparr>" "sample_session 1 ''a''"]
  by simp

text \<open>The session limit under concurrency: with at most \<open>k\<close> tasks inside \<open>register\<close> at a time the
  registry can exceed \<open>max_sessions\<close>, but never by \<open>k\<close> or more; its indexes stay well formed.\<close>

theorem concurrent_register_overshoot:
  assumes "race k c ps r" and "0 < k"
  shows "registry_wf r \<and> reg_count r < unat (max_sessions c) + k"
  using race_inv [OF assms(1)] assms(2) by (auto simp: reg_count_def)

text \<open>The bound is attained: two tasks and a limit of one leave two sessions registered.\<close>

theorem concurrent_register_overshoot_witness:
  "\<exists>r. race 2 (registry_config_default\<lparr>max_sessions := 1\<rparr>) [] r \<and> registry_wf r \<and>
     reg_count r = 2 \<and> reg_count r < unat (1 :: u32) + 2"
proof -
  let ?c = "registry_config_default\<lparr>max_sessions := 1\<rparr>"
  let ?a = "sample_session 1 ''a''" and ?b = "sample_session 2 ''b''"
  let ?r0 = "registry_new ?c"
  have "race 2 ?c [?a] ?r0"
    by (rule race_check [OF race_new]) (simp_all add: register_check_def registry_new_def reg_get_def registry_config_default_def)
  then have "race 2 ?c [?b, ?a] ?r0"
    by (rule race_check) (simp_all add: register_check_def registry_new_def reg_get_def registry_config_default_def sample_session_def)
  then have "race 2 ?c ([?b] @ ?a # []) ?r0"
    by simp
  then have "race 2 ?c ([] @ ?b # []) (register_commit ?r0 ?a)"
    by (drule_tac race_commit) simp
  then have race: "race 2 ?c ([] @ []) (register_commit (register_commit ?r0 ?a) ?b)"
    by (rule race_commit)
  have "reg_count (register_commit (register_commit ?r0 ?a) ?b) = 2"
    by (simp add: reg_count_def sessions_commit) (simp add: registry_new_def sample_session_def hm_insert_def)
  moreover have "max_sessions ?c = 1"
    by simp
  ultimately show ?thesis
    using concurrent_register_overshoot [OF race] race by force
qed

end
