(* ===== verification/Pool.thy ===== *)
theory Pool
  imports Session Id_Index
begin

text \<open>
  \<open>crates/core/src/session/pool.rs\<close>: the pool of sessions that may be reused, filed by connection
  key. \<open>now\<close> is the clock reading of the operation; \<open>elapsed().unwrap_or_default()\<close> is the natural
  subtraction \<open>now - pooled_at\<close>.
\<close>

section \<open>State\<close>

record pool_config =
  pool_enabled :: bool
  max_sessions_per_connection :: u32
  max_total_sessions :: u32
  prefer_reuse :: bool
  min_idle_time :: u64

definition pool_config_default :: pool_config where
  "pool_config_default =
     \<lparr>pool_enabled = True, max_sessions_per_connection = 5, max_total_sessions = 50,
      prefer_reuse = True, min_idle_time = 5\<rparr>"

record pooled_session =
  ps_connection_key :: string
  ps_pooled_at :: time
  ps_priority :: session_priority
  ps_use_count :: u64

record pool =
  pool_conf :: pool_config
  pools :: "(string, session_id list) hashmap"
  pool_metadata :: "(session_id, pooled_session) hashmap"

definition pool_new :: "pool_config \<Rightarrow> pool" where
  "pool_new c = \<lparr>pool_conf = c, pools = [], pool_metadata = []\<rparr>"

section \<open>Operations\<close>

definition has_room :: "pool \<Rightarrow> string \<Rightarrow> bool" where
  "has_room p key \<longleftrightarrow>
     (case hm_get (pools p) key of
        Some ids \<Rightarrow> length ids < unat (max_sessions_per_connection (pool_conf p))
      | None \<Rightarrow> True) \<and>
     length (pool_metadata p) < unat (max_total_sessions (pool_conf p))"

definition pool_entry :: "time \<Rightarrow> session_metadata \<Rightarrow> pooled_session" where
  "pool_entry now m =
     \<lparr>ps_connection_key = session_key m, ps_pooled_at = now, ps_priority = sm_priority m,
      ps_use_count = sm_use_count m\<rparr>"

definition add_session :: "time \<Rightarrow> session_metadata \<Rightarrow> pool \<Rightarrow> bool \<times> pool" where
  "add_session now m p =
     (if \<not> pool_enabled (pool_conf p) then (False, p)
      else if \<not> (sm_status m = Idle \<or> sm_status m = Active) then (False, p)
      else if \<not> has_room p (session_key m) then (False, p)
      else (True, p\<lparr>pools := index_push (pools p) (session_key m) (sm_id m),
                    pool_metadata := hm_insert (sm_id m) (pool_entry now m) (pool_metadata p)\<rparr>))"

definition remove_session :: "session_id \<Rightarrow> pool \<Rightarrow> bool \<times> pool" where
  "remove_session i p =
     (case hm_get (pool_metadata p) i of
        Some e \<Rightarrow>
          (True, p\<lparr>pools := index_drop (pools p) (ps_connection_key e) i,
                   pool_metadata := hm_remove i (pool_metadata p)\<rparr>)
      | None \<Rightarrow> (False, p))"

definition reuse_score :: "time \<Rightarrow> pooled_session \<Rightarrow> nat" where
  "reuse_score now e =
     (case ps_priority e of Critical \<Rightarrow> 100 | High \<Rightarrow> 75 | Normal \<Rightarrow> 50 | Low \<Rightarrow> 25) +
     (if ps_use_count e < 10 then 20 else if ps_use_count e < 50 then 10 else 0) +
     (if now - ps_pooled_at e < from_secs 60 then 15
      else if now - ps_pooled_at e < from_secs 300 then 10 else 0)"

text \<open>One iteration of the search: the best session so far and its score.\<close>

definition weigh ::
    "time \<Rightarrow> pool \<Rightarrow> session_id \<Rightarrow> session_id option \<times> nat \<Rightarrow> session_id option \<times> nat" where
  "weigh now p i best =
     (case hm_get (pool_metadata p) i of
        None \<Rightarrow> best
      | Some e \<Rightarrow>
          if now - ps_pooled_at e < from_secs (min_idle_time (pool_conf p)) then best
          else if reuse_score now e > snd best then (Some i, reuse_score now e)
          else best)"

definition find_session :: "time \<Rightarrow> string \<Rightarrow> pool \<Rightarrow> session_id option" where
  "find_session now key p =
     (if \<not> pool_enabled (pool_conf p) \<or> \<not> prefer_reuse (pool_conf p) then None
      else case hm_get (pools p) key of
        None \<Rightarrow> None
      | Some ids \<Rightarrow> fst (fold (weigh now p) ids (None, 0)))"

definition list_pool :: "string \<Rightarrow> pool \<Rightarrow> session_id list" where
  "list_pool key p = unwrap_or (hm_get (pools p) key) []"

definition list_connection_keys :: "pool \<Rightarrow> string list" where
  "list_connection_keys p = hm_keys (pools p)"

record pool_stats =
  st_enabled :: bool
  st_total_pooled :: usize
  st_connection_pools :: usize
  st_largest_pool :: usize
  st_max_per_connection :: u32
  st_max_total :: u32

definition pool_get_stats :: "pool \<Rightarrow> pool_stats" where
  "pool_get_stats p =
     \<lparr>st_enabled = pool_enabled (pool_conf p),
      st_total_pooled = length (pool_metadata p),
      st_connection_pools = length (pools p),
      st_largest_pool = fold max (map length (hm_values (pools p))) 0,
      st_max_per_connection = max_sessions_per_connection (pool_conf p),
      st_max_total = max_total_sessions (pool_conf p)\<rparr>"

definition is_expired :: "time \<Rightarrow> duration \<Rightarrow> pooled_session \<Rightarrow> bool" where
  "is_expired now max_idle e =
     (case duration_since now (ps_pooled_at e) of Some elapsed \<Rightarrow> elapsed > max_idle | None \<Rightarrow> False)"

definition cleanup_expired :: "time \<Rightarrow> duration \<Rightarrow> pool \<Rightarrow> session_id list \<times> pool" where
  "cleanup_expired now max_idle p =
     (let expired = map fst (filter (\<lambda>(i, e). is_expired now max_idle e) (pool_metadata p))
      in (expired, fold (\<lambda>i p. snd (remove_session i p)) expired p))"

definition pool_clear :: "pool \<Rightarrow> pool" where
  "pool_clear p = p\<lparr>pools := [], pool_metadata := []\<rparr>"

definition is_pooled :: "session_id \<Rightarrow> pool \<Rightarrow> bool" where
  "is_pooled i p = hm_contains (pool_metadata p) i"

definition get_pool_metadata :: "session_id \<Rightarrow> pool \<Rightarrow> pooled_session option" where
  "get_pool_metadata i p = hm_get (pool_metadata p) i"

section \<open>What a client of the pool may rely on\<close>

locale reuse_pool =
  fixes pooled :: "'p \<Rightarrow> session_id set"
    and add :: "time \<Rightarrow> session_metadata \<Rightarrow> 'p \<Rightarrow> bool \<times> 'p"
    and remove :: "session_id \<Rightarrow> 'p \<Rightarrow> bool \<times> 'p"
    and find :: "time \<Rightarrow> string \<Rightarrow> 'p \<Rightarrow> session_id option"
    and expire :: "time \<Rightarrow> duration \<Rightarrow> 'p \<Rightarrow> session_id list \<times> 'p"
  assumes pooled_add: "pooled (snd (add now m p)) = (if fst (add now m p) then insert (sm_id m) (pooled p) else pooled p)"
    and pooled_remove: "pooled (snd (remove i p)) = pooled p - {i}"
    and find_pooled: "find now key p = Some i \<Longrightarrow> i \<in> pooled p"
    and pooled_expire: "pooled (snd (expire now d p)) = pooled p - set (fst (expire now d p))"
begin

text \<open>A client that pools only sessions it knows, and removes a session from the pool when it forgets
  it, is never offered a session it does not know.\<close>

definition within :: "'p \<Rightarrow> session_id set \<Rightarrow> bool" where
  "within p known \<longleftrightarrow> pooled p \<subseteq> known"

lemma within_add: "within p known \<Longrightarrow> sm_id m \<in> known \<Longrightarrow> within (snd (add now m p)) known"
  by (simp add: within_def pooled_add)

lemma within_remove: "within p known \<Longrightarrow> within (snd (remove i p)) known"
  by (auto simp: within_def pooled_remove)

lemma within_forget: "within p known \<Longrightarrow> within (snd (remove i p)) (known - {i})"
  by (auto simp: within_def pooled_remove)

lemma within_expire: "within p known \<Longrightarrow> within (snd (expire now d p)) known"
  by (auto simp: within_def pooled_expire)

lemma within_more: "within p known \<Longrightarrow> within p (insert i known)"
  by (auto simp: within_def)

lemma offered_is_known: "within p known \<Longrightarrow> find now key p = Some i \<Longrightarrow> i \<in> known"
  by (auto simp: within_def dest: find_pooled)

end

definition pooled_ids :: "pool \<Rightarrow> session_id set" where
  "pooled_ids p = {i. hm_get (pool_metadata p) i \<noteq> None}"

lemma pooled_ids_remove: "pooled_ids (snd (remove_session i p)) = pooled_ids p - {i}"
  by (auto simp: pooled_ids_def remove_session_def split: option.splits)

lemma pooled_ids_removes:
  "pooled_ids (fold (\<lambda>i p. snd (remove_session i p)) ids p) = pooled_ids p - set ids"
  by (induction ids arbitrary: p) (auto simp: pooled_ids_remove)

text \<open>The search as an argmax: the fold keeps the first session of maximal positive score.\<close>

definition eligible :: "time \<Rightarrow> pool \<Rightarrow> session_id \<Rightarrow> bool" where
  "eligible now p i \<longleftrightarrow>
     (\<exists>e. hm_get (pool_metadata p) i = Some e \<and>
          from_secs (min_idle_time (pool_conf p)) \<le> now - ps_pooled_at e)"

definition score_of :: "time \<Rightarrow> pool \<Rightarrow> session_id \<Rightarrow> nat" where
  "score_of now p i = (case hm_get (pool_metadata p) i of None \<Rightarrow> 0 | Some e \<Rightarrow> reuse_score now e)"

lemma reuse_score_pos: "0 < reuse_score now e"
  by (simp add: reuse_score_def split: session_priority.splits)

lemma weigh_eq:
  "weigh now p i best =
   (if eligible now p i \<and> snd best < score_of now p i then (Some i, score_of now p i) else best)"
  by (auto simp: weigh_def eligible_def score_of_def split: option.splits)

text \<open>The invariant of the search after the prefix \<open>xs\<close> of the bucket.\<close>

definition best_of :: "time \<Rightarrow> pool \<Rightarrow> session_id list \<Rightarrow> session_id option \<times> nat \<Rightarrow> bool" where
  "best_of now p xs b \<longleftrightarrow>
     (case fst b of
        None \<Rightarrow> snd b = 0 \<and> (\<forall>i\<in>set xs. \<not> eligible now p i)
      | Some i \<Rightarrow> i \<in> set xs \<and> eligible now p i \<and> snd b = score_of now p i \<and>
          (\<forall>j\<in>set xs. eligible now p j \<longrightarrow> score_of now p j \<le> score_of now p i) \<and>
          (\<exists>ys zs. xs = ys @ i # zs \<and>
             (\<forall>j\<in>set ys. eligible now p j \<longrightarrow> score_of now p j < score_of now p i)))"

lemma eligible_score_pos: "eligible now p i \<Longrightarrow> 0 < score_of now p i"
  by (auto simp: eligible_def score_of_def reuse_score_pos)

lemma best_of_step:
  assumes "best_of now p xs b"
  shows "best_of now p (xs @ [i]) (weigh now p i b)"
proof (cases "eligible now p i \<and> snd b < score_of now p i")
  case True
  then have "\<forall>j\<in>set xs. eligible now p j \<longrightarrow> score_of now p j < score_of now p i"
    using assms by (fastforce simp: best_of_def split: option.splits)
  with True show ?thesis
    by (fastforce simp: best_of_def weigh_eq)
next
  case False
  then have eq: "weigh now p i b = b"
    by (simp only: weigh_eq if_False)
  show ?thesis
  proof (cases "fst b")
    case None
    then show ?thesis
      using assms False eq eligible_score_pos [of now p i] by (auto simp: best_of_def)
  next
    case (Some k)
    then obtain ys zs where "xs = ys @ k # zs"
      and "\<forall>j\<in>set ys. eligible now p j \<longrightarrow> score_of now p j < score_of now p k"
      using assms by (auto simp: best_of_def)
    then have "\<exists>ys zs'. xs @ [i] = ys @ k # zs' \<and>
        (\<forall>j\<in>set ys. eligible now p j \<longrightarrow> score_of now p j < score_of now p k)"
      by (intro exI [of _ ys] exI [of _ "zs @ [i]"]) simp
    with Some show ?thesis
      using assms False eq by (simp add: best_of_def) auto
  qed
qed

lemma best_of_fold:
  "best_of now p xs b \<Longrightarrow> best_of now p (xs @ ys) (fold (weigh now p) ys b)"
proof (induction ys arbitrary: xs b)
  case (Cons y ys)
  from Cons.IH [OF best_of_step [OF Cons.prems, of y]] show ?case
    by simp
qed simp

lemma best_of_search: "best_of now p ids (fold (weigh now p) ids (None, 0))"
  using best_of_fold [of now p "[]" "(None, 0)" ids] by (simp add: best_of_def)

lemma find_session_best:
  assumes "find_session now key p = Some i"
  shows "\<exists>n. best_of now p (list_pool key p) (Some i, n)"
  using assms best_of_search [of now p]
  by (auto simp: find_session_def list_pool_def unwrap_or_def split: if_splits option.splits)
    (metis prod.collapse)

interpretation reuse: reuse_pool pooled_ids add_session remove_session find_session cleanup_expired
proof unfold_locales
  show "pooled_ids (snd (add_session now m p)) =
    (if fst (add_session now m p) then insert (sm_id m) (pooled_ids p) else pooled_ids p)" for now m p
    by (auto simp: add_session_def pooled_ids_def)
  show "find_session now key p = Some i \<Longrightarrow> i \<in> pooled_ids p" for now key p i
    by (drule find_session_best) (auto simp: best_of_def eligible_def pooled_ids_def)
qed (simp_all add: pooled_ids_remove pooled_ids_removes cleanup_expired_def Let_def)

section \<open>Runs\<close>

text \<open>
  The operations of a pool in any order. \<open>K i\<close> is the set of connection keys under which the session \<open>i\<close> is
  added: with \<open>\<lambda>i. UNIV\<close> these are all uses of a pool. A session may be added again while it is pooled, also
  under another key.
\<close>

inductive pool_run :: "(session_id \<Rightarrow> string set) \<Rightarrow> pool_config \<Rightarrow> pool \<Rightarrow> bool" for K c where
  pool_start: "pool_run K c (pool_new c)"
| pool_add: "pool_run K c p \<Longrightarrow> session_key m \<in> K (sm_id m) \<Longrightarrow>
    pool_run K c (snd (add_session now m p))"
| pool_remove: "pool_run K c p \<Longrightarrow> pool_run K c (snd (remove_session i p))"
| pool_cleanup: "pool_run K c p \<Longrightarrow> pool_run K c (snd (cleanup_expired now d p))"
| pool_empty: "pool_run K c p \<Longrightarrow> pool_run K c (pool_clear p)"

definition bucket_bound :: "pool_config \<Rightarrow> nat" where
  "bucket_bound c = max 1 (unat (max_sessions_per_connection c))"

definition pool_inv :: "(session_id \<Rightarrow> string set) \<Rightarrow> pool_config \<Rightarrow> pool \<Rightarrow> bool" where
  "pool_inv K c p \<longleftrightarrow>
     pool_conf p = c \<and> hm_ok (pools p) \<and> hm_ok (pool_metadata p) \<and> no_empty_bucket (pools p) \<and>
     (\<forall>i e. hm_get (pool_metadata p) i = Some e \<longrightarrow>
        ps_connection_key e \<in> K i \<and> i \<in> set (index_bucket (pools p) (ps_connection_key e))) \<and>
     (\<forall>k i. i \<in> set (index_bucket (pools p) k) \<longrightarrow> k \<in> K i \<and> (is_singleton (K i) \<longrightarrow> i \<in> pooled_ids p)) \<and>
     (\<forall>k. length (index_bucket (pools p) k) \<le> bucket_bound c) \<and>
     length (pool_metadata p) \<le> unat (max_total_sessions c)"

lemma pool_invD:
  assumes "pool_inv K c p"
  shows "pool_conf p = c" and "hm_ok (pools p)" and "hm_ok (pool_metadata p)"
    and "no_empty_bucket (pools p)"
    and "hm_get (pool_metadata p) i = Some e \<Longrightarrow> ps_connection_key e \<in> K i"
    and "hm_get (pool_metadata p) i = Some e \<Longrightarrow> i \<in> set (index_bucket (pools p) (ps_connection_key e))"
    and "i \<in> set (index_bucket (pools p) k) \<Longrightarrow> k \<in> K i"
    and "i \<in> set (index_bucket (pools p) k) \<Longrightarrow> is_singleton (K i) \<Longrightarrow> i \<in> pooled_ids p"
    and "length (index_bucket (pools p) k) \<le> bucket_bound c"
    and "length (pool_metadata p) \<le> unat (max_total_sessions c)"
  using assms unfolding pool_inv_def by blast+

text \<open>A session that is always added under one key is in a bucket exactly when it is pooled.\<close>

lemma pool_inv_one_key:
  assumes "pool_inv K c p" and "K i = {key}"
  shows "i \<in> set (index_bucket (pools p) k) \<longleftrightarrow> i \<in> pooled_ids p \<and> key = k"
  using pool_invD(5-8) [OF assms(1), of i] assms(2) by (auto simp: pooled_ids_def is_singleton_def)

lemma list_pool_bucket: "list_pool k p = index_bucket (pools p) k"
  by (simp add: list_pool_def index_bucket_def unwrap_or_def split: option.splits)

lemma has_room_bucket:
  assumes "no_empty_bucket (pools p)"
  shows "has_room p k \<longleftrightarrow>
    (index_bucket (pools p) k = [] \<or>
     length (index_bucket (pools p) k) < unat (max_sessions_per_connection (pool_conf p))) \<and>
    length (pool_metadata p) < unat (max_total_sessions (pool_conf p))"
  using assms by (auto simp: has_room_def index_bucket_def no_empty_bucket_def split: option.splits)

lemma length_insert_le: "hm_ok m \<Longrightarrow> length (hm_insert k v m) \<le> Suc (length m)"
  by (cases "hm_get m k") (simp_all add: hm.length_put_new hm.length_put_old)

lemma pool_inv_add:
  assumes inv: "pool_inv K c p" and key: "session_key m \<in> K (sm_id m)"
  shows "pool_inv K c (snd (add_session now m p))"
proof (cases "fst (add_session now m p)")
  case False
  then have "snd (add_session now m p) = p"
    by (simp add: add_session_def split: if_splits)
  with inv show ?thesis by simp
next
  case True
  let ?q = "snd (add_session now m p)"
  have q: "pools ?q = index_push (pools p) (session_key m) (sm_id m)"
    "pool_metadata ?q = hm_insert (sm_id m) (pool_entry now m) (pool_metadata p)" "pool_conf ?q = c"
    using True pool_invD(1) [OF inv] by (auto simp: add_session_def split: if_splits)
  have room: "has_room p (session_key m)"
    using True by (simp add: add_session_def split: if_splits)
  have ids: "pooled_ids ?q = insert (sm_id m) (pooled_ids p)"
    using True by (simp add: reuse.pooled_add)
  have "length (index_bucket (pools ?q) k) \<le> bucket_bound c" for k
    using room pool_invD(1,9) [OF inv] has_room_bucket [OF pool_invD(4) [OF inv]]
    by (auto simp: q index_bucket_push bucket_bound_def)
  moreover have "length (pool_metadata ?q) \<le> unat (max_total_sessions c)"
    using room pool_invD(1) [OF inv] length_insert_le [OF pool_invD(3) [OF inv], of "sm_id m" "pool_entry now m"]
    by (simp add: q has_room_def)
  moreover have "k \<in> K i \<and> (is_singleton (K i) \<longrightarrow> i \<in> pooled_ids ?q)" if "i \<in> set (index_bucket (pools ?q) k)" for k i
    using that key pool_invD(7,8) [OF inv] by (auto simp: q ids index_bucket_push split: if_splits)
  moreover have "ps_connection_key e \<in> K i \<and> i \<in> set (index_bucket (pools ?q) (ps_connection_key e))"
    if "hm_get (pool_metadata ?q) i = Some e" for i e
    using that key pool_invD(5,6) [OF inv, of i e]
    by (cases "i = sm_id m") (auto simp: q pool_entry_def index_bucket_push)
  ultimately show ?thesis
    using pool_invD(2-4) [OF inv] by (simp add: pool_inv_def q no_empty_push)
qed

lemma pool_inv_remove:
  assumes inv: "pool_inv K c p"
  shows "pool_inv K c (snd (remove_session i p))"
proof (cases "hm_get (pool_metadata p) i")
  case None
  with inv show ?thesis by (simp add: remove_session_def)
next
  case (Some e)
  let ?q = "snd (remove_session i p)"
  have q: "pools ?q = index_drop (pools p) (ps_connection_key e) i" "pool_metadata ?q = hm_remove i (pool_metadata p)"
    "pool_conf ?q = c"
    using Some pool_invD(1) [OF inv] by (simp_all add: remove_session_def)
  have "length (index_bucket (pools ?q) k) \<le> bucket_bound c" for k
    using le_trans [OF idx.length_bucket_drop_le pool_invD(9) [OF inv]] by (simp add: q)
  moreover have "length (pool_metadata ?q) \<le> unat (max_total_sessions c)"
    using le_trans [OF hm.length_del_le [OF pool_invD(3) [OF inv]] pool_invD(10) [OF inv]] by (simp add: q)
  moreover have "k \<in> K j \<and> (is_singleton (K j) \<longrightarrow> j \<in> pooled_ids ?q)" if j: "j \<in> set (index_bucket (pools ?q) k)" for k j
  proof -
    have old: "j \<in> set (index_bucket (pools p) k)" and "j = i \<Longrightarrow> k \<noteq> ps_connection_key e"
      using j by (auto simp: q index_bucket_drop split: if_splits)
    have k: "k \<in> K j"
      using pool_invD(7) [OF inv old] .
    have "j \<noteq> i" if "is_singleton (K j)"
    proof
      assume "j = i"
      with \<open>j = i \<Longrightarrow> k \<noteq> ps_connection_key e\<close> k pool_invD(5) [OF inv Some] that show False
        by (elim is_singletonE) simp
    qed
    then show ?thesis
      using k pool_invD(8) [OF inv old] by (simp add: pooled_ids_remove)
  qed
  moreover have "ps_connection_key x \<in> K j \<and> j \<in> set (index_bucket (pools ?q) (ps_connection_key x))"
    if "hm_get (pool_metadata ?q) j = Some x" for j x
    using that pool_invD(5,6) [OF inv, of j x] by (cases "j = i") (auto simp: q index_bucket_drop)
  ultimately show ?thesis
    using pool_invD(2-4) [OF inv] by (simp add: pool_inv_def q no_empty_drop)
qed

lemma pool_inv_removes: "pool_inv K c p \<Longrightarrow> pool_inv K c (fold (\<lambda>i p. snd (remove_session i p)) ids p)"
  by (induction ids arbitrary: p) (simp_all add: pool_inv_remove)

lemma pool_run_inv: "pool_run K c p \<Longrightarrow> pool_inv K c p"
proof (induction rule: pool_run.induct)
  case pool_start
  show ?case
    by (simp add: pool_inv_def pool_new_def no_empty_bucket_def index_bucket_def pooled_ids_def)
next
  case (pool_empty p)
  then show ?case
    by (simp add: pool_inv_def pool_clear_def no_empty_bucket_def index_bucket_def pooled_ids_def)
qed (simp_all add: pool_inv_add pool_inv_remove pool_inv_removes cleanup_expired_def Let_def)

lemma buckets_removes:
  "pool_inv (\<lambda>i. {kf i}) c p \<Longrightarrow>
   index_bucket (pools (fold (\<lambda>i p. snd (remove_session i p)) ids p)) k
     = filter (\<lambda>i. i \<notin> set ids) (index_bucket (pools p) k)"
proof (induction ids arbitrary: p)
  case (Cons i ids)
  note one = pool_inv_one_key [OF Cons.prems refl]
  have "index_bucket (pools (snd (remove_session i p))) k = filter (\<lambda>j. j \<noteq> i) (index_bucket (pools p) k)"
  proof (cases "i \<in> set (index_bucket (pools p) k)")
    case True
    then obtain e where "hm_get (pool_metadata p) i = Some e" and "kf i = k"
      using one by (auto simp: pooled_ids_def)
    then show ?thesis
      using pool_invD(5) [OF Cons.prems] by (simp add: remove_session_def index_bucket_drop)
  next
    case False
    then have "filter (\<lambda>j. j \<noteq> i) (index_bucket (pools p) k) = index_bucket (pools p) k"
      by (auto simp: filter_id_conv)
    then show ?thesis
      by (auto simp: remove_session_def index_bucket_drop split: option.splits)
  qed
  with Cons.IH [OF pool_inv_remove [OF Cons.prems], of i] show ?case
    by (simp add: conj_commute)
qed simp

lemma metadata_removes:
  "hm_get (pool_metadata (fold (\<lambda>i p. snd (remove_session i p)) ids p)) j
     = (if j \<in> set ids then None else hm_get (pool_metadata p) j)"
  by (induction ids arbitrary: p) (auto simp: remove_session_def split: option.splits)

section \<open>Properties\<close>

text \<open>C32. In every run of a pool, whatever metadata sessions are added with: at most \<open>max_total_sessions\<close>
  sessions are pooled; a bucket lists at most \<open>max_sessions_per_connection\<close> ids, but one when that limit is 0,
  because a bucket that does not exist yet is not compared with it; every pooled session is in the bucket of the
  key it was last added under; and a session that is always added under the same key is in no other bucket, and
  in that one only while it is pooled. An id added again while it is pooled is listed twice.\<close>

theorem pool_runs_bounded:
  assumes "pool_run K c p"
  shows "length (pool_metadata p) \<le> unat (max_total_sessions c) \<and>
    length (list_pool k p) \<le> max 1 (unat (max_sessions_per_connection c)) \<and>
    (\<forall>e. get_pool_metadata i p = Some e \<longrightarrow> i \<in> set (list_pool (ps_connection_key e) p)) \<and>
    (\<forall>key. K i = {key} \<longrightarrow> (i \<in> set (list_pool k p) \<longleftrightarrow> is_pooled i p \<and> key = k))"
  using pool_invD(6,9,10) [OF pool_run_inv [OF assms]] pool_inv_one_key [OF pool_run_inv [OF assms]]
  by (auto simp: list_pool_bucket bucket_bound_def is_pooled_def pooled_ids_def get_pool_metadata_def)

definition idle_session :: "session_id \<Rightarrow> session_metadata" where
  "idle_session i = set_status 0 Idle (metadata_new 0 i ''s'' (sample_ssh ''bob'' ''h'') [] None)"

theorem pool_runs_bounded_witness:
  "length (list_pool (session_key (idle_session 1)) (snd (add_session 0 (idle_session 1)
     (pool_new (pool_config_default\<lparr>max_sessions_per_connection := 0\<rparr>))))) \<le> 1 \<and>
   1 \<in> set (list_pool (session_key (idle_session 1)) (snd (add_session 0 (idle_session 1)
     (pool_new (pool_config_default\<lparr>max_sessions_per_connection := 0\<rparr>)))))"
proof -
  let ?c = "pool_config_default\<lparr>max_sessions_per_connection := 0\<rparr>"
  let ?p = "snd (add_session 0 (idle_session 1) (pool_new ?c))"
  have "pool_run (\<lambda>_. UNIV) ?c ?p"
    by (rule pool_add [OF pool_start]) simp
  note run = pool_runs_bounded [OF this, of "session_key (idle_session 1)" 1]
  have "get_pool_metadata 1 ?p = Some (pool_entry 0 (idle_session 1))"
    by (simp add: add_session_def pool_new_def pool_config_default_def idle_session_def has_room_def
        get_pool_metadata_def)
  with run show ?thesis
    by (simp add: pool_entry_def)
qed

text \<open>What the key condition excludes: a session added under a second key while it is pooled stays in the first
  bucket, where it is offered to clients of the first key, and a removal leaves its id there.\<close>

lemma rekeyed_session_in_both:
  assumes "fst (add_session now m p)" and "fst (add_session later m' (snd (add_session now m p)))"
    and "sm_id m' = sm_id m" and "session_key m' \<noteq> session_key m"
  shows "sm_id m \<in> set (list_pool (session_key m) (snd (add_session later m' (snd (add_session now m p))))) \<and>
    sm_id m \<in> set (list_pool (session_key m') (snd (add_session later m' (snd (add_session now m p))))) \<and>
    sm_id m \<in> set (list_pool (session_key m) (snd (remove_session (sm_id m)
      (snd (add_session later m' (snd (add_session now m p)))))))"
  using assms
  by (auto simp: add_session_def list_pool_bucket index_bucket_push remove_session_def pool_entry_def
      index_bucket_drop split: if_splits)

text \<open>The search offers the best session: with pooling and reuse enabled it finds nothing exactly
  when no session of the bucket has been pooled for the minimum idle time, and what it finds is such
  a session, of maximal score, and the first of that score in the bucket.\<close>

theorem find_session_is_best:
  assumes "pool_enabled (pool_conf p)" and "prefer_reuse (pool_conf p)"
  shows "case find_session now key p of
      None \<Rightarrow> \<forall>i\<in>set (list_pool key p). \<not> eligible now p i
    | Some i \<Rightarrow> eligible now p i \<and>
        (\<exists>ys zs. list_pool key p = ys @ i # zs \<and>
           (\<forall>j\<in>set ys. eligible now p j \<longrightarrow> score_of now p j < score_of now p i) \<and>
           (\<forall>j\<in>set zs. eligible now p j \<longrightarrow> score_of now p j \<le> score_of now p i))"
proof -
  have f: "find_session now key p = fst (fold (weigh now p) (list_pool key p) (None, 0))"
    using assms by (simp add: find_session_def list_pool_def unwrap_or_def split: option.splits)
  show ?thesis
    unfolding f using best_of_search [of now p "list_pool key p"]
    by (auto simp: best_of_def split: option.splits) fastforce
qed

theorem find_session_is_best_witness:
  "find_session 1 (session_key (idle_session 1)) (pool_new pool_config_default) = None \<and>
   (case find_session 1 [] (pool_new pool_config_default) of
      None \<Rightarrow> True
    | Some i \<Rightarrow> eligible 1 (pool_new pool_config_default) i)"
proof -
  have "pool_enabled (pool_conf (pool_new pool_config_default))"
    and "prefer_reuse (pool_conf (pool_new pool_config_default))"
    by (simp_all add: pool_new_def pool_config_default_def)
  from find_session_is_best [OF this, where now = 1 and key = "[]"] show ?thesis
    by (auto simp: find_session_def pool_new_def split: option.splits)
qed

text \<open>A session just added to an empty bucket is offered exactly from the moment it has been
  pooled for \<open>min_idle_time\<close> seconds: not at once, and again and again afterwards.\<close>

theorem pooled_session_offered:
  assumes "pool_run K c p" and "prefer_reuse c"
    and "fst (add_session now m p)" and "list_pool (session_key m) p = []"
  shows "find_session later (session_key m) (snd (add_session now m p)) =
    (if from_secs (min_idle_time c) \<le> later - now then Some (sm_id m) else None)"
proof -
  have inv: "pool_inv K c p"
    using assms(1) by (rule pool_run_inv)
  let ?q = "snd (add_session now m p)"
  have en: "pool_enabled (pool_conf p)"
    using assms(3) by (simp add: add_session_def split: if_splits)
  have q: "pool_conf ?q = c" "list_pool (session_key m) ?q = [sm_id m]"
    "hm_get (pool_metadata ?q) (sm_id m) = Some (pool_entry now m)"
    using assms(3,4) pool_invD(1) [OF inv]
    by (auto simp: add_session_def list_pool_bucket index_bucket_push split: if_splits)
  have "find_session later (session_key m) ?q = fst (weigh later ?q (sm_id m) (None, 0))"
    using q(1,2) en assms(2) pool_invD(1) [OF inv]
    by (auto simp: find_session_def list_pool_def unwrap_or_def split: option.splits)
  then show ?thesis
    using reuse_score_pos [of later "pool_entry now m"]
    by (simp add: weigh_def q pool_entry_def)
qed

theorem pooled_session_offered_witness:
  "find_session 6000000000 (session_key (idle_session 1))
     (snd (add_session 0 (idle_session 1) (pool_new pool_config_default))) = Some 1"
proof -
  have "sm_id (idle_session 1) = 1"
    by (simp add: idle_session_def)
  moreover have "fst (add_session 0 (idle_session 1) (pool_new pool_config_default))"
    by (simp add: add_session_def pool_new_def pool_config_default_def idle_session_def has_room_def)
  ultimately show ?thesis
    using pooled_session_offered [OF pool_start, where m = "idle_session 1" and c = pool_config_default and now = 0 and later = 6000000000]
    by (simp add: pool_config_default_def list_pool_def pool_new_def unwrap_or_def from_secs_def
        nanos_per_sec_def)
qed

text \<open>\<open>cleanup_expired\<close> removes exactly the sessions pooled for longer than the given time, from the
  metadata and from every bucket, keeps the order of the others, and reports what it removed; a
  second pass at the same time finds nothing.\<close>

theorem cleanup_expired_exact:
  assumes "pool_run (\<lambda>i. {kf i}) c p"
  shows "(i \<in> set (fst (cleanup_expired now d p)) \<longleftrightarrow>
      (\<exists>e. get_pool_metadata i p = Some e \<and> ps_pooled_at e + d < now)) \<and>
    list_pool k (snd (cleanup_expired now d p))
      = filter (\<lambda>i. i \<notin> set (fst (cleanup_expired now d p))) (list_pool k p) \<and>
    get_pool_metadata i (snd (cleanup_expired now d p))
      = (if i \<in> set (fst (cleanup_expired now d p)) then None else get_pool_metadata i p) \<and>
    fst (cleanup_expired now d (snd (cleanup_expired now d p))) = []"
proof -
  have inv: "pool_inv (\<lambda>i. {kf i}) c p"
    using assms by (rule pool_run_inv)
  let ?exp = "\<lambda>p. fst (cleanup_expired now d p)" and ?q = "snd (cleanup_expired now d p)"
  have expired: "is_expired now d e \<longleftrightarrow> ps_pooled_at e + d < now" for e
    by (auto simp: is_expired_def duration_since_def)
  have mem: "i \<in> set (?exp p) \<longleftrightarrow>
      (\<exists>e. hm_get (pool_metadata p) i = Some e \<and> ps_pooled_at e + d < now)" if "hm_ok (pool_metadata p)" for i p
    using that by (force simp: cleanup_expired_def Let_def expired hm_get_in_set)
  have get: "hm_get (pool_metadata ?q) i = (if i \<in> set (?exp p) then None else hm_get (pool_metadata p) i)" for i
    by (simp add: cleanup_expired_def Let_def metadata_removes)
  have "hm_ok (pool_metadata ?q)"
    using pool_invD(3) [OF pool_run_inv [OF pool_cleanup [OF assms]]] .
  then have "i \<notin> set (?exp ?q)" for i
    using mem [of ?q i] get [of i] mem [OF pool_invD(3) [OF inv], of i] by (auto split: if_splits)
  then have "?exp ?q = []"
    by (simp flip: set_empty add: set_eq_iff)
  moreover have "list_pool k ?q = filter (\<lambda>i. i \<notin> set (?exp p)) (list_pool k p)"
    unfolding list_pool_bucket using buckets_removes [OF inv] by (simp add: cleanup_expired_def Let_def)
  ultimately show ?thesis
    using mem [OF pool_invD(3) [OF inv], of i] get [of i] by (simp only: get_pool_metadata_def simp_thms)
qed

theorem cleanup_expired_exact_witness:
  "fst (cleanup_expired 20 3 (snd (add_session 10 (idle_session 1) (pool_new pool_config_default)))) = [1] \<and>
   list_pool (session_key (idle_session 1)) (snd (cleanup_expired 20 3
     (snd (add_session 10 (idle_session 1) (pool_new pool_config_default))))) = []"
proof -
  let ?p = "snd (add_session 10 (idle_session 1) (pool_new pool_config_default))"
  have p: "?p = \<lparr>pool_conf = pool_config_default, pools = [(session_key (idle_session 1), [1])],
      pool_metadata = [(1, pool_entry 10 (idle_session 1))]\<rparr>"
    by (simp add: add_session_def pool_new_def pool_config_default_def idle_session_def has_room_def
        index_push_def hm_upsert_def hm_insert_def)
  have "pool_run (\<lambda>_. {session_key (idle_session 1)}) pool_config_default ?p"
    by (rule pool_add [OF pool_start]) simp
  from cleanup_expired_exact [OF this, where i = 1 and now = 20 and d = 3 and k = "session_key (idle_session 1)"]
  have "list_pool (session_key (idle_session 1)) (snd (cleanup_expired 20 3 ?p)) = filter (\<lambda>i. i \<notin> set (fst (cleanup_expired 20 3 ?p))) (list_pool (session_key (idle_session 1)) ?p)"
    by blast
  moreover have "fst (cleanup_expired 20 3 ?p) = [1]"
    by (simp add: p cleanup_expired_def Let_def is_expired_def duration_since_def pool_entry_def)
  moreover have "set (list_pool (session_key (idle_session 1)) ?p) \<subseteq> {1}"
    by (auto simp: p list_pool_def unwrap_or_def hm_get_def split: if_splits)
  ultimately show ?thesis
    by (auto simp: filter_empty_conv)
qed

end
