(* ===== verification/Lifecycle.thy ===== *)
theory Lifecycle
  imports Session Hash_Map
begin

text \<open>
  \<open>crates/core/src/session/lifecycle.rs\<close>: the rules that expire and reconnect sessions, the flag of
  the cleanup task, and the bookkeeping of reconnection attempts. The cleanup task itself is a loop
  that waits for its interval, stops when the flag is down and otherwise runs the callback;
  \<open>cleanup_tick\<close> is one turn of it, with the callback an argument.
\<close>

section \<open>Lifecycle rules\<close>

record lifecycle_config =
  max_idle_time :: duration
  max_session_lifetime :: duration
  cleanup_interval :: duration
  enable_auto_reconnect :: bool
  max_reconnect_attempts :: u32
  reconnect_delay :: duration

definition lifecycle_config_default :: lifecycle_config where
  "lifecycle_config_default =
     \<lparr>max_idle_time = from_secs 300, max_session_lifetime = from_secs 3600,
      cleanup_interval = from_secs 60, enable_auto_reconnect = True, max_reconnect_attempts = 3,
      reconnect_delay = from_secs 5\<rparr>"

record lifecycle =
  lc_config :: lifecycle_config
  cleanup_running :: bool

definition lifecycle_new :: "lifecycle_config \<Rightarrow> lifecycle" where
  "lifecycle_new c = \<lparr>lc_config = c, cleanup_running = False\<rparr>"

text \<open>Starting tells whether a new task was spawned.\<close>

definition lc_start_cleanup :: "lifecycle \<Rightarrow> bool \<times> lifecycle" where
  "lc_start_cleanup l =
     (if cleanup_running l then (False, l) else (True, l\<lparr>cleanup_running := True\<rparr>))"

definition lc_stop_cleanup :: "lifecycle \<Rightarrow> lifecycle" where
  "lc_stop_cleanup l = l\<lparr>cleanup_running := False\<rparr>"

text \<open>One tick: \<open>None\<close> when the task ends, otherwise the callback's effect on the state it works on.\<close>

definition cleanup_tick :: "lifecycle \<Rightarrow> ('s \<Rightarrow> session_id list \<times> 's) \<Rightarrow> 's \<Rightarrow> 's option" where
  "cleanup_tick l callback s = (if \<not> cleanup_running l then None else Some (snd (callback s)))"

definition should_expire_session :: "lifecycle_config \<Rightarrow> time \<Rightarrow> session_metadata \<Rightarrow> bool" where
  "should_expire_session c now m =
     (if sm_status m = Idle \<and> idle_time now m > max_idle_time c then True
      else if age now m > max_session_lifetime c then True
      else if sm_status m = Failed then True
      else False)"

definition should_reconnect_session :: "lifecycle_config \<Rightarrow> time \<Rightarrow> session_metadata \<Rightarrow> bool" where
  "should_reconnect_session c now m =
     (if \<not> enable_auto_reconnect c then False
      else if sm_status m \<noteq> Failed then False
      else if age now m > max_session_lifetime c then False
      else if idle_time now m > max_idle_time c then False
      else True)"

definition lc_update_config :: "lifecycle_config \<Rightarrow> lifecycle \<Rightarrow> lifecycle" where
  "lc_update_config c l = l\<lparr>lc_config := c\<rparr>"

section \<open>Reconnection bookkeeping\<close>

record reconnection =
  reconnection_attempts :: "(session_id, u32) hashmap"
  last_reconnection_time :: "(session_id, time) hashmap"

definition reconnection_new :: reconnection where
  "reconnection_new = \<lparr>reconnection_attempts = [], last_reconnection_time = []\<rparr>"

definition attempts_of :: "reconnection \<Rightarrow> session_id \<Rightarrow> u32" where
  "attempts_of rm i = unwrap_or (hm_get (reconnection_attempts rm) i) 0"

definition can_reconnect :: "lifecycle_config \<Rightarrow> time \<Rightarrow> reconnection \<Rightarrow> session_id \<Rightarrow> bool" where
  "can_reconnect c now rm i =
     (if attempts_of rm i \<ge> max_reconnect_attempts c then False
      else case hm_get (last_reconnection_time rm) i of
        Some last_time \<Rightarrow> \<not> now - last_time < reconnect_delay c
      | None \<Rightarrow> True)"

definition record_reconnection_attempt :: "time \<Rightarrow> session_id \<Rightarrow> reconnection \<Rightarrow> reconnection" where
  "record_reconnection_attempt now i rm =
     rm\<lparr>reconnection_attempts := hm_upsert 0 (\<lambda>n. n + 1) i (reconnection_attempts rm),
        last_reconnection_time := hm_insert i now (last_reconnection_time rm)\<rparr>"

definition reset_reconnection :: "session_id \<Rightarrow> reconnection \<Rightarrow> reconnection" where
  "reset_reconnection i rm =
     rm\<lparr>reconnection_attempts := hm_remove i (reconnection_attempts rm),
        last_reconnection_time := hm_remove i (last_reconnection_time rm)\<rparr>"

definition cleanup_session :: "session_id \<Rightarrow> reconnection \<Rightarrow> reconnection" where
  "cleanup_session i rm =
     rm\<lparr>reconnection_attempts := hm_remove i (reconnection_attempts rm),
        last_reconnection_time := hm_remove i (last_reconnection_time rm)\<rparr>"

record reconnection_stats =
  sessions_with_attempts :: usize
  total_attempts :: u32
  max_attempts_for_session :: u32

definition rm_get_stats :: "reconnection \<Rightarrow> reconnection_stats" where
  "rm_get_stats rm =
     \<lparr>sessions_with_attempts = length (reconnection_attempts rm),
      total_attempts = sum_list (hm_values (reconnection_attempts rm)),
      max_attempts_for_session = fold max (hm_values (reconnection_attempts rm)) 0\<rparr>"

section \<open>Runs of the bookkeeping\<close>

text \<open>Attempts are made only when \<open>can_reconnect\<close> allows them.\<close>

inductive reconnect_run :: "lifecycle_config \<Rightarrow> reconnection \<Rightarrow> bool" for c where
  rr_new: "reconnect_run c reconnection_new"
| rr_attempt: "reconnect_run c rm \<Longrightarrow> can_reconnect c now rm i \<Longrightarrow>
    reconnect_run c (record_reconnection_attempt now i rm)"
| rr_reset: "reconnect_run c rm \<Longrightarrow> reconnect_run c (reset_reconnection i rm)"
| rr_cleanup: "reconnect_run c rm \<Longrightarrow> reconnect_run c (cleanup_session i rm)"

definition reconnect_inv :: "lifecycle_config \<Rightarrow> reconnection \<Rightarrow> bool" where
  "reconnect_inv c rm \<longleftrightarrow>
     hm_ok (reconnection_attempts rm) \<and> hm_ok (last_reconnection_time rm) \<and>
     (\<forall>i n. hm_get (reconnection_attempts rm) i = Some n \<longrightarrow> 0 < n \<and> n \<le> max_reconnect_attempts c) \<and>
     (\<forall>i. (hm_get (reconnection_attempts rm) i = None) = (hm_get (last_reconnection_time rm) i = None))"

lemma attempts_step:
  assumes "(n :: u32) < m"
  shows "0 < n + 1 \<and> n + 1 \<le> m"
proof -
  have "unat n < unat m"
    using assms by (simp add: word_less_nat_alt)
  moreover have "unat m < 2 ^ LENGTH(32)"
    by (rule unsigned_less)
  ultimately have "unat (n + 1) = Suc (unat n)"
    by (intro unat_inc) simp
  with \<open>unat n < unat m\<close> show ?thesis
    by (simp add: word_less_nat_alt word_le_nat_alt)
qed

lemma reconnect_run_inv: "reconnect_run c rm \<Longrightarrow> reconnect_inv c rm"
proof (induction rule: reconnect_run.induct)
  case (rr_attempt rm now i)
  then have "attempts_of rm i < max_reconnect_attempts c"
    by (simp add: can_reconnect_def not_le split: if_splits)
  with rr_attempt show ?case
    using attempts_step [of "attempts_of rm i" "max_reconnect_attempts c"]
    by (simp add: reconnect_inv_def record_reconnection_attempt_def attempts_of_def unwrap_or_def)
qed (auto simp: reconnect_inv_def reconnection_new_def reset_reconnection_def cleanup_session_def)

lemma fold_max_le: "b \<le> m \<Longrightarrow> (\<And>x. x \<in> set xs \<Longrightarrow> x \<le> m) \<Longrightarrow> fold max xs b \<le> (m :: 'a :: linorder)"
  by (induction xs arbitrary: b) auto

section \<open>Properties\<close>

text \<open>Expiry is never withdrawn: a session that is expired at one time is expired at every later
  time. And every session that automatic reconnection would pick up is already expired, so a cleanup
  pass removes it before it can be reconnected.\<close>

theorem expiry_is_stable:
  assumes "now \<le> later"
  shows "(should_expire_session c now m \<longrightarrow> should_expire_session c later m) \<and>
    (should_reconnect_session c now m \<longrightarrow> should_expire_session c now m)"
  using assms by (auto simp: should_expire_session_def should_reconnect_session_def)

theorem expiry_is_stable_witness:
  "should_expire_session lifecycle_config_default 7
     (set_status 0 Failed (metadata_new 0 1 ''s'' (sample_ssh ''bob'' ''h'') [] None))"
proof -
  let ?m = "set_status 0 Failed (metadata_new 0 1 ''s'' (sample_ssh ''bob'' ''h'') [] None)"
  have "should_expire_session lifecycle_config_default 5 ?m"
    by (simp add: should_expire_session_def)
  then show ?thesis
    using expiry_is_stable [of 5 7 lifecycle_config_default ?m] by simp
qed

text \<open>When reconnections are attempted only where \<open>can_reconnect\<close> allows them, no session ever has
  more than \<open>max_reconnect_attempts\<close> recorded attempts (the 32-bit count never wraps) until it is
  reset, and a session that is out of attempts is refused at every later time.\<close>

theorem reconnect_attempts_bounded:
  assumes "reconnect_run c rm"
  shows "attempts_of rm i \<le> max_reconnect_attempts c \<and>
    max_attempts_for_session (rm_get_stats rm) \<le> max_reconnect_attempts c \<and>
    (attempts_of rm i = max_reconnect_attempts c \<longrightarrow> \<not> can_reconnect c now rm i) \<and>
    can_reconnect c now (reset_reconnection i rm) i = (0 < max_reconnect_attempts c)"
proof -
  have inv: "reconnect_inv c rm"
    using assms by (rule reconnect_run_inv)
  then have "attempts_of rm i \<le> max_reconnect_attempts c"
    by (auto simp: attempts_of_def unwrap_or_def reconnect_inv_def split: option.splits)
  moreover have "fold max (hm_values (reconnection_attempts rm)) 0 \<le> max_reconnect_attempts c"
    using inv by (intro fold_max_le) (auto simp: reconnect_inv_def hm_values_in)
  ultimately show ?thesis
    by (simp add: rm_get_stats_def can_reconnect_def reset_reconnection_def attempts_of_def unwrap_or_def
        word_gt_0)
qed

theorem reconnect_attempts_bounded_witness:
  "\<not> can_reconnect (lifecycle_config_default\<lparr>max_reconnect_attempts := 1\<rparr>) 99
      (record_reconnection_attempt 0 7 reconnection_new) 7"
proof -
  let ?c = "lifecycle_config_default\<lparr>max_reconnect_attempts := 1\<rparr>"
  have "reconnect_run ?c (record_reconnection_attempt 0 7 reconnection_new)"
    by (rule rr_attempt [OF rr_new])
      (simp add: can_reconnect_def attempts_of_def reconnection_new_def unwrap_or_def)
  moreover have "attempts_of (record_reconnection_attempt 0 7 reconnection_new) 7 = 1"
    by (simp add: attempts_of_def record_reconnection_attempt_def reconnection_new_def unwrap_or_def)
  ultimately show ?thesis
    using reconnect_attempts_bounded [of ?c _ 7 99] by simp
qed

end
