(* ===== verification/Session_Metrics.thy ===== *)
theory Session_Metrics
  imports Complex_Main Session Hash_Map
begin

text \<open>
  \<open>crates/core/src/session/metrics.rs\<close>: the metrics collector of the session layer. The counters keep
  their width; the two percentages, \<open>f64\<close> in the source, are exact rationals here, so their rounding
  is not modelled and nothing else depends on it.
\<close>

section \<open>State\<close>

record session_metrics =
  total_sessions_created :: u64
  successful_connections :: u64
  failed_connections :: u64
  sessions_closed :: u64
  active_sessions :: u32
  idle_sessions :: u32
  failed_sessions :: u32
  avg_session_lifetime :: duration
  avg_idle_time :: duration
  transport_usage :: "(transport_type, u32) hashmap"
  connection_success_rate :: rat
  session_reuse_rate :: rat
  peak_concurrent_sessions :: u32
  total_usage_count :: u64

definition session_metrics_default :: session_metrics where
  "session_metrics_default =
     \<lparr>total_sessions_created = 0, successful_connections = 0, failed_connections = 0,
      sessions_closed = 0, active_sessions = 0, idle_sessions = 0, failed_sessions = 0,
      avg_session_lifetime = 0, avg_idle_time = 0, transport_usage = [],
      connection_success_rate = 0, session_reuse_rate = 0, peak_concurrent_sessions = 0,
      total_usage_count = 0\<rparr>"

record history_entry =
  he_created_at :: time
  he_closed_at :: "time option"
  he_transport_type :: transport_type
  he_use_count :: u64
  he_total_idle_time :: duration
  he_was_reused :: bool

record metrics_collector =
  mc_metrics :: session_metrics
  session_history :: "(session_id, history_entry) hashmap"
  lifetime_samples :: "duration list"
  idle_time_samples :: "duration list"
  max_samples :: usize

definition collector_new :: metrics_collector where
  "collector_new =
     \<lparr>mc_metrics = session_metrics_default, session_history = [], lifetime_samples = [],
      idle_time_samples = [], max_samples = 1000\<rparr>"

section \<open>Derived figures\<close>

definition add_sample :: "usize \<Rightarrow> duration \<Rightarrow> duration list \<Rightarrow> duration list" where
  "add_sample max_size sample samples =
     (let samples' = samples @ [sample]
      in if length samples' > max_size then tl samples' else samples')"

definition update_connection_success_rate :: "session_metrics \<Rightarrow> session_metrics" where
  "update_connection_success_rate m =
     (let total = successful_connections m + failed_connections m
      in if total > 0
         then m\<lparr>connection_success_rate :=
                  (of_nat (unat (successful_connections m)) / of_nat (unat total)) * 100\<rparr>
         else m)"

definition update_reuse_rate ::
    "(session_id, history_entry) hashmap \<Rightarrow> session_metrics \<Rightarrow> session_metrics" where
  "update_reuse_rate history m =
     (let total = length history
      in if total > 0
         then m\<lparr>session_reuse_rate :=
                  (of_nat (length (filter he_was_reused (hm_values history))) / of_nat total) * 100\<rparr>
         else m)"

definition update_averages ::
    "duration list \<Rightarrow> duration list \<Rightarrow> session_metrics \<Rightarrow> session_metrics" where
  "update_averages lifetimes idles m =
     (let m1 = (if lifetimes \<noteq> []
                then m\<lparr>avg_session_lifetime := sum_list lifetimes div length lifetimes\<rparr> else m)
      in if idles \<noteq> [] then m1\<lparr>avg_idle_time := sum_list idles div length idles\<rparr> else m1)"

section \<open>Recording\<close>

definition record_session_created :: "session_metadata \<Rightarrow> metrics_collector \<Rightarrow> metrics_collector" where
  "record_session_created s mc =
     (let m = mc_metrics mc;
          ty = tc_type (sm_transport_config s);
          m' = m\<lparr>total_sessions_created := total_sessions_created m + 1,
                 transport_usage := hm_upsert 0 (\<lambda>n. n + 1) ty (transport_usage m)\<rparr>
      in mc\<lparr>mc_metrics := m',
            session_history := hm_insert (sm_id s)
              \<lparr>he_created_at = sm_created_at s, he_closed_at = None, he_transport_type = ty,
               he_use_count = 0, he_total_idle_time = 0, he_was_reused = False\<rparr>
              (session_history mc)\<rparr>)"

definition record_connection_success :: "metrics_collector \<Rightarrow> metrics_collector" where
  "record_connection_success mc =
     (let m = mc_metrics mc
      in mc\<lparr>mc_metrics := update_connection_success_rate
              (m\<lparr>successful_connections := successful_connections m + 1\<rparr>)\<rparr>)"

definition record_connection_failure :: "metrics_collector \<Rightarrow> metrics_collector" where
  "record_connection_failure mc =
     (let m = mc_metrics mc
      in mc\<lparr>mc_metrics := update_connection_success_rate
              (m\<lparr>failed_connections := failed_connections m + 1\<rparr>)\<rparr>)"

text \<open>The counters of a status are decremented when a session leaves it.\<close>

definition leave_status :: "session_status \<Rightarrow> session_metrics \<Rightarrow> session_metrics" where
  "leave_status s m =
     (case s of
        Active \<Rightarrow> m\<lparr>active_sessions := saturating_sub1 (active_sessions m)\<rparr>
      | Idle \<Rightarrow> m\<lparr>idle_sessions := saturating_sub1 (idle_sessions m)\<rparr>
      | Failed \<Rightarrow> m\<lparr>failed_sessions := saturating_sub1 (failed_sessions m)\<rparr>
      | _ \<Rightarrow> m)"

definition enter_status :: "session_status \<Rightarrow> session_metrics \<Rightarrow> session_metrics" where
  "enter_status s m =
     (case s of
        Active \<Rightarrow>
          (let m1 = m\<lparr>active_sessions := active_sessions m + 1\<rparr>;
               total_active = active_sessions m1 + idle_sessions m1
           in if total_active > peak_concurrent_sessions m1
              then m1\<lparr>peak_concurrent_sessions := total_active\<rparr> else m1)
      | Idle \<Rightarrow> m\<lparr>idle_sessions := idle_sessions m + 1\<rparr>
      | Failed \<Rightarrow> m\<lparr>failed_sessions := failed_sessions m + 1\<rparr>
      | _ \<Rightarrow> m)"

definition record_status_change ::
    "session_status \<Rightarrow> session_status \<Rightarrow> metrics_collector \<Rightarrow> metrics_collector" where
  "record_status_change old_status new_status mc =
     mc\<lparr>mc_metrics := enter_status new_status (leave_status old_status (mc_metrics mc))\<rparr>"

definition record_session_usage ::
    "session_id \<Rightarrow> u64 \<Rightarrow> metrics_collector \<Rightarrow> metrics_collector" where
  "record_session_usage i usage_count mc =
     (let mc1 = mc\<lparr>mc_metrics := (mc_metrics mc)\<lparr>total_usage_count :=
                     total_usage_count (mc_metrics mc) + 1\<rparr>\<rparr>
      in case hm_get (session_history mc1) i of
           Some h \<Rightarrow>
             (let h1 = h\<lparr>he_use_count := usage_count\<rparr>;
                  h2 = (if usage_count > 1 then h1\<lparr>he_was_reused := True\<rparr> else h1)
              in mc1\<lparr>session_history := hm_insert i h2 (session_history mc1)\<rparr>)
         | None \<Rightarrow> mc1)"

definition record_session_closed ::
    "time \<Rightarrow> session_metadata \<Rightarrow> metrics_collector \<Rightarrow> metrics_collector" where
  "record_session_closed now s mc =
     (let m0 = mc_metrics mc;
          m1 = leave_status (sm_status s) (m0\<lparr>sessions_closed := sessions_closed m0 + 1\<rparr>);
          mc1 = (case hm_get (session_history mc) (sm_id s) of
                   Some h \<Rightarrow>
                     mc\<lparr>session_history := hm_insert (sm_id s)
                          (h\<lparr>he_closed_at := Some now, he_total_idle_time := idle_time now s\<rparr>)
                          (session_history mc),
                        lifetime_samples :=
                          (case duration_since now (he_created_at h) of
                             Some lifetime \<Rightarrow> add_sample (max_samples mc) lifetime (lifetime_samples mc)
                           | None \<Rightarrow> lifetime_samples mc),
                        idle_time_samples :=
                          add_sample (max_samples mc) (idle_time now s) (idle_time_samples mc)\<rparr>
                 | None \<Rightarrow> mc)
      in mc1\<lparr>mc_metrics := update_reuse_rate (session_history mc1)
                (update_averages (lifetime_samples mc1) (idle_time_samples mc1) m1)\<rparr>)"

definition get_metrics :: "metrics_collector \<Rightarrow> session_metrics" where
  "get_metrics mc = mc_metrics mc"

definition mc_reset :: "metrics_collector \<Rightarrow> metrics_collector" where
  "mc_reset mc =
     mc\<lparr>mc_metrics := session_metrics_default, session_history := [], lifetime_samples := [],
        idle_time_samples := []\<rparr>"

definition cleanup_old_history :: "time \<Rightarrow> duration \<Rightarrow> metrics_collector \<Rightarrow> metrics_collector" where
  "cleanup_old_history now max_age mc =
     mc\<lparr>session_history := filter (\<lambda>(_, h).
          case he_closed_at h of
            Some closed_at \<Rightarrow>
              (case duration_since now closed_at of Some a \<Rightarrow> \<not> a > max_age | None \<Rightarrow> True)
          | None \<Rightarrow> True) (session_history mc)\<rparr>"

section \<open>Snapshots\<close>

record metrics_snapshot =
  sn_timestamp :: time
  sn_metrics :: session_metrics
  sn_period :: duration

definition snapshot_new :: "time \<Rightarrow> session_metrics \<Rightarrow> duration \<Rightarrow> metrics_snapshot" where
  "snapshot_new now m period = \<lparr>sn_timestamp = now, sn_metrics = m, sn_period = period\<rparr>"

record metrics_rates =
  sessions_created_per_sec :: rat
  connections_per_sec :: rat
  usage_per_sec :: rat

text \<open>An empty period, for which the source gets infinities or NaN, has no rates.\<close>

definition get_rates :: "metrics_snapshot \<Rightarrow> metrics_rates option" where
  "get_rates sn =
     (let secs = of_nat (sn_period sn) / of_nat nanos_per_sec :: rat;
          m = sn_metrics sn
      in if secs = 0 then None
         else Some \<lparr>sessions_created_per_sec = of_nat (unat (total_sessions_created m)) / secs,
                    connections_per_sec =
                      of_nat (unat (successful_connections m + failed_connections m)) / secs,
                    usage_per_sec = of_nat (unat (total_usage_count m)) / secs\<rparr>)"

section \<open>Lemmas\<close>

text \<open>What each operation does to the counters that track the registry.\<close>

definition gauge :: "session_status \<Rightarrow> session_metrics \<Rightarrow> u32" where
  "gauge s m = (case s of Active \<Rightarrow> active_sessions m | Idle \<Rightarrow> idle_sessions m
     | Failed \<Rightarrow> failed_sessions m | _ \<Rightarrow> 0)"

definition gauged :: "session_status \<Rightarrow> bool" where
  "gauged s \<longleftrightarrow> s = Active \<or> s = Idle \<or> s = Failed"

lemma gauge_leave:
  "gauged g \<Longrightarrow> gauge g (leave_status s m) = (if s = g then saturating_sub1 (gauge g m) else gauge g m)"
  by (auto simp: gauge_def gauged_def leave_status_def split: session_status.splits)

lemma gauge_enter:
  "gauged g \<Longrightarrow> gauge g (enter_status s m) = (if s = g then gauge g m + 1 else gauge g m)"
  by (auto simp: gauge_def gauged_def enter_status_def Let_def split: session_status.splits)

lemma gauge_cong [simp]:
  "gauge g (update_connection_success_rate m) = gauge g m"
  "gauge g (update_reuse_rate h m) = gauge g m"
  "gauge g (update_averages l d m) = gauge g m"
  "gauge g (m\<lparr>total_sessions_created := a\<rparr>) = gauge g m"
  "gauge g (m\<lparr>transport_usage := tu\<rparr>) = gauge g m"
  "gauge g (m\<lparr>sessions_closed := a\<rparr>) = gauge g m"
  "gauge g (m\<lparr>total_usage_count := a\<rparr>) = gauge g m"
  "gauge g (m\<lparr>successful_connections := a\<rparr>) = gauge g m"
  "gauge g (m\<lparr>failed_connections := a\<rparr>) = gauge g m"
  by (simp_all add: gauge_def update_connection_success_rate_def update_reuse_rate_def
      update_averages_def Let_def split: session_status.splits)

lemma gauge_record [simp]:
  "gauge g (mc_metrics (record_session_created s mc)) = gauge g (mc_metrics mc)"
  "gauge g (mc_metrics (record_connection_success mc)) = gauge g (mc_metrics mc)"
  "gauge g (mc_metrics (record_connection_failure mc)) = gauge g (mc_metrics mc)"
  "gauge g (mc_metrics (record_session_usage i n mc)) = gauge g (mc_metrics mc)"
  "gauge g (mc_metrics (cleanup_old_history now d mc)) = gauge g (mc_metrics mc)"
  by (simp_all add: record_session_created_def record_connection_success_def
      record_connection_failure_def record_session_usage_def cleanup_old_history_def Let_def
      split: option.splits)

lemma gauge_status_change:
  "gauged g \<Longrightarrow> gauge g (mc_metrics (record_status_change s t mc)) =
     (let v = (if s = g then saturating_sub1 (gauge g (mc_metrics mc)) else gauge g (mc_metrics mc))
      in if t = g then v + 1 else v)"
  by (simp add: record_status_change_def gauge_enter gauge_leave)

lemma gauge_closed:
  "gauged g \<Longrightarrow> gauge g (mc_metrics (record_session_closed now s mc)) =
     (if sm_status s = g then saturating_sub1 (gauge g (mc_metrics mc)) else gauge g (mc_metrics mc))"
  by (simp add: record_session_closed_def gauge_leave Let_def split: option.splits)

text \<open>The net number of sessions created and not closed, in the arithmetic of the counters.\<close>

definition balance :: "session_metrics \<Rightarrow> u64" where
  "balance m = total_sessions_created m - sessions_closed m"

lemma balance_leave_enter [simp]:
  "balance (leave_status s m) = balance m" "balance (enter_status s m) = balance m"
  by (simp_all add: balance_def leave_status_def enter_status_def Let_def split: session_status.splits)

lemma balance_cong [simp]:
  "balance (update_connection_success_rate m) = balance m"
  "balance (update_reuse_rate h m) = balance m"
  "balance (update_averages l d m) = balance m"
  by (simp_all add: balance_def update_connection_success_rate_def update_reuse_rate_def
      update_averages_def Let_def)

lemma balance_record [simp]:
  "balance (mc_metrics (record_session_created s mc)) = balance (mc_metrics mc) + 1"
  "balance (mc_metrics (record_connection_success mc)) = balance (mc_metrics mc)"
  "balance (mc_metrics (record_connection_failure mc)) = balance (mc_metrics mc)"
  "balance (mc_metrics (record_session_usage i n mc)) = balance (mc_metrics mc)"
  "balance (mc_metrics (cleanup_old_history now d mc)) = balance (mc_metrics mc)"
  "balance (mc_metrics (record_status_change a b mc)) = balance (mc_metrics mc)"
  "balance (mc_metrics (record_session_closed now s mc)) = balance (mc_metrics mc) - 1"
  by (simp_all add: record_session_created_def record_connection_success_def
      record_connection_failure_def record_session_usage_def cleanup_old_history_def
      record_status_change_def record_session_closed_def Let_def split: option.splits)
    (simp_all add: balance_def)

section \<open>The sample window\<close>

lemma add_sample_window:
  assumes "0 < k"
  shows "add_sample k x (drop (length xs - k) xs) = drop (Suc (length xs) - k) (xs @ [x])"
proof (cases "length xs < k")
  case True
  then show ?thesis by (simp add: add_sample_def)
next
  case False
  then show ?thesis
    using assms by (simp add: add_sample_def Suc_diff_le tl_append2 tl_drop drop_Suc)
qed

lemma add_samples_window:
  "0 < k \<Longrightarrow> fold (add_sample k) ys (drop (length xs - k) xs) = drop (length (xs @ ys) - k) (xs @ ys)"
proof (induction ys arbitrary: xs)
  case (Cons y ys)
  from Cons.IH [OF Cons.prems, of "xs @ [y]"] show ?case
    by (simp add: add_sample_window [OF Cons.prems])
qed simp

section \<open>Properties\<close>

text \<open>The averages are taken over a sliding window: after any number of samples the collector
  keeps exactly the last \<open>max_samples\<close> of them in order, and the average it reports lies between the
  smallest and the largest of these.\<close>

theorem average_over_window:
  assumes "0 < k" and "xs \<noteq> []"
  defines "w \<equiv> fold (add_sample k) xs []"
  shows "w = drop (length xs - k) xs \<and>
    Min (set w) \<le> avg_session_lifetime (update_averages w d m) \<and>
    avg_session_lifetime (update_averages w d m) \<le> Max (set w)"
proof -
  have w: "w = drop (length xs - k) xs"
    using add_samples_window [OF assms(1), of xs "[]"] by (simp add: w_def)
  have "length w = min k (length xs)"
    by (simp add: w)
  then have ne: "w \<noteq> []"
    using assms(1,2) by (auto simp: min_def split: if_splits)
  have avg: "avg_session_lifetime (update_averages w d m) = sum_list w div length w"
    using ne by (simp add: update_averages_def Let_def)
  have "sum_list (map (\<lambda>_. Min (set w)) w) \<le> sum_list (map (\<lambda>x. x) w)"
    by (rule sum_list_mono) simp
  then have "length w * Min (set w) \<le> sum_list w"
    by (simp add: sum_list_triv)
  then have lower: "Min (set w) \<le> sum_list w div length w"
    using ne by (simp add: less_eq_div_iff_mult_less_eq mult.commute)
  have "sum_list (map (\<lambda>x. x) w) \<le> sum_list (map (\<lambda>_. Max (set w)) w)"
    by (rule sum_list_mono) simp
  then have "sum_list w div length w \<le> (length w * Max (set w)) div length w"
    by (intro div_le_mono) (simp add: sum_list_triv)
  then have "sum_list w div length w \<le> Max (set w)"
    using ne by simp
  with lower show ?thesis
    unfolding avg using w by blast
qed

theorem average_over_window_witness:
  "fold (add_sample 2) [5, 7, 9] [] = [7, 9] \<and>
   avg_session_lifetime (update_averages [7, 9] [] session_metrics_default) \<le> 9"
proof -
  have w: "fold (add_sample 2) [5, 7, 9] [] = [7, 9]"
    by (simp add: add_sample_def)
  show ?thesis
    using average_over_window [of 2 "[5, 7, 9]" "[]" session_metrics_default] w
    unfolding w by simp
qed

end
