(* ===== verification/Manager.thy ===== *)
theory Manager
  imports Registry Pool Lifecycle Session_Metrics
begin

text \<open>
  \<open>crates/core/src/session/manager.rs\<close>: the session manager, which keeps the registry, the pool and the
  metrics in step. An operation returns its result and the state it leaves, so that a change made
  before an error is not lost in the model. Operations run one after another here; what the two-phase
  locking of \<open>register\<close> allows concurrently is in \<open>Registry\<close>, and status updates that interleave are in
  \<open>Manager_Race\<close>.
\<close>

section \<open>State\<close>

record manager_config =
  cfg_registry :: registry_config
  cfg_pool :: pool_config
  cfg_lifecycle :: lifecycle_config
  enable_metrics :: bool

definition manager_config_default :: manager_config where
  "manager_config_default =
     \<lparr>cfg_registry = registry_config_default, cfg_pool = pool_config_default,
      cfg_lifecycle = lifecycle_config_default, enable_metrics = True\<rparr>"

record manager =
  mgr_registry :: registry
  mgr_pool :: pool
  mgr_metrics :: "metrics_collector option"
  mgr_lifecycle :: lifecycle
  mgr_config :: manager_config

definition manager_new :: "manager_config \<Rightarrow> manager" where
  "manager_new c =
     \<lparr>mgr_registry = registry_new (cfg_registry c), mgr_pool = pool_new (cfg_pool c),
      mgr_metrics = (if enable_metrics c then Some collector_new else None),
      mgr_lifecycle = lifecycle_new (cfg_lifecycle c), mgr_config = c\<rparr>"

text \<open>\<open>if let Some(ref metrics) = self.metrics\<close>.\<close>

definition with_metrics :: "(metrics_collector \<Rightarrow> metrics_collector) \<Rightarrow> manager \<Rightarrow> manager" where
  "with_metrics f mg = mg\<lparr>mgr_metrics := map_option f (mgr_metrics mg)\<rparr>"

definition pool_remove :: "session_id \<Rightarrow> manager \<Rightarrow> manager" where
  "pool_remove i mg = mg\<lparr>mgr_pool := snd (remove_session i (mgr_pool mg))\<rparr>"

section \<open>Operations\<close>

definition create_session ::
    "time \<Rightarrow> session_id \<Rightarrow> string \<Rightarrow> transport_config \<Rightarrow> string list \<Rightarrow> string option \<Rightarrow> manager
     \<Rightarrow> (yuha_error + session_id) \<times> manager" where
  "create_session now fresh name tc tags description mg =
     (let m = metadata_new now fresh name tc tags description
      in case register (mgr_registry mg) m of
           Inl e \<Rightarrow> (Inl e, mg)
         | Inr (_, r) \<Rightarrow>
             (Inr (sm_id m), with_metrics (record_session_created m) (mg\<lparr>mgr_registry := r\<rparr>)))"

definition get_session :: "session_id \<Rightarrow> manager \<Rightarrow> session_metadata option" where
  "get_session i mg = reg_get (mgr_registry mg) i"

text \<open>The pool follows the status: an idle session is offered to it, a session that becomes active,
  fails or is closed leaves it.\<close>

definition repool :: "time \<Rightarrow> session_id \<Rightarrow> session_status \<Rightarrow> manager \<Rightarrow> manager" where
  "repool now i status mg =
     (case status of
        Idle \<Rightarrow>
          (case reg_get (mgr_registry mg) i of
             Some m \<Rightarrow> mg\<lparr>mgr_pool := snd (add_session now m (mgr_pool mg))\<rparr>
           | None \<Rightarrow> mg)
      | Active \<Rightarrow> pool_remove i mg
      | Failed \<Rightarrow> pool_remove i mg
      | Closed \<Rightarrow> pool_remove i mg
      | _ \<Rightarrow> mg)"

definition record_outcome ::
    "session_status \<Rightarrow> session_status \<Rightarrow> metrics_collector \<Rightarrow> metrics_collector" where
  "record_outcome old_status status mc =
     (let mc1 = record_status_change old_status status mc;
          was_connecting = (old_status = Connecting \<or> old_status = Reconnecting)
      in case status of
           Active \<Rightarrow> if was_connecting then record_connection_success mc1 else mc1
         | Failed \<Rightarrow> if was_connecting then record_connection_failure mc1 else mc1
         | _ \<Rightarrow> mc1)"

definition update_session_status ::
    "(session_id \<Rightarrow> string) \<Rightarrow> time \<Rightarrow> session_id \<Rightarrow> session_status \<Rightarrow> manager
     \<Rightarrow> (yuha_error + unit) \<times> manager" where
  "update_session_status show_id now i status mg =
     (case reg_get (mgr_registry mg) i of
        None \<Rightarrow> (Inl (not_found show_id i), mg)
      | Some m \<Rightarrow>
          (case update_status show_id now (mgr_registry mg) i status of
             Inl e \<Rightarrow> (Inl e, mg)
           | Inr r \<Rightarrow>
               (Inr (), with_metrics (record_outcome (sm_status m) status)
                          (repool now i status (mg\<lparr>mgr_registry := r\<rparr>)))))"

definition use_session ::
    "(session_id \<Rightarrow> string) \<Rightarrow> time \<Rightarrow> session_id \<Rightarrow> manager \<Rightarrow> (yuha_error + unit) \<times> manager" where
  "use_session show_id now i mg =
     (case reg_mark_used show_id now (mgr_registry mg) i of
        Inl e \<Rightarrow> (Inl e, mg)
      | Inr r \<Rightarrow>
          let mg1 = mg\<lparr>mgr_registry := r\<rparr>;
              mg2 = (case reg_get r i of
                       Some m \<Rightarrow> with_metrics (record_session_usage i (sm_use_count m)) mg1
                     | None \<Rightarrow> mg1)
          in case reg_get (mgr_registry mg2) i of
               Some m \<Rightarrow>
                 if sm_status m = Idle then update_session_status show_id now i Active mg2
                 else (Inr (), mg2)
             | None \<Rightarrow> (Inr (), mg2))"

text \<open>Taking a session out of the registry, with its closing metrics.\<close>

definition forget_session :: "time \<Rightarrow> session_id \<Rightarrow> manager \<Rightarrow> manager" where
  "forget_session now i mg =
     (case unregister (mgr_registry mg) i of
        (Some m, r) \<Rightarrow> with_metrics (record_session_closed now m) (mg\<lparr>mgr_registry := r\<rparr>)
      | (None, r) \<Rightarrow> mg\<lparr>mgr_registry := r\<rparr>)"

definition close_session ::
    "(session_id \<Rightarrow> string) \<Rightarrow> time \<Rightarrow> session_id \<Rightarrow> manager \<Rightarrow> (yuha_error + unit) \<times> manager" where
  "close_session show_id now i mg =
     (case update_session_status show_id now i Closing mg of
        (Inl e, mg1) \<Rightarrow> (Inl e, mg1)
      | (Inr _, mg1) \<Rightarrow> (Inr (), forget_session now i (pool_remove i mg1)))"

definition find_reusable_session :: "time \<Rightarrow> string \<Rightarrow> manager \<Rightarrow> session_id option" where
  "find_reusable_session now key mg = find_session now key (mgr_pool mg)"

definition connect_or_create_session ::
    "(session_id \<Rightarrow> string) \<Rightarrow> time \<Rightarrow> session_id \<Rightarrow> string \<Rightarrow> transport_config \<Rightarrow> manager
     \<Rightarrow> (yuha_error + session_id \<times> bool) \<times> manager" where
  "connect_or_create_session show_id now fresh name tc mg =
     (case find_reusable_session now (connection_key tc) mg of
        Some i \<Rightarrow>
          (case use_session show_id now i mg of
             (Inl e, mg1) \<Rightarrow> (Inl e, mg1)
           | (Inr _, mg1) \<Rightarrow> (Inr (i, True), mg1))
      | None \<Rightarrow>
          (case create_session now fresh name tc [] None mg of
             (Inl e, mg1) \<Rightarrow> (Inl e, mg1)
           | (Inr i, mg1) \<Rightarrow> (Inr (i, False), mg1)))"

definition list_sessions :: "manager \<Rightarrow> session_metadata list" where
  "list_sessions mg = list_all_sessions (mgr_registry mg)"

definition list_sessions_by_status :: "session_status \<Rightarrow> manager \<Rightarrow> session_metadata list" where
  "list_sessions_by_status s mg = list_by_status (mgr_registry mg) s"

definition list_sessions_by_tags :: "string list \<Rightarrow> manager \<Rightarrow> session_metadata list" where
  "list_sessions_by_tags tags mg = list_by_tags (mgr_registry mg) tags"

definition mgr_get_stats :: "manager \<Rightarrow> session_metrics option" where
  "mgr_get_stats mg = map_option get_metrics (mgr_metrics mg)"

text \<open>The body of the cleanup callback for one session of the listing it starts with.\<close>

definition expire_one ::
    "time \<Rightarrow> session_metadata \<Rightarrow> session_id list \<times> manager \<Rightarrow> session_id list \<times> manager" where
  "expire_one now s acc =
     (let (expired, mg) = acc
      in if should_expire_session (lc_config (mgr_lifecycle mg)) now s
         then (expired @ [sm_id s],
               case unregister (mgr_registry mg) (sm_id s) of
                 (Some m, r) \<Rightarrow>
                   with_metrics (record_session_closed now m)
                     (pool_remove (sm_id s) (mg\<lparr>mgr_registry := r\<rparr>))
               | (None, r) \<Rightarrow> mg\<lparr>mgr_registry := r\<rparr>)
         else acc)"

definition max_history_age :: duration where
  "max_history_age = from_secs 86400"

definition cleanup_pass :: "time \<Rightarrow> manager \<Rightarrow> session_id list \<times> manager" where
  "cleanup_pass now mg =
     (let (expired, mg1) = fold (expire_one now) (list_all_sessions (mgr_registry mg)) ([], mg);
          (expired_pooled, p) =
            cleanup_expired now (max_idle_time (lc_config (mgr_lifecycle mg1))) (mgr_pool mg1);
          mg2 = with_metrics (cleanup_old_history now max_history_age) (mg1\<lparr>mgr_pool := p\<rparr>)
      in (expired @ expired_pooled, mg2))"

definition mgr_start_cleanup_task :: "manager \<Rightarrow> bool \<times> manager" where
  "mgr_start_cleanup_task mg =
     (let (spawned, l) = lc_start_cleanup (mgr_lifecycle mg) in (spawned, mg\<lparr>mgr_lifecycle := l\<rparr>))"

definition mgr_stop_cleanup_task :: "manager \<Rightarrow> manager" where
  "mgr_stop_cleanup_task mg = mg\<lparr>mgr_lifecycle := lc_stop_cleanup (mgr_lifecycle mg)\<rparr>"

definition session_count :: "manager \<Rightarrow> usize" where
  "session_count mg = reg_count (mgr_registry mg)"

definition get_pool_stats :: "manager \<Rightarrow> pool_stats" where
  "get_pool_stats mg = pool_get_stats (mgr_pool mg)"

definition session_exists :: "session_id \<Rightarrow> manager \<Rightarrow> bool" where
  "session_exists i mg = reg_exists (mgr_registry mg) i"

definition update_session_metadata ::
    "(session_id \<Rightarrow> string) \<Rightarrow> session_id \<Rightarrow> session_metadata \<Rightarrow> manager
     \<Rightarrow> (yuha_error + unit) \<times> manager" where
  "update_session_metadata show_id i m mg =
     (case reg_update show_id (mgr_registry mg) i m of
        Inl e \<Rightarrow> (Inl e, mg)
      | Inr r \<Rightarrow> (Inr (), mg\<lparr>mgr_registry := r\<rparr>))"

section \<open>The invariant\<close>

definition registered :: "manager \<Rightarrow> session_id set" where
  "registered mg = {i. reg_get (mgr_registry mg) i \<noteq> None}"

definition has_status :: "session_status \<Rightarrow> session_metadata \<Rightarrow> bool" where
  "has_status s m \<longleftrightarrow> sm_status m = s"

text \<open>The collector counts what is in the registry: sessions created minus sessions closed is the number
  registered and, where no replacement of metadata has changed a status (\<open>kept\<close>), its three gauges are the
  numbers of active, idle and failed sessions.\<close>

definition counts :: "bool \<Rightarrow> registry \<Rightarrow> metrics_collector \<Rightarrow> bool" where
  "counts kept r mc \<longleftrightarrow>
     (kept \<longrightarrow> (\<forall>g. gauged g \<longrightarrow> unat (gauge g (mc_metrics mc)) = tally (has_status g) r)) \<and>
     balance (mc_metrics mc) = of_nat (length (sessions r))"

definition registry_sound :: "registry_config \<Rightarrow> registry \<Rightarrow> bool" where
  "registry_sound c r \<longleftrightarrow>
     registry_wf r \<and> reg_config r = c \<and> length (sessions r) \<le> unat (max_sessions c)"

definition manager_inv :: "bool \<Rightarrow> manager_config \<Rightarrow> manager \<Rightarrow> bool" where
  "manager_inv kept c mg \<longleftrightarrow>
     mgr_config mg = c \<and> lc_config (mgr_lifecycle mg) = cfg_lifecycle c \<and>
     registry_sound (cfg_registry c) (mgr_registry mg) \<and>
     reuse.within (mgr_pool mg) (registered mg) \<and>
     (mgr_metrics mg = None) = (\<not> enable_metrics c) \<and>
     (\<forall>mc. mgr_metrics mg = Some mc \<longrightarrow> counts kept (mgr_registry mg) mc)"

lemma manager_invD:
  assumes "manager_inv kept c mg"
  shows "registry_sound (cfg_registry c) (mgr_registry mg)"
    and "reuse.within (mgr_pool mg) (registered mg)"
    and "mgr_metrics mg = Some mc \<Longrightarrow> counts kept (mgr_registry mg) mc"
    and "lc_config (mgr_lifecycle mg) = cfg_lifecycle c"
  using assms by (simp_all add: manager_inv_def)

lemma registry_soundD:
  assumes "registry_sound c r"
  shows "registry_wf r" and "hm_ok (sessions r)" and "tally P r < 2 ^ LENGTH(32)"
  using assms tally_bound [of r "max_sessions c" P] by (simp_all add: registry_sound_def registry_wfD)

text \<open>Rebuilding the invariant after a step: the registry, the pool and the metrics separately.\<close>

lemma manager_invI:
  assumes "manager_inv kept c mg" and "mgr_config mg' = mgr_config mg" and "mgr_lifecycle mg' = mgr_lifecycle mg"
    and "registry_sound (cfg_registry c) (mgr_registry mg')"
    and "reuse.within (mgr_pool mg') (registered mg')"
    and "mgr_metrics mg' = map_option f (mgr_metrics mg)"
    and "\<And>mc. mgr_metrics mg = Some mc \<Longrightarrow> counts kept (mgr_registry mg') (f mc)"
  shows "manager_inv kept c mg'"
  using assms by (auto simp: manager_inv_def)

lemma manager_inv_sameI:
  assumes "manager_inv kept c mg" and "mgr_config mg' = mgr_config mg" and "mgr_lifecycle mg' = mgr_lifecycle mg"
    and "registry_sound (cfg_registry c) (mgr_registry mg')"
    and "reuse.within (mgr_pool mg') (registered mg')"
    and "mgr_metrics mg' = mgr_metrics mg"
    and "\<And>mc. mgr_metrics mg = Some mc \<Longrightarrow> counts kept (mgr_registry mg') mc"
  shows "manager_inv kept c mg'"
  using assms by (auto simp: manager_inv_def)

lemma with_metrics_simps [simp]:
  "mgr_registry (with_metrics f mg) = mgr_registry mg" "mgr_pool (with_metrics f mg) = mgr_pool mg"
  "mgr_metrics (with_metrics f mg) = map_option f (mgr_metrics mg)"
  "mgr_lifecycle (with_metrics f mg) = mgr_lifecycle mg" "mgr_config (with_metrics f mg) = mgr_config mg"
  "registered (with_metrics f mg) = registered mg"
  by (simp_all add: with_metrics_def registered_def)

lemma pool_remove_simps [simp]:
  "mgr_registry (pool_remove i mg) = mgr_registry mg"
  "mgr_pool (pool_remove i mg) = snd (remove_session i (mgr_pool mg))"
  "mgr_metrics (pool_remove i mg) = mgr_metrics mg"
  "mgr_lifecycle (pool_remove i mg) = mgr_lifecycle mg" "mgr_config (pool_remove i mg) = mgr_config mg"
  "registered (pool_remove i mg) = registered mg"
  by (simp_all add: pool_remove_def registered_def)

lemma repool_simps [simp]:
  "mgr_registry (repool now i s mg) = mgr_registry mg"
  "mgr_metrics (repool now i s mg) = mgr_metrics mg"
  "mgr_lifecycle (repool now i s mg) = mgr_lifecycle mg" "mgr_config (repool now i s mg) = mgr_config mg"
  "registered (repool now i s mg) = registered mg"
  by (auto simp: repool_def registered_def split: session_status.splits option.splits)

subsection \<open>Counting\<close>

lemma counts_cong:
  "counts kept r mc \<Longrightarrow> (\<And>g. gauge g (mc_metrics mc') = gauge g (mc_metrics mc)) \<Longrightarrow>
   balance (mc_metrics mc') = balance (mc_metrics mc) \<Longrightarrow> counts kept r mc'"
  by (simp add: counts_def)

lemma gauged_not_connecting: "gauged g \<Longrightarrow> \<not> has_status g (started m) \<or> sm_status m \<noteq> Creating"
  by (auto simp: gauged_def has_status_def started_def)

lemma counts_created:
  assumes "registry_sound c r" and "reg_get r (sm_id m) = None" and "sm_status m = Creating"
    and "counts kept r mc"
  shows "counts kept (register_commit r m) (record_session_created m mc)"
proof -
  have "tally (has_status g) (register_commit r m) = tally (has_status g) r" if "gauged g" for g
    using store.tally_enter [OF registry_soundD(1) [OF assms(1)] assms(2), of "has_status g"]
      gauged_not_connecting [OF that, of m] assms(3) by simp
  moreover have "length (sessions (register_commit r m)) = Suc (length (sessions r))"
    using assms(1,2) by (simp add: sessions_commit hm.length_put_new registry_soundD reg_get_def)
  ultimately show ?thesis
    using assms(4) by (simp add: counts_def)
qed

lemma counts_modify:
  assumes "registry_sound c r" and "registry_sound c r'" and "reg_get r i = Some m"
    and "reg_modify show_id f r i = Inr r'" and "counts kept r mc"
  shows "counts kept r' (record_status_change (sm_status m) (sm_status (f m)) mc)"
proof -
  have "unat (gauge g (mc_metrics (record_status_change (sm_status m) (sm_status (f m)) mc)))
      = tally (has_status g) r'" if g: "gauged g" and kept: kept for g
  proof -
    have "session_store.follows tally (gauge g (mc_metrics mc)) (has_status g) r"
      using assms(5) g kept by (simp add: store.follows_def counts_def)
    from store.follows_change [OF registry_soundD(1) [OF assms(1)] assms(3,4) this registry_soundD(3) [OF assms(2)]]
    show ?thesis
      using g by (auto simp: store.follows_def gauge_status_change Let_def has_status_def split: if_splits)
  qed
  moreover have "length (sessions r') = length (sessions r)"
    using length_modify [OF registry_soundD(2) [OF assms(1)] assms(4)] by simp
  ultimately show ?thesis
    using assms(5) by (simp add: counts_def)
qed

lemma counts_closed:
  assumes "registry_sound c r" and "reg_get r i = Some m" and "counts kept r mc"
  shows "counts kept (snd (unregister r i)) (record_session_closed now m mc)"
proof -
  have "unat (gauge g (mc_metrics (record_session_closed now m mc))) = tally (has_status g) (snd (unregister r i))"
    if g: "gauged g" and kept: kept for g
  proof -
    have "session_store.follows tally (gauge g (mc_metrics mc)) (has_status g) r"
      using assms(3) g kept by (simp add: store.follows_def counts_def)
    from store.follows_withdraw [OF registry_soundD(1) [OF assms(1)] assms(2) this]
    show ?thesis
      using g by (simp add: store.follows_def gauge_closed has_status_def)
  qed
  moreover have "Suc (length (sessions (snd (unregister r i)))) = length (sessions r)"
    using assms(1,2) by (simp add: sessions_unregister hm.length_del registry_soundD reg_get_def)
  then have "of_nat (length (sessions (snd (unregister r i)))) = (of_nat (length (sessions r)) - 1 :: u64)"
    by (metis add_diff_cancel_left' of_nat_Suc)
  ultimately show ?thesis
    using assms(3) by (simp add: counts_def)
qed

lemma counts_outcome:
  "counts kept r (record_status_change a b mc) \<Longrightarrow> counts kept r (record_outcome a b mc)"
  by (auto simp: record_outcome_def Let_def split: session_status.splits intro: counts_cong)

subsection \<open>Preservation\<close>

lemma sound_modify:
  assumes "registry_sound c r" and "reg_modify show_id f r i = Inr r'"
    and "\<And>m. sm_id (f m) = sm_id m \<and> sm_name (f m) = sm_name m \<and> session_key (f m) = session_key m"
  shows "registry_sound c r'"
  using assms registry_wf_modify [OF _ assms(2,3)] length_modify [OF registry_soundD(2) [OF assms(1)] assms(2)]
  by (simp add: registry_sound_def)

lemma sound_unregister: "registry_sound c r \<Longrightarrow> registry_sound c (snd (unregister r i))"
  using hm.length_del_le [of "sessions r" i]
  by (auto simp: registry_sound_def registry_wf_unregister sessions_unregister registry_wfD)

lemma registered_modify:
  "reg_modify show_id f r i = Inr r' \<Longrightarrow> reg_get r' j = None \<longleftrightarrow> reg_get r j = None"
  by (auto simp: reg_modify_Inr reg_get_def split: if_splits)

lemma create_inv:
  assumes inv: "manager_inv kept c mg" and fresh: "reg_get (mgr_registry mg) i = None"
  shows "manager_inv kept c (snd (create_session now i name tc tags d mg))"
proof (cases "register_check (mgr_registry mg) (metadata_new now i name tc tags d)")
  case (Inl e)
  with inv show ?thesis
    by (simp add: create_session_def register_def)
next
  case (Inr u)
  let ?m = "metadata_new now i name tc tags d" and ?r = "mgr_registry mg"
  have room: "length (sessions ?r) < unat (max_sessions (reg_config ?r))"
    using Inr register_check_limit [of ?r ?m] by simp
  have new: "snd (create_session now i name tc tags d mg)
      = with_metrics (record_session_created ?m) (mg\<lparr>mgr_registry := register_commit ?r ?m\<rparr>)"
    using Inr by (simp add: create_session_def register_def Let_def)
  have sound: "registry_sound (cfg_registry c) (register_commit ?r ?m)"
    using manager_invD(1) [OF inv] room fresh
    by (auto simp: registry_sound_def registry_wf_commit sessions_commit hm.length_put_new registry_wfD reg_get_def)
  have regd: "registered (mg\<lparr>mgr_registry := register_commit ?r ?m\<rparr>) = insert i (registered mg)"
    by (auto simp: registered_def store.lookup_enter)
  show ?thesis
    unfolding new
    by (rule manager_invI [OF inv, where f = "record_session_created ?m"])
      (use inv fresh manager_invD [OF inv] in \<open>simp_all add: sound regd reuse.within_more
          counts_created [OF manager_invD(1) [OF inv]]\<close>)
qed

lemma status_step:
  assumes "reg_get (mgr_registry mg) i = Some m"
    and "update_status show_id now (mgr_registry mg) i s = Inr r"
  shows "update_session_status show_id now i s mg = (Inr (),
    with_metrics (record_outcome (sm_status m) s) (repool now i s (mg\<lparr>mgr_registry := r\<rparr>)))"
  using assms by (simp add: update_session_status_def)

lemma update_status_total:
  "reg_get r i = Some m \<Longrightarrow> \<exists>r'. update_status show_id now r i s = Inr r'"
  by (simp add: update_status_def reg_modify_def reg_get_def)

lemma repool_within:
  "reuse.within (mgr_pool mg) known \<Longrightarrow> (\<And>j m. reg_get (mgr_registry mg) j = Some m \<Longrightarrow> sm_id m \<in> known) \<Longrightarrow>
   reuse.within (mgr_pool (repool now i s mg)) known"
  by (auto simp: repool_def reuse.within_add reuse.within_remove split: session_status.splits option.splits)

lemma status_inv:
  assumes inv: "manager_inv kept c mg"
  shows "manager_inv kept c (snd (update_session_status show_id now i s mg))"
proof (cases "reg_get (mgr_registry mg) i")
  case None
  with inv show ?thesis by (simp add: update_session_status_def)
next
  case (Some m)
  then obtain r where r: "update_status show_id now (mgr_registry mg) i s = Inr r"
    using update_status_total by blast
  have sound: "registry_sound (cfg_registry c) r"
    by (rule sound_modify [OF manager_invD(1) [OF inv] r [unfolded update_status_def]]) simp
  have same: "registered (mg\<lparr>mgr_registry := r\<rparr>) = registered mg"
    using registered_modify [OF r [unfolded update_status_def]] by (simp add: registered_def)
  have within: "reuse.within (mgr_pool (repool now i s (mg\<lparr>mgr_registry := r\<rparr>))) (registered mg)"
  proof (rule repool_within)
    show "sm_id m' \<in> registered mg" if "reg_get (mgr_registry (mg\<lparr>mgr_registry := r\<rparr>)) j = Some m'" for j m'
      using that registry_wfD(2) [OF registry_soundD(1) [OF sound]] same
      by (auto simp: registered_def reg_get_def)
  qed (use manager_invD(2) [OF inv] in simp)
  show ?thesis
    unfolding status_step [OF Some r] snd_conv
  proof (rule manager_invI [OF inv, where f = "record_outcome (sm_status m) s"])
    show "counts kept (mgr_registry (with_metrics (record_outcome (sm_status m) s)
        (repool now i s (mg\<lparr>mgr_registry := r\<rparr>)))) (record_outcome (sm_status m) s mc)"
      if "mgr_metrics mg = Some mc" for mc
      using counts_modify [OF manager_invD(1) [OF inv] sound Some r [unfolded update_status_def]
          manager_invD(3) [OF inv that]]
      by (simp add: counts_outcome)
  qed (use sound within same in simp_all)
qed

text \<open>An in-place change that keeps the status, with metrics that do not touch the counts.\<close>

lemma quiet_inv:
  assumes inv: "manager_inv kept c mg" and "reg_modify show_id f (mgr_registry mg) i = Inr r"
    and keep: "\<And>m. sm_id (f m) = sm_id m \<and> sm_name (f m) = sm_name m \<and> session_key (f m) = session_key m \<and>
      sm_status (f m) = sm_status m"
  shows "manager_inv kept c (mg\<lparr>mgr_registry := r\<rparr>)"
proof (rule manager_inv_sameI [OF inv])
  show sound: "registry_sound (cfg_registry c) (mgr_registry (mg\<lparr>mgr_registry := r\<rparr>))"
    using sound_modify [OF manager_invD(1) [OF inv] assms(2)] keep by simp
  show "reuse.within (mgr_pool (mg\<lparr>mgr_registry := r\<rparr>)) (registered (mg\<lparr>mgr_registry := r\<rparr>))"
    using manager_invD(2) [OF inv] registered_modify [OF assms(2)] by (simp add: registered_def)
  fix mc assume "mgr_metrics mg = Some mc"
  then have c: "counts kept (mgr_registry mg) mc"
    by (rule manager_invD(3) [OF inv])
  obtain m where m: "reg_get (mgr_registry mg) i = Some m"
    using assms(2) by (auto simp: reg_modify_Inr reg_get_def)
  have "tally P r = tally P (mgr_registry mg)" if "P (f m) = P m" for P
    using store.tally_change [OF registry_soundD(1) [OF manager_invD(1) [OF inv]] m assms(2), of P] that
    by (simp split: if_splits)
  then show "counts kept (mgr_registry (mg\<lparr>mgr_registry := r\<rparr>)) mc"
    using c keep length_modify [OF registry_soundD(2) [OF manager_invD(1) [OF inv]] assms(2)]
    by (simp add: counts_def has_status_def)
qed simp_all

lemma usage_inv: "manager_inv kept c mg \<Longrightarrow> manager_inv kept c (with_metrics (record_session_usage i n) mg)"
  by (rule manager_invI [where f = "record_session_usage i n"])
    (auto simp: manager_inv_def intro: counts_cong)

lemma history_inv: "manager_inv kept c mg \<Longrightarrow> manager_inv kept c (with_metrics (cleanup_old_history now d) mg)"
  by (rule manager_invI [where f = "cleanup_old_history now d"])
    (auto simp: manager_inv_def intro: counts_cong)

lemma use_inv:
  assumes inv: "manager_inv kept c mg"
  shows "manager_inv kept c (snd (use_session show_id now i mg))"
proof (cases "reg_mark_used show_id now (mgr_registry mg) i")
  case (Inl e)
  with inv show ?thesis by (simp add: use_session_def)
next
  case (Inr r)
  have "manager_inv kept c (mg\<lparr>mgr_registry := r\<rparr>)"
    by (rule quiet_inv [OF inv Inr [unfolded reg_mark_used_def]]) simp
  with Inr show ?thesis
    by (auto simp: use_session_def Let_def usage_inv status_inv split: option.splits)
qed

lemma forget_inv:
  assumes inv: "manager_inv kept c mg"
  shows "manager_inv kept c (forget_session now i (pool_remove i mg))"
proof (cases "reg_get (mgr_registry mg) i")
  case None
  then have "unregister (mgr_registry mg) i = (None, mgr_registry mg)"
    by (simp add: unregister_absent reg_get_def)
  moreover have "manager_inv kept c (pool_remove i mg)"
    by (rule manager_inv_sameI [OF inv])
      (use manager_invD [OF inv] in \<open>simp_all add: reuse.within_remove\<close>)
  ultimately show ?thesis
    by (simp add: forget_session_def pool_remove_def)
next
  case (Some m)
  have new: "forget_session now i (pool_remove i mg) = with_metrics (record_session_closed now m)
      ((pool_remove i mg)\<lparr>mgr_registry := snd (unregister (mgr_registry mg) i)\<rparr>)"
    using Some unregister_fst [of "mgr_registry mg" i]
    by (simp add: forget_session_def reg_get_def split: prod.splits option.splits) auto
  show ?thesis
    unfolding new
  proof (rule manager_invI [OF inv, where f = "record_session_closed now m"])
    have "registered ((pool_remove i mg)\<lparr>mgr_registry := snd (unregister (mgr_registry mg) i)\<rparr>)
        = registered mg - {i}"
      by (auto simp: registered_def store.lookup_withdraw)
    then show "reuse.within (mgr_pool (with_metrics (record_session_closed now m)
        ((pool_remove i mg)\<lparr>mgr_registry := snd (unregister (mgr_registry mg) i)\<rparr>)))
      (registered (with_metrics (record_session_closed now m)
        ((pool_remove i mg)\<lparr>mgr_registry := snd (unregister (mgr_registry mg) i)\<rparr>)))"
      using reuse.within_forget [OF manager_invD(2) [OF inv]] by simp
  qed (use manager_invD [OF inv] counts_closed [OF _ Some] in \<open>simp_all add: sound_unregister\<close>)
qed

lemma close_inv:
  assumes inv: "manager_inv kept c mg"
  shows "manager_inv kept c (snd (close_session show_id now i mg))"
proof -
  have "manager_inv kept c (snd (update_session_status show_id now i Closing mg))"
    using inv by (rule status_inv)
  then show ?thesis
    by (auto simp: close_session_def forget_inv split: prod.splits sum.splits)
qed

lemma connect_inv:
  assumes inv: "manager_inv kept c mg" and fresh: "reg_get (mgr_registry mg) fresh = None"
  shows "manager_inv kept c (snd (connect_or_create_session show_id now fresh name tc mg))"
  using use_inv [OF inv] create_inv [OF inv fresh]
  by (auto simp: connect_or_create_session_def split: option.splits prod.splits sum.splits)
    (metis snd_conv)+

lemma expire_one_eq:
  "snd (expire_one now s acc) =
   (if should_expire_session (lc_config (mgr_lifecycle (snd acc))) now s \<and> sm_id s \<in> registered (snd acc)
    then forget_session now (sm_id s) (pool_remove (sm_id s) (snd acc)) else snd acc)"
  using unregister_fst [of "mgr_registry (snd acc)" "sm_id s"]
  by (auto simp: expire_one_def forget_session_def pool_remove_def registered_def reg_get_def Let_def
      unregister_absent split: prod.splits option.splits)

lemma expire_inv: "manager_inv kept c (snd acc) \<Longrightarrow> manager_inv kept c (snd (expire_one now s acc))"
  by (simp add: expire_one_eq forget_inv)

lemma expires_inv: "manager_inv kept c (snd acc) \<Longrightarrow> manager_inv kept c (snd (fold (expire_one now) ss acc))"
  by (induction ss arbitrary: acc) (simp_all add: expire_inv)

lemma pool_cleanup_inv:
  assumes "manager_inv kept c mg"
  shows "manager_inv kept c (mg\<lparr>mgr_pool := snd (cleanup_expired now d (mgr_pool mg))\<rparr>)"
  by (rule manager_inv_sameI [OF assms])
    (use manager_invD [OF assms] in \<open>simp_all add: registered_def reuse.within_expire\<close>)

lemma cleanup_inv:
  assumes "manager_inv kept c mg"
  shows "manager_inv kept c (snd (cleanup_pass now mg))"
  using expires_inv [of kept c "([], mg)" now "list_all_sessions (mgr_registry mg)"] assms
  by (auto simp: cleanup_pass_def Let_def split: prod.splits intro!: history_inv)
    (metis pool_cleanup_inv snd_conv)

section \<open>Runs\<close>

text \<open>
  The operations of the manager in any order, one after another. The metadata of a session may be replaced by
  any other; with \<open>kept\<close>, only by metadata of the same status.
\<close>

inductive manager_run :: "bool \<Rightarrow> manager_config \<Rightarrow> manager \<Rightarrow> bool" for kept c where
  mr_new: "manager_run kept c (manager_new c)"
| mr_create: "manager_run kept c mg \<Longrightarrow> \<not> session_exists i mg \<Longrightarrow>
    manager_run kept c (snd (create_session now i name tc tags d mg))"
| mr_status: "manager_run kept c mg \<Longrightarrow> manager_run kept c (snd (update_session_status show_id now i s mg))"
| mr_use: "manager_run kept c mg \<Longrightarrow> manager_run kept c (snd (use_session show_id now i mg))"
| mr_close: "manager_run kept c mg \<Longrightarrow> manager_run kept c (snd (close_session show_id now i mg))"
| mr_connect: "manager_run kept c mg \<Longrightarrow> \<not> session_exists fresh mg \<Longrightarrow>
    manager_run kept c (snd (connect_or_create_session show_id now fresh name tc mg))"
| mr_cleanup: "manager_run kept c mg \<Longrightarrow> manager_run kept c (snd (cleanup_pass now mg))"
| mr_start: "manager_run kept c mg \<Longrightarrow> manager_run kept c (snd (mgr_start_cleanup_task mg))"
| mr_stop: "manager_run kept c mg \<Longrightarrow> manager_run kept c (mgr_stop_cleanup_task mg)"
| mr_metadata: "manager_run kept c mg \<Longrightarrow>
    (\<And>old. kept \<Longrightarrow> get_session i mg = Some old \<Longrightarrow> sm_status m = sm_status old) \<Longrightarrow>
    manager_run kept c (snd (update_session_metadata show_id i m mg))"

lemma session_exists_iff: "session_exists i mg \<longleftrightarrow> reg_get (mgr_registry mg) i \<noteq> None"
  by (simp add: session_exists_def reg_exists_def reg_get_def)

lemma metadata_inv:
  assumes inv: "manager_inv kept c mg"
    and st: "\<And>old. kept \<Longrightarrow> get_session i mg = Some old \<Longrightarrow> sm_status m = sm_status old"
  shows "manager_inv kept c (snd (update_session_metadata show_id i m mg))"
proof (cases "reg_update show_id (mgr_registry mg) i m")
  case (Inl e)
  with inv show ?thesis by (simp add: update_session_metadata_def)
next
  case (Inr r)
  then have s: "sessions r = hm_insert i m (sessions (mgr_registry mg))"
    by (auto simp: reg_update_def Let_def split: if_splits option.splits)
  obtain old where old: "hm_get (sessions (mgr_registry mg)) i = Some old"
    using Inr by (auto simp: reg_update_def Let_def split: if_splits option.splits)
  note sd = registry_soundD [OF manager_invD(1) [OF inv]]
  have sound: "registry_sound (cfg_registry c) r"
    using registry_wf_update [OF sd(1) Inr] length_update [OF sd(2) Inr] manager_invD(1) [OF inv]
    by (simp add: registry_sound_def)
  have "tally (has_status g) r = tally (has_status g) (mgr_registry mg)" if kept for g
    using hm.count_put_old [OF sd(2) old, of "has_status g" m] st [OF that, of old] old
    by (simp add: tally_def s has_status_def get_session_def reg_get_def split: if_splits)
  then have c: "counts kept r mc" if "mgr_metrics mg = Some mc" for mc
    using manager_invD(3) [OF inv that] length_update [OF sd(2) Inr] by (simp add: counts_def)
  have regd: "registered (mg\<lparr>mgr_registry := r\<rparr>) = registered mg"
    using old by (auto simp: registered_def reg_get_def s)
  show ?thesis
    using Inr sound manager_invD(2) [OF inv]
    by (auto simp: update_session_metadata_def regd intro!: manager_inv_sameI [OF inv] c)
qed

lemma manager_inv_new: "manager_inv kept c (manager_new c)"
  by (auto simp: manager_inv_def manager_new_def lifecycle_new_def registry_sound_def registry_wf_new
      reuse.within_def pool_new_def pooled_ids_def counts_def collector_new_def gauge_def
      session_metrics_default_def balance_def tally_def entry_count_def split: session_status.splits)
    (simp_all add: registry_new_def)

lemma manager_run_inv: "manager_run kept c mg \<Longrightarrow> manager_inv kept c mg"
proof (induction rule: manager_run.induct)
  case mr_new
  show ?case by (rule manager_inv_new)
qed (simp_all add: create_inv status_inv use_inv close_inv connect_inv cleanup_inv metadata_inv
    session_exists_iff, auto simp: manager_inv_def mgr_start_cleanup_task_def mgr_stop_cleanup_task_def
    lc_start_cleanup_def lc_stop_cleanup_def registered_def Let_def)

section \<open>What the operations do\<close>

lemma count_by_status_tally: "count_by_status r s = tally (has_status s) r"
  by (simp add: count_by_status_def tally_def entry_count_def hm_values_def has_status_def [abs_def]
      filter_map comp_def case_prod_unfold)

lemma get_session_forget:
  "get_session j (forget_session now i mg) = (if j = i then None else get_session j mg)"
  using store.lookup_withdraw [of "mgr_registry mg" i j]
  by (auto simp: forget_session_def get_session_def split: prod.splits option.splits)

lemma get_session_simps [simp]:
  "get_session j (with_metrics f mg) = get_session j mg"
  "get_session j (pool_remove i mg) = get_session j mg"
  "get_session j (repool now i s mg) = get_session j mg"
  "get_session j (mg\<lparr>mgr_pool := p\<rparr>) = get_session j mg"
  by (simp_all add: get_session_def)

lemma get_session_status:
  "get_session j (snd (update_session_status show_id now i s mg)) =
   (if j = i then map_option (set_status now s) (get_session i mg) else get_session j mg)"
  by (auto simp: update_session_status_def get_session_def update_status_def reg_modify_def reg_get_def
      with_metrics_def repool_def pool_remove_def split: option.splits session_status.splits)

lemma status_result:
  "fst (update_session_status show_id now i s mg) =
   (if session_exists i mg then Inr () else Inl (not_found show_id i))"
  by (auto simp: update_session_status_def session_exists_iff update_status_def reg_modify_def reg_get_def
      split: option.splits)

lemma session_exists_get: "session_exists i mg \<longleftrightarrow> get_session i mg \<noteq> None"
  by (simp add: session_exists_iff get_session_def)

lemma registered_get: "i \<in> registered mg \<longleftrightarrow> get_session i mg \<noteq> None"
  by (simp add: registered_def get_session_def)

lemma forget_lifecycle [simp]: "mgr_lifecycle (forget_session now i mg) = mgr_lifecycle mg"
  by (simp add: forget_session_def split: prod.splits option.splits)

lemma get_session_created:
  "register_check (mgr_registry mg) (metadata_new now i name tc tags d) = Inr () \<Longrightarrow>
   get_session j (snd (create_session now i name tc tags d mg)) =
     (if j = i then Some (started (metadata_new now i name tc tags d)) else get_session j mg)"
  by (simp add: create_session_def register_def Let_def get_session_def store.lookup_enter)

lemma first_check: "register_check (mgr_registry (manager_new manager_config_default)) m = Inr ()"
  by (simp add: register_check_def manager_new_def registry_new_def manager_config_default_def
      registry_config_default_def)

lemma get_session_expire:
  assumes "lc_config (mgr_lifecycle (snd acc)) = lc"
  shows "get_session j (snd (expire_one now s acc)) =
      (if j = sm_id s \<and> should_expire_session lc now s then None else get_session j (snd acc)) \<and>
    lc_config (mgr_lifecycle (snd (expire_one now s acc))) = lc"
  using assms
  by (auto simp: expire_one_eq get_session_forget registered_get)

lemma get_session_expires:
  assumes "lc_config (mgr_lifecycle (snd acc)) = lc"
  shows "get_session j (snd (fold (expire_one now) ss acc)) =
      (if \<exists>s\<in>set ss. j = sm_id s \<and> should_expire_session lc now s then None
       else get_session j (snd acc)) \<and>
    lc_config (mgr_lifecycle (snd (fold (expire_one now) ss acc))) = lc"
  using assms
proof (induction ss arbitrary: acc)
  case (Cons s ss)
  from Cons.IH [OF conjunct2 [OF get_session_expire [OF Cons.prems, of j now s]]]
  show ?case
    using get_session_expire [OF Cons.prems, of j now s] by auto
qed simp

lemma expires_keep: "x \<in> set (fst acc) \<Longrightarrow> x \<in> set (fst (fold (expire_one now) ss acc))"
proof (induction ss arbitrary: acc)
  case (Cons s ss)
  have "x \<in> set (fst (expire_one now s acc))"
    using Cons.prems by (auto simp: expire_one_def Let_def split: prod.splits)
  then show ?case
    using Cons.IH by simp
qed simp

lemma expires_reported:
  assumes "lc_config (mgr_lifecycle (snd acc)) = lc" and "s \<in> set ss" and "should_expire_session lc now s"
  shows "sm_id s \<in> set (fst (fold (expire_one now) ss acc))"
  using assms
proof (induction ss arbitrary: acc)
  case (Cons t ss)
  show ?case
  proof (cases "s = t")
    case True
    then have "sm_id s \<in> set (fst (expire_one now t acc))"
      using Cons.prems by (auto simp: expire_one_def Let_def split: prod.splits)
    then show ?thesis
      by (simp add: expires_keep)
  next
    case False
    then show ?thesis
      using Cons get_session_expire [OF Cons.prems(1), of "sm_id s" now t] by simp
  qed
qed simp

text \<open>Whatever stays in the pool after its cleanup was pooled recently enough.\<close>

lemma cleanup_leaves_fresh:
  assumes "cleanup_expired now d p = (ids, q)" and "hm_get (pool_metadata q) j = Some e"
  shows "now \<le> ps_pooled_at e + d"
proof (rule ccontr)
  assume "\<not> now \<le> ps_pooled_at e + d"
  then have "is_expired now d e"
    by (simp add: is_expired_def duration_since_def)
  moreover have "hm_get (pool_metadata p) j = Some e"
    using assms by (auto simp: cleanup_expired_def Let_def metadata_removes split: if_splits)
  then have "(j, e) \<in> set (pool_metadata p)"
    by (simp add: hm_get_def map_of_SomeD)
  ultimately have "j \<in> set ids"
    using assms(1) by (force simp: cleanup_expired_def Let_def)
  moreover have "q = fold (\<lambda>i p. snd (remove_session i p)) ids p"
    using assms(1) by (auto simp: cleanup_expired_def Let_def)
  ultimately show False
    using assms(2) by (simp add: metadata_removes)
qed

text \<open>Two facts for users of the manager: its pool keeps its configuration, and a cleanup pass leaves
  only recently pooled sessions.\<close>

lemma pool_conf_ops [simp]:
  "pool_conf (snd (add_session now m p)) = pool_conf p"
  "pool_conf (snd (remove_session i p)) = pool_conf p"
  by (simp_all add: add_session_def remove_session_def split: option.split)

lemma pool_conf_removes [simp]:
  "pool_conf (fold (\<lambda>i p. snd (remove_session i p)) ids p) = pool_conf p"
  by (induction ids arbitrary: p) simp_all

lemma pool_conf_cleanup [simp]: "pool_conf (snd (cleanup_expired now d p)) = pool_conf p"
  by (simp add: cleanup_expired_def Let_def)

lemma pool_conf_status [simp]:
  "pool_conf (mgr_pool (snd (update_session_status show_id now i s mg))) = pool_conf (mgr_pool mg)"
  by (simp add: update_session_status_def repool_def split: option.split sum.split session_status.split)

lemma pool_conf_use [simp]:
  "pool_conf (mgr_pool (snd (use_session show_id now i mg))) = pool_conf (mgr_pool mg)"
  by (simp add: use_session_def Let_def split: option.split sum.split)

lemma pool_conf_create [simp]:
  "pool_conf (mgr_pool (snd (create_session now i name tc tags d mg))) = pool_conf (mgr_pool mg)"
  by (simp add: create_session_def Let_def split: sum.split prod.split)

lemma pool_conf_forget [simp]: "mgr_pool (forget_session now i mg) = mgr_pool mg"
  by (simp add: forget_session_def split: prod.splits option.splits)

lemma pool_conf_expires [simp]:
  "pool_conf (mgr_pool (snd (fold (expire_one now) ss acc))) = pool_conf (mgr_pool (snd acc))"
  by (induction ss arbitrary: acc) (simp_all add: expire_one_eq)

lemma manager_run_pool_conf: "manager_run kept c mg \<Longrightarrow> pool_conf (mgr_pool mg) = cfg_pool c"
  by (induction rule: manager_run.induct)
    (simp_all add: manager_new_def pool_new_def close_session_def connect_or_create_session_def cleanup_pass_def
      mgr_start_cleanup_task_def mgr_stop_cleanup_task_def update_session_metadata_def case_prod_unfold Let_def
      split: sum.split option.split)

lemma cleanup_pass_fresh:
  assumes "manager_run kept c mg"
    and "hm_get (pool_metadata (mgr_pool (snd (cleanup_pass now mg)))) j = Some e"
  shows "now \<le> ps_pooled_at e + max_idle_time (cfg_lifecycle c)"
proof -
  have "lc_config (mgr_lifecycle (snd (fold (expire_one now) (list_all_sessions (mgr_registry mg)) ([], mg))))
      = cfg_lifecycle c"
    using get_session_expires [of "([], mg)" "cfg_lifecycle c"] manager_invD(4) [OF manager_run_inv [OF assms(1)]]
    by simp
  then show ?thesis
    using assms(2) by (auto simp: cleanup_pass_def Let_def case_prod_unfold intro: cleanup_leaves_fresh [OF prod.collapse [symmetric]])
qed

section \<open>Properties\<close>

text \<open>C5. The session statistics are exact: after any sequence of operations, with metrics enabled, sessions
  created minus sessions closed is the number registered; and unless a replacement of metadata has changed a
  status (\<open>kept\<close>), the gauges for active, idle and failed sessions are the numbers of registered sessions with
  that status, none having saturated or wrapped.\<close>

theorem session_statistics_exact:
  assumes "manager_run kept c mg" and "mgr_get_stats mg = Some m"
  shows "total_sessions_created m - sessions_closed m = of_nat (session_count mg) \<and>
    (kept \<longrightarrow>
       unat (active_sessions m) = count_by_status (mgr_registry mg) Active \<and>
       unat (idle_sessions m) = count_by_status (mgr_registry mg) Idle \<and>
       unat (failed_sessions m) = count_by_status (mgr_registry mg) Failed)"
proof -
  obtain mc where "mgr_metrics mg = Some mc" and m: "m = mc_metrics mc"
    using assms(2) by (auto simp: mgr_get_stats_def get_metrics_def)
  then have counts: "counts kept (mgr_registry mg) mc"
    using manager_invD(3) [OF manager_run_inv [OF assms(1)]] by blast
  then have g: "\<And>g. kept \<Longrightarrow> gauged g \<Longrightarrow> unat (gauge g m) = count_by_status (mgr_registry mg) g"
    and b: "balance m = of_nat (length (sessions (mgr_registry mg)))"
    by (simp_all add: counts_def count_by_status_tally m)
  show ?thesis
    using g [of Active] g [of Idle] g [of Failed] b
    by (simp add: gauged_def gauge_def balance_def session_count_def reg_count_def)
qed

definition busy_manager :: manager where
  "busy_manager =
     snd (update_session_status (\<lambda>_. []) 5 1 Active
       (snd (create_session 0 1 ''s'' (sample_ssh ''bob'' ''h'') [] None (manager_new manager_config_default))))"

lemma busy_manager_run: "manager_run kept manager_config_default busy_manager"
  unfolding busy_manager_def
  by (intro mr_status mr_create mr_new) (simp add: session_exists_get get_session_def reg_get_def
      manager_new_def registry_new_def)

lemma busy_manager_session: "get_session 1 busy_manager \<noteq> None"
  by (simp add: busy_manager_def get_session_status get_session_created [OF first_check])

theorem session_statistics_exact_witness:
  "\<exists>m. mgr_get_stats busy_manager = Some m \<and> total_sessions_created m - sessions_closed m = 1 \<and>
     unat (active_sessions m) = count_by_status (mgr_registry busy_manager) Active"
proof -
  have "mgr_metrics busy_manager \<noteq> None"
    using manager_run_inv [OF busy_manager_run]
    by (simp add: manager_inv_def manager_config_default_def)
  then obtain m where m: "mgr_get_stats busy_manager = Some m"
    by (auto simp: mgr_get_stats_def)
  have "session_count busy_manager = 1"
    by (simp add: busy_manager_def session_count_def reg_count_def update_session_status_def repool_def
        create_session_def register_def register_check_def manager_new_def registry_new_def
        manager_config_default_def registry_config_default_def register_commit_def update_status_def
        reg_modify_def reg_get_def hm_insert_def Let_def split: option.split)
  with session_statistics_exact [OF busy_manager_run m, of True] m show ?thesis
    by simp
qed

text \<open>C19. Connecting reuses or creates. If the pool offers a session it is a registered one, the caller gets
  exactly it and one more use is counted; if it was idle it is active and out of the pool afterwards, and if it
  was not, which a status set meanwhile can bring about, its status stays as it is. If the pool offers none, the
  caller gets a new session under the given id, or the error of the registration with nothing changed.\<close>

theorem connect_reuses_or_creates:
  assumes "manager_run kept c mg" and "\<not> session_exists fresh mg"
  shows "case find_reusable_session now (connection_key tc) mg of
      Some i \<Rightarrow>
        (\<exists>m. get_session i mg = Some m \<and>
          fst (connect_or_create_session show_id now fresh name tc mg) = Inr (i, True) \<and>
          (let m' = mark_used now m in
             get_session i (snd (connect_or_create_session show_id now fresh name tc mg)) =
               Some (if sm_status m = Idle then set_status now Active m' else m')) \<and>
          (sm_status m = Idle \<longrightarrow>
             \<not> is_pooled i (mgr_pool (snd (connect_or_create_session show_id now fresh name tc mg)))))
    | None \<Rightarrow>
        (case fst (connect_or_create_session show_id now fresh name tc mg) of
           Inr (i, reused) \<Rightarrow> i = fresh \<and> \<not> reused \<and>
             get_session fresh (snd (connect_or_create_session show_id now fresh name tc mg)) =
               Some (started (metadata_new now fresh name tc [] None))
         | Inl _ \<Rightarrow> snd (connect_or_create_session show_id now fresh name tc mg) = mg)"
proof (cases "find_reusable_session now (connection_key tc) mg")
  case None
  then show ?thesis
    by (auto simp: connect_or_create_session_def create_session_def register_def Let_def try_bind_def
        get_session_def store.lookup_enter split: sum.splits)
next
  case (Some i)
  have "i \<in> registered mg"
    using reuse.offered_is_known [OF manager_invD(2) [OF manager_run_inv [OF assms(1)]]] Some
    by (simp add: find_reusable_session_def)
  then obtain m where m: "hm_get (sessions (mgr_registry mg)) i = Some m"
    by (auto simp: registered_def reg_get_def)
  show ?thesis
    using Some m reuse.pooled_remove [of i "mgr_pool mg"]
    by (auto simp: connect_or_create_session_def use_session_def reg_mark_used_def reg_modify_def reg_get_def
        update_session_status_def update_status_def repool_def pool_remove_def with_metrics_def
        get_session_def is_pooled_def pooled_ids_def Let_def)
qed

text \<open>A session that became idle at the fifth nanosecond and is offered six seconds later.\<close>

definition idle_manager :: manager where
  "idle_manager =
     snd (update_session_status (\<lambda>_. []) 5 1 Idle
       (snd (create_session 0 1 ''s'' (sample_ssh ''bob'' ''h'') [] None (manager_new manager_config_default))))"

lemma idle_manager_run: "manager_run kept manager_config_default idle_manager"
  unfolding idle_manager_def
  by (intro mr_status mr_create mr_new) (simp add: session_exists_get get_session_def reg_get_def
      manager_new_def registry_new_def)

lemma idle_manager_offers:
  "find_reusable_session 6000000000 (connection_key (sample_ssh ''bob'' ''h'')) idle_manager = Some 1"
  by (simp add: idle_manager_def find_reusable_session_def find_session_def update_session_status_def repool_def
      create_session_def register_def register_check_def manager_new_def registry_new_def register_commit_def
      manager_config_default_def registry_config_default_def pool_config_default_def pool_new_def Let_def
      update_status_def reg_modify_def reg_get_def with_metrics_def hm_insert_def hm_get_def started_def
      set_status_def metadata_new_def add_session_def has_room_def index_push_def weigh_def pool_entry_def
      reuse_score_def hm_upsert_def session_key_def from_secs_def default_priority_def nanos_per_sec_def)

theorem connect_reuses_or_creates_witness:
  "fst (connect_or_create_session (\<lambda>_. []) 6000000000 2 ''t'' (sample_ssh ''bob'' ''h'') idle_manager) = Inr (1, True) \<and>
   map_option sm_status (get_session 1 (snd (connect_or_create_session (\<lambda>_. []) 6000000000 2 ''t''
     (sample_ssh ''bob'' ''h'') idle_manager))) = Some Active"
proof -
  obtain m where m: "get_session 1 idle_manager = Some m" and idle: "sm_status m = Idle"
    by (auto simp: idle_manager_def get_session_status get_session_created [OF first_check])
  have "\<not> session_exists 2 idle_manager"
    by (simp add: idle_manager_def session_exists_get get_session_status get_session_created [OF first_check])
      (simp add: get_session_def reg_get_def manager_new_def registry_new_def)
  from connect_reuses_or_creates [OF idle_manager_run this, where now = 6000000000 and name = "''t''"
      and tc = "sample_ssh ''bob'' ''h''" and show_id = "\<lambda>_. []"]
  show ?thesis
    by (simp add: idle_manager_offers m idle Let_def)
qed

text \<open>C20. Closing a session removes it everywhere: it is in the registry before or the caller gets
  \<open>NotFound\<close> and nothing changes; afterwards it is neither registered nor pooled nor offered for
  reuse, and every other session is as before.\<close>

theorem closed_session_is_gone:
  assumes "manager_run kept c mg"
  shows "if session_exists i mg
    then fst (close_session show_id now i mg) = Inr () \<and>
      \<not> session_exists i (snd (close_session show_id now i mg)) \<and>
      \<not> is_pooled i (mgr_pool (snd (close_session show_id now i mg))) \<and>
      find_reusable_session later key (snd (close_session show_id now i mg)) \<noteq> Some i \<and>
      (j \<noteq> i \<longrightarrow> get_session j (snd (close_session show_id now i mg)) = get_session j mg)
    else close_session show_id now i mg = (Inl (not_found show_id i), mg)"
proof (cases "session_exists i mg")
  case False
  then show ?thesis
    by (simp add: close_session_def update_session_status_def session_exists_iff)
next
  case True
  let ?mg1 = "snd (update_session_status show_id now i Closing mg)"
  have r: "close_session show_id now i mg = (Inr (), forget_session now i (pool_remove i ?mg1))"
    using True status_result [of show_id now i Closing mg]
    by (cases "update_session_status show_id now i Closing mg") (simp add: close_session_def)
  have inv: "manager_inv kept c (forget_session now i (pool_remove i ?mg1))"
    using forget_inv [OF status_inv [OF manager_run_inv [OF assms]]] .
  have gone: "get_session i (forget_session now i (pool_remove i ?mg1)) = None"
    by (simp add: get_session_forget)
  then have out: "i \<notin> registered (forget_session now i (pool_remove i ?mg1))"
    by (simp add: registered_def get_session_def)
  then have "\<not> is_pooled i (mgr_pool (forget_session now i (pool_remove i ?mg1)))"
    using manager_invD(2) [OF inv] by (auto simp: reuse.within_def is_pooled_def pooled_ids_def)
  moreover have "find_reusable_session later key (forget_session now i (pool_remove i ?mg1)) \<noteq> Some i"
    using out reuse.offered_is_known [OF manager_invD(2) [OF inv]] by (auto simp: find_reusable_session_def)
  ultimately show ?thesis
    using True gone by (simp add: r session_exists_get get_session_forget get_session_status)
qed

theorem closed_session_is_gone_witness:
  "\<not> session_exists 1 (snd (close_session (\<lambda>_. []) 9 1 busy_manager))"
  using closed_session_is_gone [OF busy_manager_run, where i = 1 and show_id = "\<lambda>_. []" and now = 9]
    busy_manager_session
  by (simp add: session_exists_get)

text \<open>C21. A cleanup pass removes exactly what has expired: a session survives, unchanged, exactly when
  the lifecycle rules do not expire it; it is reported as expired otherwise; and no session whose
  pooling is older than the idle limit remains in the pool.\<close>

theorem cleanup_pass_exact:
  assumes "manager_run kept c mg" and "get_session i mg = Some m"
  shows "get_session i (snd (cleanup_pass now mg)) =
      (if should_expire_session (cfg_lifecycle c) now m then None else Some m) \<and>
    (should_expire_session (cfg_lifecycle c) now m \<longrightarrow> i \<in> set (fst (cleanup_pass now mg))) \<and>
    (\<forall>j e. get_pool_metadata j (mgr_pool (snd (cleanup_pass now mg))) = Some e \<longrightarrow>
       now \<le> ps_pooled_at e + max_idle_time (cfg_lifecycle c))"
proof -
  let ?r = "mgr_registry mg"
  have inv: "manager_inv kept c mg"
    using assms(1) by (rule manager_run_inv)
  note sd = registry_soundD [OF manager_invD(1) [OF inv]]
  have eq: "get_session i (snd (cleanup_pass now mg)) =
      get_session i (snd (fold (expire_one now) (list_all_sessions ?r) ([], mg)))"
    by (simp add: cleanup_pass_def Let_def split: prod.splits)
  have listed: "s \<in> set (list_all_sessions ?r) \<and> i = sm_id s \<longleftrightarrow> s = m" for s
    using assms(2) registry_wfD(2) [OF sd(1)]
    unfolding list_all_sessions_def hm_values_in [OF sd(2)] get_session_def reg_get_def by force
  then have "(\<exists>s\<in>set (list_all_sessions ?r). i = sm_id s \<and> should_expire_session (cfg_lifecycle c) now s) \<longleftrightarrow>
      should_expire_session (cfg_lifecycle c) now m"
    by (metis (no_types, lifting))
  then have "get_session i (snd (cleanup_pass now mg)) =
      (if should_expire_session (cfg_lifecycle c) now m then None else Some m)"
    using get_session_expires [of "([], mg)" "cfg_lifecycle c" i now "list_all_sessions ?r"]
      manager_invD(4) [OF inv] assms(2)
    by (simp add: eq)
  moreover have "i \<in> set (fst (cleanup_pass now mg))" if "should_expire_session (cfg_lifecycle c) now m"
    using expires_reported [of "([], mg)" "cfg_lifecycle c" m "list_all_sessions ?r" now] that
      listed [of m] manager_invD(4) [OF inv]
    by (auto simp: cleanup_pass_def Let_def split: prod.splits)
  moreover have "now \<le> ps_pooled_at e + max_idle_time (cfg_lifecycle c)"
    if "get_pool_metadata j (mgr_pool (snd (cleanup_pass now mg))) = Some e" for j e
    using cleanup_pass_fresh [OF assms(1)] that by (simp add: get_pool_metadata_def)
  ultimately show ?thesis
    by blast
qed

theorem cleanup_pass_exact_witness:
  "get_session 1 (snd (cleanup_pass 10 busy_manager)) = get_session 1 busy_manager"
proof -
  obtain m where m: "get_session 1 busy_manager = Some m"
    using busy_manager_session by blast
  have "sm_status m = Active \<and> sm_created_at m = 0"
    using m by (auto simp: busy_manager_def get_session_status get_session_created [OF first_check])
      (simp add: metadata_new_def)
  then have "\<not> should_expire_session (cfg_lifecycle manager_config_default) 10 m"
    by (simp add: should_expire_session_def manager_config_default_def lifecycle_config_default_def
        from_secs_def nanos_per_sec_def)
  then show ?thesis
    using cleanup_pass_exact [OF busy_manager_run m, of 10] m by simp
qed

text \<open>The one operation the statistics do not see: replacing the metadata of an active session by
  the same metadata with status \<open>Idle\<close> succeeds, is not recorded by the collector, and leaves its
  gauge of active sessions one above the number of active sessions.\<close>

theorem metadata_replacement_drifts:
  assumes "manager_run True c mg" and "get_session i mg = Some m" and "sm_status m = Active"
    and "mgr_metrics mg = Some mc"
  shows "fst (update_session_metadata show_id i (m\<lparr>sm_status := Idle\<rparr>) mg) = Inr () \<and>
    mgr_metrics (snd (update_session_metadata show_id i (m\<lparr>sm_status := Idle\<rparr>) mg)) = Some mc \<and>
    unat (active_sessions (mc_metrics mc)) =
      Suc (count_by_status (mgr_registry
        (snd (update_session_metadata show_id i (m\<lparr>sm_status := Idle\<rparr>) mg))) Active)"
proof -
  let ?m = "m\<lparr>sm_status := Idle\<rparr>" and ?r = "mgr_registry mg"
  have inv: "manager_inv True c mg"
    using assms(1) by (rule manager_run_inv)
  note sd = registry_soundD [OF manager_invD(1) [OF inv]]
  have get: "hm_get (sessions ?r) i = Some m"
    using assms(2) by (simp add: get_session_def reg_get_def)
  have "sm_id m = i"
    using registry_wfD(2) [OF sd(1) get] .
  then obtain r where r: "reg_update show_id ?r i ?m = Inr r"
    and s: "sessions r = hm_insert i ?m (sessions ?r)"
    using get by (auto simp: reg_update_def Let_def)
  have "tally (has_status Active) r + 1 = tally (has_status Active) ?r"
    using hm.count_put_old [OF sd(2) get, of "has_status Active" ?m] assms(3)
    by (simp add: tally_def s has_status_def)
  moreover have "unat (gauge Active (mc_metrics mc)) = tally (has_status Active) ?r"
    using manager_invD(3) [OF inv assms(4)] by (simp add: counts_def gauged_def)
  ultimately show ?thesis
    using r assms(4) by (simp add: update_session_metadata_def count_by_status_tally gauge_def)
qed

theorem metadata_replacement_drifts_witness:
  "\<exists>m. get_session 1 busy_manager = Some m \<and>
     fst (update_session_metadata (\<lambda>_. []) 1 (m\<lparr>sm_status := Idle\<rparr>) busy_manager) = Inr ()"
proof -
  obtain m where m: "get_session 1 busy_manager = Some m"
    using busy_manager_session by blast
  have a: "sm_status m = Active"
    using m by (auto simp: busy_manager_def get_session_status get_session_created [OF first_check])
  obtain mc where mc: "mgr_metrics busy_manager = Some mc"
    using manager_run_inv [OF busy_manager_run] by (auto simp: manager_inv_def manager_config_default_def)
  show ?thesis
    using metadata_replacement_drifts [OF busy_manager_run m a mc, of "\<lambda>_. []"] m by blast
qed

end
