(* ===== verification/Manager_Race.thy ===== *)
theory Manager_Race
  imports Manager
begin

text \<open>
  \<open>crates/core/src/session/manager.rs\<close> under concurrency: \<open>update_session_status\<close> as the daemon runs it,
  in tasks of their own that share the manager. Registry, pool and metrics have a lock each, held for
  one call, so what a task does between two locks can be separated by the calls of other tasks. A
  schedule is a list of turns; a turn of a task is its code up to and including its next call under a
  lock. The theory shows what every schedule of updates of different sessions keeps, and what two
  updates of the same session break.
\<close>

section \<open>Adding to the pool in two steps\<close>

text \<open>\<open>SessionPool::add_session\<close> looks at the limits under the read locks and inserts under the write locks.\<close>

definition pool_admits :: "pool \<Rightarrow> session_metadata \<Rightarrow> bool" where
  "pool_admits p m \<longleftrightarrow>
     pool_enabled (pool_conf p) \<and> (sm_status m = Idle \<or> sm_status m = Active) \<and> has_room p (session_key m)"

definition pool_push :: "time \<Rightarrow> session_metadata \<Rightarrow> pool \<Rightarrow> pool" where
  "pool_push now m p =
     p\<lparr>pools := index_push (pools p) (session_key m) (sm_id m),
       pool_metadata := hm_insert (sm_id m) (pool_entry now m) (pool_metadata p)\<rparr>"

lemma add_session_steps:
  "add_session now m p = (if pool_admits p m then (True, pool_push now m p) else (False, p))"
  by (simp add: add_session_def pool_admits_def pool_push_def)

lemma pooled_push: "pooled_ids (pool_push now m p) = insert (sm_id m) (pooled_ids p)"
  by (auto simp: pooled_ids_def pool_push_def)

section \<open>Tasks\<close>

text \<open>Where a task stands in \<open>update_session_status\<close>, with the local variables it still needs: the status
  it found, and the metadata it read back for the pool.\<close>

datatype progress =
    Fresh
  | Known session_status
  | Stored session_status
  | Fetched session_status session_metadata
  | Admitted session_status session_metadata
  | Pooled session_status
  | Counted session_status
  | Finished "yuha_error + unit"

record update_task =
  ut_session :: session_id
  ut_status :: session_status
  ut_progress :: progress

definition update_begins :: "session_id \<Rightarrow> session_status \<Rightarrow> update_task" where
  "update_begins i s = \<lparr>ut_session = i, ut_status = s, ut_progress = Fresh\<rparr>"

text \<open>The second call to the metrics, for the attempts to connect.\<close>

definition record_connection ::
    "session_status \<Rightarrow> session_status \<Rightarrow> metrics_collector \<Rightarrow> metrics_collector" where
  "record_connection old_status status mc =
     (let was_connecting = (old_status = Connecting \<or> old_status = Reconnecting)
      in case status of
           Active \<Rightarrow> if was_connecting then record_connection_success mc else mc
         | Failed \<Rightarrow> if was_connecting then record_connection_failure mc else mc
         | _ \<Rightarrow> mc)"

definition task_turn ::
    "(session_id \<Rightarrow> string) \<Rightarrow> time \<Rightarrow> session_id \<Rightarrow> session_status \<Rightarrow> progress \<Rightarrow> manager \<Rightarrow> progress \<times> manager" where
  "task_turn show_id now i status pr mg =
     (case pr of
        Fresh \<Rightarrow>
          (case reg_get (mgr_registry mg) i of
             None \<Rightarrow> (Finished (Inl (not_found show_id i)), mg)
           | Some m \<Rightarrow> (Known (sm_status m), mg))
      | Known old \<Rightarrow>
          (case update_status show_id now (mgr_registry mg) i status of
             Inl e \<Rightarrow> (Finished (Inl e), mg)
           | Inr r \<Rightarrow> (Stored old, mg\<lparr>mgr_registry := r\<rparr>))
      | Stored old \<Rightarrow>
          (case status of
             Idle \<Rightarrow>
               (case reg_get (mgr_registry mg) i of
                  Some m \<Rightarrow> (Fetched old m, mg)
                | None \<Rightarrow> (Pooled old, mg))
           | Active \<Rightarrow> (Pooled old, pool_remove i mg)
           | Failed \<Rightarrow> (Pooled old, pool_remove i mg)
           | Closed \<Rightarrow> (Pooled old, pool_remove i mg)
           | _ \<Rightarrow> (Pooled old, mg))
      | Fetched old m \<Rightarrow> (if pool_admits (mgr_pool mg) m then Admitted old m else Pooled old, mg)
      | Admitted old m \<Rightarrow> (Pooled old, mg\<lparr>mgr_pool := pool_push now m (mgr_pool mg)\<rparr>)
      | Pooled old \<Rightarrow> (Counted old, with_metrics (record_status_change old status) mg)
      | Counted old \<Rightarrow> (Finished (Inr ()), with_metrics (record_connection old status) mg)
      | Finished res \<Rightarrow> (Finished res, mg))"

text \<open>One turn of the task with index \<open>k\<close>, at time \<open>now\<close>.\<close>

definition turn ::
    "(session_id \<Rightarrow> string) \<Rightarrow> nat \<times> time \<Rightarrow> update_task list \<times> manager \<Rightarrow> update_task list \<times> manager" where
  "turn show_id kn st =
     (let (k, now) = kn; (ts, mg) = st
      in if k < length ts
         then let t = ts ! k;
                  (pr, mg1) = task_turn show_id now (ut_session t) (ut_status t) (ut_progress t) mg
              in (ts[k := t\<lparr>ut_progress := pr\<rparr>], mg1)
         else st)"

definition interleave ::
    "(session_id \<Rightarrow> string) \<Rightarrow> (nat \<times> time) list \<Rightarrow> update_task list \<times> manager \<Rightarrow> update_task list \<times> manager" where
  "interleave show_id schedule st = fold (turn show_id) schedule st"

definition finished :: "update_task \<Rightarrow> bool" where
  "finished t \<longleftrightarrow> (\<exists>res. ut_progress t = Finished res)"

section \<open>A task alone\<close>

lemma record_outcome_steps:
  "record_outcome old status mc = record_connection old status (record_status_change old status mc)"
  by (simp add: record_outcome_def record_connection_def Let_def)

lemma repool_steps:
  "repool now i status mg =
   (case status of
      Idle \<Rightarrow>
        (case reg_get (mgr_registry mg) i of
           Some m \<Rightarrow> if pool_admits (mgr_pool mg) m then mg\<lparr>mgr_pool := pool_push now m (mgr_pool mg)\<rparr> else mg
         | None \<Rightarrow> mg)
    | Active \<Rightarrow> pool_remove i mg
    | Failed \<Rightarrow> pool_remove i mg
    | Closed \<Rightarrow> pool_remove i mg
    | _ \<Rightarrow> mg)"
  by (simp add: repool_def add_session_steps split: session_status.split option.split)

lemma with_metrics_twice: "with_metrics f (with_metrics g mg) = with_metrics (\<lambda>mc. f (g mc)) mg"
  by (simp add: with_metrics_def option.map_comp comp_def)

lemma interleave_simps [simp]:
  "interleave show_id [] st = st"
  "interleave show_id (kn # sch) st = interleave show_id sch (turn show_id kn st)"
  by (simp_all add: interleave_def)

lemma interleave_append [simp]:
  "interleave show_id (sch @ sch') st = interleave show_id sch' (interleave show_id sch st)"
  by (simp add: interleave_def)

text \<open>Seven turns of the first task, with the others left alone.\<close>

fun turns :: "(session_id \<Rightarrow> string) \<Rightarrow> time \<Rightarrow> session_id \<Rightarrow> session_status \<Rightarrow> nat \<Rightarrow> progress \<times> manager \<Rightarrow> progress \<times> manager" where
  "turns show_id now i s 0 st = st"
| "turns show_id now i s (Suc n) st = turns show_id now i s n (task_turn show_id now i s (fst st) (snd st))"

lemma interleave_one:
  assumes "k < length ts" and "ts ! k = t"
  shows "interleave show_id (replicate n (k, now)) (ts, mg) =
    (let (pr, mg') = turns show_id now (ut_session t) (ut_status t) n (ut_progress t, mg)
     in (ts[k := t\<lparr>ut_progress := pr\<rparr>], mg'))"
  using assms
proof (induction n arbitrary: ts t mg)
  case 0
  then show ?case
    by simp (metis list_update_id)
next
  case (Suc n)
  obtain pr mg1 where one: "task_turn show_id now (ut_session t) (ut_status t) (ut_progress t) mg = (pr, mg1)"
    by fastforce
  with Suc.prems have "turn show_id (k, now) (ts, mg) = (ts[k := t\<lparr>ut_progress := pr\<rparr>], mg1)"
    by (simp add: turn_def)
  with one Suc.prems show ?case
    using Suc.IH [of "ts[k := t\<lparr>ut_progress := pr\<rparr>]" "t\<lparr>ut_progress := pr\<rparr>" mg1]
    by (simp add: case_prod_unfold)
qed

lemma turns_finished [simp]: "turns show_id now i s n (Finished res, mg) = (Finished res, mg)"
  by (induction n) (simp_all add: task_turn_def)

lemma turns_pooled [simp]:
  "turns show_id now i s (Suc (Suc n)) (Pooled old, mg) =
   (Finished (Inr ()), with_metrics (record_outcome old s) mg)"
  by (simp add: task_turn_def record_outcome_steps [abs_def] with_metrics_twice)

lemma turns_stored:
  "turns show_id now i s (Suc (Suc (Suc (Suc (Suc n))))) (Stored old, mg) =
   (Finished (Inr ()), with_metrics (record_outcome old s) (repool now i s mg))"
proof -
  have "turns show_id now i s (Suc (Suc (Suc n))) (task_turn show_id now i s (Fetched old m) mg) =
      (Finished (Inr ()), with_metrics (record_outcome old s)
        (if pool_admits (mgr_pool mg) m then mg\<lparr>mgr_pool := pool_push now m (mgr_pool mg)\<rparr> else mg))"
    (is "turns _ _ _ _ ?n _ = _") for m
  proof (cases "pool_admits (mgr_pool mg) m")
    case True
    then have "task_turn show_id now i s (Fetched old m) mg = (Admitted old m, mg)"
      by (simp add: task_turn_def)
    moreover have "task_turn show_id now i s (Admitted old m) mg
        = (Pooled old, mg\<lparr>mgr_pool := pool_push now m (mgr_pool mg)\<rparr>)"
      by (simp add: task_turn_def)
    ultimately show ?thesis
      using True by (simp only: turns.simps(2) [of show_id now i s "Suc (Suc n)"] fst_conv snd_conv turns_pooled if_True)
  next
    case False
    then have "task_turn show_id now i s (Fetched old m) mg = (Pooled old, mg)"
      by (simp add: task_turn_def)
    with False show ?thesis
      by (simp only: turns_pooled if_False)
  qed
  note fetched = this
  have step: "task_turn show_id now i s (Stored old) mg =
      (case (s, reg_get (mgr_registry mg) i) of
         (Idle, Some m) \<Rightarrow> (Fetched old m, mg)
       | _ \<Rightarrow> (Pooled old, repool now i s mg))"
    by (cases s) (simp_all add: task_turn_def repool_steps split: option.split)
  show ?thesis
  proof (cases "s = Idle \<and> reg_get (mgr_registry mg) i \<noteq> None")
    case True
    then obtain m where m: "s = Idle" "reg_get (mgr_registry mg) i = Some m"
      by blast
    then have "turns show_id now i s (Suc (Suc (Suc (Suc (Suc n))))) (Stored old, mg)
        = turns show_id now i s (Suc (Suc (Suc n))) (task_turn show_id now i s (Fetched old m) mg)"
      using step by (simp only: turns.simps(2) fst_conv snd_conv) simp
    with fetched [of m] m show ?thesis
      by (simp only: repool_steps) simp
  next
    case False
    then have "task_turn show_id now i s (Stored old) mg = (Pooled old, repool now i s mg)"
      unfolding step by (auto split: session_status.split option.split)
    then show ?thesis
      by (simp only: turns.simps(2) [of show_id now i s "Suc (Suc (Suc (Suc n)))"] fst_conv snd_conv turns_pooled)
  qed
qed

lemma turns_known:
  assumes "update_status show_id now (mgr_registry mg) i s = Inr r"
  shows "turns show_id now i s (Suc (Suc (Suc (Suc (Suc (Suc n)))))) (Known old, mg) =
    (Finished (Inr ()), with_metrics (record_outcome old s) (repool now i s (mg\<lparr>mgr_registry := r\<rparr>)))"
proof -
  have "task_turn show_id now i s (Known old) mg = (Stored old, mg\<lparr>mgr_registry := r\<rparr>)"
    using assms by (simp add: task_turn_def)
  then show ?thesis
    by (simp only: turns.simps(2) [of show_id now i s "Suc (Suc (Suc (Suc (Suc n))))"] fst_conv snd_conv turns_stored)
qed

lemma seven_turns:
  "turns show_id now i s (Suc (Suc (Suc (Suc (Suc (Suc (Suc n))))))) (Fresh, mg) =
   (let (res, mg') = update_session_status show_id now i s mg in (Finished res, mg'))"
proof (cases "reg_get (mgr_registry mg) i")
  case None
  then have "task_turn show_id now i s Fresh mg = (Finished (Inl (not_found show_id i)), mg)"
    by (simp add: task_turn_def)
  with None show ?thesis
    by (simp only: turns.simps(2) [of show_id now i s "Suc (Suc (Suc (Suc (Suc (Suc n)))))"] fst_conv snd_conv
        turns_finished) (simp add: update_session_status_def)
next
  case (Some m)
  then obtain r where r: "update_status show_id now (mgr_registry mg) i s = Inr r"
    using update_status_total by blast
  have "task_turn show_id now i s Fresh mg = (Known (sm_status m), mg)"
    using Some by (simp add: task_turn_def)
  then show ?thesis
    unfolding status_step [OF Some r]
    by (simp only: turns.simps(2) [of show_id now i s "Suc (Suc (Suc (Suc (Suc (Suc n)))))"]
        fst_conv snd_conv turns_known [OF r] Let_def prod.case)
qed

section \<open>Tasks on different sessions\<close>

text \<open>The status under which the metrics count the session of a task that has stored its new status and
  not yet reported it.\<close>

definition unreported :: "update_task \<Rightarrow> session_status option" where
  "unreported t =
     (case ut_progress t of
        Stored old \<Rightarrow> Some old
      | Fetched old _ \<Rightarrow> Some old
      | Admitted old _ \<Rightarrow> Some old
      | Pooled old \<Rightarrow> Some old
      | _ \<Rightarrow> None)"

definition lagging :: "update_task list \<Rightarrow> session_id \<Rightarrow> session_status option" where
  "lagging ts i = Option.bind (map_of (map (\<lambda>t. (ut_session t, t)) ts) i) unreported"

definition counted_status :: "update_task list \<Rightarrow> session_metadata \<Rightarrow> session_status" where
  "counted_status ts m = (case lagging ts (sm_id m) of Some old \<Rightarrow> old | None \<Rightarrow> sm_status m)"

definition counts_lagging :: "update_task list \<Rightarrow> registry \<Rightarrow> metrics_collector \<Rightarrow> bool" where
  "counts_lagging ts r mc \<longleftrightarrow>
     (\<forall>g. gauged g \<longrightarrow> unat (gauge g (mc_metrics mc)) = tally (\<lambda>m. counted_status ts m = g) r) \<and>
     balance (mc_metrics mc) = of_nat (length (sessions r))"

text \<open>What a task knows of its session: nothing in the registry contradicts its local variables.\<close>

definition task_knows :: "update_task \<Rightarrow> session_metadata option \<Rightarrow> session_metadata option \<Rightarrow> bool" where
  "task_knows t start current \<longleftrightarrow>
     (case ut_progress t of
        Fresh \<Rightarrow> current = start
      | Known old \<Rightarrow> current = start \<and> map_option sm_status current = Some old
      | Finished (Inl _) \<Rightarrow> current = None \<and> start = None
      | Fetched _ m \<Rightarrow> map_option sm_status current = Some (ut_status t) \<and> start \<noteq> None \<and> sm_id m = ut_session t
      | Admitted _ m \<Rightarrow> map_option sm_status current = Some (ut_status t) \<and> start \<noteq> None \<and> sm_id m = ut_session t
      | _ \<Rightarrow> map_option sm_status current = Some (ut_status t) \<and> start \<noteq> None)"

definition race_inv :: "manager_config \<Rightarrow> manager \<Rightarrow> update_task list \<Rightarrow> manager \<Rightarrow> bool" where
  "race_inv c mg0 ts mg \<longleftrightarrow>
     distinct (map ut_session ts) \<and>
     mgr_config mg = c \<and> lc_config (mgr_lifecycle mg) = cfg_lifecycle c \<and>
     registry_sound (cfg_registry c) (mgr_registry mg) \<and>
     registered mg = registered mg0 \<and>
     reuse.within (mgr_pool mg) (registered mg0) \<and>
     (mgr_metrics mg = None) = (\<not> enable_metrics c) \<and>
     (\<forall>mc. mgr_metrics mg = Some mc \<longrightarrow> counts_lagging ts (mgr_registry mg) mc) \<and>
     (\<forall>t\<in>set ts. task_knows t (get_session (ut_session t) mg0) (get_session (ut_session t) mg))"

lemma map_of_update:
  assumes "k < length ts" and "f t = f (ts ! k)" and "distinct (map f ts)"
  shows "map_of (map (\<lambda>t. (f t, t)) (ts[k := t])) = (map_of (map (\<lambda>t. (f t, t)) ts))(f t \<mapsto> t)"
  using assms
proof (induction ts arbitrary: k)
  case (Cons u us)
  show ?case
  proof (cases k)
    case 0
    with Cons.prems show ?thesis by (simp add: fun_eq_iff)
  next
    case (Suc j)
    then have "f u \<noteq> f t"
      using Cons.prems by (metis distinct.simps(2) length_Cons list.simps(9) nth_Cons_Suc nth_map nth_mem
          Suc_less_eq length_map)
    with Suc Cons show ?thesis
      by (auto simp: fun_eq_iff)
  qed
qed simp

lemma lagging_update:
  assumes "k < length ts" and "distinct (map ut_session ts)"
  shows "lagging (ts[k := (ts ! k)\<lparr>ut_progress := pr\<rparr>]) i =
    (if i = ut_session (ts ! k) then unreported ((ts ! k)\<lparr>ut_progress := pr\<rparr>) else lagging ts i)"
  unfolding lagging_def
  by (subst map_of_update) (use assms in simp_all)

lemma lagging_at:
  assumes "k < length ts" and "distinct (map ut_session ts)"
  shows "lagging ts (ut_session (ts ! k)) = unreported (ts ! k)"
  using lagging_update [OF assms, of "ut_progress (ts ! k)" "ut_session (ts ! k)"] by simp

subsection \<open>Counting with another predicate\<close>

lemma tally_withdrawn:
  assumes "registry_wf r" and "reg_get r i = Some m"
    and "\<And>j m. reg_get r j = Some m \<Longrightarrow> j \<noteq> i \<Longrightarrow> P m = Q m"
  shows "tally P r + (if Q m then 1 else 0) = tally Q r + (if P m then 1 else 0)"
proof -
  let ?s = "snd (unregister r i)"
  have "P m' = Q m'" if "(j, m') \<in> set (sessions ?s)" for j m'
  proof -
    have "reg_get ?s j = Some m'"
      using that registry_wfD(1) [OF registry_wf_unregister [OF assms(1), of i]]
      by (simp add: reg_get_def hm_get_in_set)
    then show ?thesis
      using assms(3) [of j m'] by (simp add: store.lookup_withdraw split: if_splits)
  qed
  then have "tally P ?s = tally Q ?s"
    by (auto simp: tally_def entry_count_def intro!: arg_cong [where f = length] filter_cong)
  with store.tally_withdraw [OF assms(1,2), of P] store.tally_withdraw [OF assms(1,2), of Q]
  show ?thesis by simp
qed

lemma counts_stored:
  assumes "registry_sound c r" and "reg_get r i = Some m" and "update_status show_id now r i s = Inr r'"
    and "lagging ts i = None" and lag: "lagging ts' = (lagging ts)(i \<mapsto> sm_status m)"
    and counts: "counts_lagging ts r mc"
  shows "counts_lagging ts' r' mc"
proof -
  note wf = registry_soundD(1) [OF assms(1)]
  have id: "sm_id x = j" if "reg_get r j = Some x" for j x
    using registry_wfD(2) [OF wf] that by (simp add: reg_get_def)
  have "tally (\<lambda>m. counted_status ts' m = g) r' = tally (\<lambda>m. counted_status ts m = g) r" for g
  proof -
    have "tally (\<lambda>m. counted_status ts' m = g) r = tally (\<lambda>m. counted_status ts m = g) r"
      using tally_withdrawn [OF wf assms(2), of "\<lambda>m. counted_status ts' m = g" "\<lambda>m. counted_status ts m = g"]
        assms(4) id [OF assms(2)] id by (auto simp: counted_status_def lag split: if_splits)
    moreover have "tally (\<lambda>m. counted_status ts' m = g) r' = tally (\<lambda>m. counted_status ts' m = g) r"
      using store.tally_change [OF wf assms(2) assms(3) [unfolded update_status_def], of "\<lambda>m. counted_status ts' m = g"]
        id [OF assms(2)] by (simp add: counted_status_def lag split: if_splits)
    ultimately show ?thesis by simp
  qed
  then show ?thesis
    using counts length_modify [OF registry_soundD(2) [OF assms(1)] assms(3) [unfolded update_status_def]]
    by (simp add: counts_lagging_def)
qed

lemma counts_reported:
  assumes "registry_sound c r" and "reg_get r i = Some m"
    and "lagging ts i = Some old" and lag: "lagging ts' = (lagging ts)(i := None)"
    and counts: "counts_lagging ts r mc"
  shows "counts_lagging ts' r (record_status_change old (sm_status m) mc)"
proof -
  note wf = registry_soundD(1) [OF assms(1)]
  have id: "sm_id x = j" if "reg_get r j = Some x" for j x
    using registry_wfD(2) [OF wf] that by (simp add: reg_get_def)
  have "unat (gauge g (mc_metrics (record_status_change old (sm_status m) mc)))
      = tally (\<lambda>m. counted_status ts' m = g) r" if g: "gauged g" for g
  proof -
    let ?P = "\<lambda>m. counted_status ts m = g" and ?Q = "\<lambda>m. counted_status ts' m = g"
    have moved: "tally ?P r + (if sm_status m = g then 1 else 0) = tally ?Q r + (if old = g then 1 else 0)"
      using tally_withdrawn [OF wf assms(2), of ?P ?Q] assms(3) id [OF assms(2)] id
      by (auto simp: counted_status_def lag split: if_splits)
    have "0 < tally ?P r" if "old = g"
      using store.tally_pos [OF wf assms(2), of ?P] assms(3) id [OF assms(2)] that
      by (simp add: counted_status_def)
    moreover have "unat (gauge g (mc_metrics mc)) = tally ?P r"
      using counts g by (simp add: counts_lagging_def)
    moreover have "tally ?Q r < 2 ^ LENGTH(32)"
      by (rule registry_soundD(3) [OF assms(1)])
    ultimately show ?thesis
      using moved g by (auto simp: gauge_status_change Let_def unat_saturating_sub1 unat_inc)
  qed
  with counts show ?thesis
    by (simp add: counts_lagging_def)
qed

lemma counts_lagging_cong:
  assumes "counts_lagging ts r mc" and "lagging ts' = lagging ts"
    and "\<And>g. gauge g (mc_metrics mc') = gauge g (mc_metrics mc)"
    and "balance (mc_metrics mc') = balance (mc_metrics mc)"
  shows "counts_lagging ts' r mc'"
  using assms by (simp add: counts_lagging_def counted_status_def [abs_def])

lemma record_connection_counts [simp]:
  "gauge g (mc_metrics (record_connection old s mc)) = gauge g (mc_metrics mc)"
  "balance (mc_metrics (record_connection old s mc)) = balance (mc_metrics mc)"
  by (simp_all add: record_connection_def Let_def split: session_status.split)

lemma race_invI:
  assumes inv: "race_inv c mg0 ts mg" and k: "k < length ts"
    and "mgr_config mg1 = mgr_config mg" and "mgr_lifecycle mg1 = mgr_lifecycle mg"
    and "registry_sound (cfg_registry c) (mgr_registry mg1)" and "registered mg1 = registered mg"
    and "reuse.within (mgr_pool mg1) (registered mg0)"
    and "mgr_metrics mg1 = map_option f (mgr_metrics mg)"
    and "\<And>mc. mgr_metrics mg = Some mc \<Longrightarrow>
      counts_lagging (ts[k := (ts ! k)\<lparr>ut_progress := pr\<rparr>]) (mgr_registry mg1) (f mc)"
    and others: "\<And>j. j \<noteq> ut_session (ts ! k) \<Longrightarrow> get_session j mg1 = get_session j mg"
    and knows: "task_knows ((ts ! k)\<lparr>ut_progress := pr\<rparr>) (get_session (ut_session (ts ! k)) mg0)
      (get_session (ut_session (ts ! k)) mg1)"
  shows "race_inv c mg0 (ts[k := (ts ! k)\<lparr>ut_progress := pr\<rparr>]) mg1"
proof -
  have dist: "distinct (map ut_session ts)"
    using inv by (simp add: race_inv_def)
  have same: "map ut_session (ts[k := (ts ! k)\<lparr>ut_progress := pr\<rparr>]) = map ut_session ts"
    using k by (simp add: map_update) (metis k length_map list_update_id nth_map)
  have "task_knows t (get_session (ut_session t) mg0) (get_session (ut_session t) mg1)"
    if listed: "t \<in> set (ts[k := (ts ! k)\<lparr>ut_progress := pr\<rparr>])" for t
  proof -
    obtain j where "j < length (ts[k := (ts ! k)\<lparr>ut_progress := pr\<rparr>])"
      and t: "ts[k := (ts ! k)\<lparr>ut_progress := pr\<rparr>] ! j = t"
      using listed unfolding in_set_conv_nth by blast
    then have j: "j < length ts"
      by simp
    show ?thesis
    proof (cases "j = k")
      case True
      with t k knows show ?thesis by auto
    next
      case False
      then have "ut_session (ts ! j) \<noteq> ut_session (ts ! k)"
        using dist j k by (metis length_map nth_eq_iff_index_eq nth_map)
      moreover have "task_knows (ts ! j) (get_session (ut_session (ts ! j)) mg0) (get_session (ut_session (ts ! j)) mg)"
        using inv j by (simp add: race_inv_def)
      ultimately show ?thesis
        using False t others by auto
    qed
  qed
  moreover have "counts_lagging (ts[k := (ts ! k)\<lparr>ut_progress := pr\<rparr>]) (mgr_registry mg1) mc"
    if "mgr_metrics mg1 = Some mc" for mc
    using that assms(8,9) by auto
  ultimately show ?thesis
    unfolding race_inv_def using inv [unfolded race_inv_def] assms(3-8) dist same by simp
qed

lemma race_invD:
  assumes "race_inv c mg0 ts mg"
  shows "registry_sound (cfg_registry c) (mgr_registry mg)" and "registered mg = registered mg0"
    and "reuse.within (mgr_pool mg) (registered mg0)" and "distinct (map ut_session ts)"
    and "mgr_metrics mg = Some mc \<Longrightarrow> counts_lagging ts (mgr_registry mg) mc"
    and "t \<in> set ts \<Longrightarrow> task_knows t (get_session (ut_session t) mg0) (get_session (ut_session t) mg)"
  using assms by (simp_all add: race_inv_def)

text \<open>A turn that leaves the registry, and the metrics' counts, as they are.\<close>

lemma race_quiet:
  assumes inv: "race_inv c mg0 ts mg" and k: "k < length ts"
    and "unreported ((ts ! k)\<lparr>ut_progress := pr\<rparr>) = unreported (ts ! k)"
    and "reuse.within q (registered mg0)"
    and "task_knows ((ts ! k)\<lparr>ut_progress := pr\<rparr>) (get_session (ut_session (ts ! k)) mg0)
      (get_session (ut_session (ts ! k)) mg)"
  shows "race_inv c mg0 (ts[k := (ts ! k)\<lparr>ut_progress := pr\<rparr>]) (mg\<lparr>mgr_pool := q\<rparr>)"
proof (rule race_invI [OF inv k, where f = "\<lambda>mc. mc"])
  have lag: "lagging (ts[k := (ts ! k)\<lparr>ut_progress := pr\<rparr>]) = lagging ts"
    using lagging_update [OF k race_invD(4) [OF inv], of pr] lagging_at [OF k race_invD(4) [OF inv]] assms(3)
    by (auto simp: fun_eq_iff)
  show "counts_lagging (ts[k := (ts ! k)\<lparr>ut_progress := pr\<rparr>]) (mgr_registry (mg\<lparr>mgr_pool := q\<rparr>)) mc"
    if "mgr_metrics mg = Some mc" for mc
    using counts_lagging_cong [OF race_invD(5) [OF inv that] lag] by simp
qed (use assms race_invD [OF inv] in \<open>simp_all add: registered_def option.map_ident\<close>)

lemma race_stored:
  assumes inv: "race_inv c mg0 ts mg" and k: "k < length ts" and pr: "ut_progress (ts ! k) = Known old"
    and r: "update_status show_id now (mgr_registry mg) (ut_session (ts ! k)) (ut_status (ts ! k)) = Inr r"
  shows "race_inv c mg0 (ts[k := (ts ! k)\<lparr>ut_progress := Stored old\<rparr>]) (mg\<lparr>mgr_registry := r\<rparr>)"
proof (rule race_invI [OF inv k, where f = "\<lambda>mc. mc"])
  let ?i = "ut_session (ts ! k)" and ?ts = "ts[k := (ts ! k)\<lparr>ut_progress := Stored old\<rparr>]"
  note r' = r [unfolded update_status_def]
  have knows: "get_session ?i mg = get_session ?i mg0 \<and> map_option sm_status (get_session ?i mg) = Some old"
    using race_invD(6) [OF inv nth_mem [OF k]] unfolding task_knows_def pr progress.case .
  then obtain m where m: "reg_get (mgr_registry mg) ?i = Some m" "sm_status m = old"
    unfolding get_session_def map_option_eq_Some by (elim conjE exE)
  have start: "get_session ?i mg0 = Some m"
    unfolding conjunct1 [OF knows, symmetric] using m(1) by (simp add: get_session_def)
  show "registry_sound (cfg_registry c) (mgr_registry (mg\<lparr>mgr_registry := r\<rparr>))"
    using sound_modify [OF race_invD(1) [OF inv] r'] by simp
  show regd: "registered (mg\<lparr>mgr_registry := r\<rparr>) = registered mg"
    using registered_modify [OF r'] by (simp add: registered_def)
  have "lagging ?ts = (lagging ts)(?i \<mapsto> sm_status m)"
    using lagging_update [OF k race_invD(4) [OF inv], of "Stored old"] m
    by (auto simp: fun_eq_iff unreported_def)
  then show "counts_lagging ?ts (mgr_registry (mg\<lparr>mgr_registry := r\<rparr>)) mc" if "mgr_metrics mg = Some mc" for mc
    using counts_stored [OF race_invD(1) [OF inv] m(1) r _ _ race_invD(5) [OF inv that], of ?ts]
      lagging_at [OF k race_invD(4) [OF inv]] pr by (simp add: unreported_def)
  show "get_session j (mg\<lparr>mgr_registry := r\<rparr>) = get_session j mg" if "j \<noteq> ?i" for j
    using store.lookup_change [OF r', of j] that by (simp add: get_session_def)
  show "task_knows ((ts ! k)\<lparr>ut_progress := Stored old\<rparr>) (get_session ?i mg0) (get_session ?i (mg\<lparr>mgr_registry := r\<rparr>))"
    using store.lookup_change [OF r', of ?i] m start by (simp add: task_knows_def get_session_def)
qed (use race_invD [OF inv] in \<open>simp_all add: option.map_ident\<close>)

lemma race_metrics:
  assumes inv: "race_inv c mg0 ts mg" and k: "k < length ts"
    and "\<And>mc. mgr_metrics mg = Some mc \<Longrightarrow>
      counts_lagging (ts[k := (ts ! k)\<lparr>ut_progress := pr\<rparr>]) (mgr_registry mg) (f mc)"
    and "task_knows ((ts ! k)\<lparr>ut_progress := pr\<rparr>) (get_session (ut_session (ts ! k)) mg0)
      (get_session (ut_session (ts ! k)) mg)"
  shows "race_inv c mg0 (ts[k := (ts ! k)\<lparr>ut_progress := pr\<rparr>]) (with_metrics f mg)"
  by (rule race_invI [OF inv k, where f = f]) (use assms race_invD [OF inv] in simp_all)

lemma race_reported:
  assumes inv: "race_inv c mg0 ts mg" and k: "k < length ts" and pr: "ut_progress (ts ! k) = Pooled old"
  shows "race_inv c mg0 (ts[k := (ts ! k)\<lparr>ut_progress := Counted old\<rparr>])
    (with_metrics (record_status_change old (ut_status (ts ! k))) mg)"
proof (rule race_metrics [OF inv k])
  let ?i = "ut_session (ts ! k)" and ?ts = "ts[k := (ts ! k)\<lparr>ut_progress := Counted old\<rparr>]"
  have knows: "task_knows (ts ! k) (get_session ?i mg0) (get_session ?i mg)"
    using race_invD(6) [OF inv nth_mem [OF k]] .
  then obtain m where m: "reg_get (mgr_registry mg) ?i = Some m" "sm_status m = ut_status (ts ! k)"
    using pr by (auto simp: task_knows_def get_session_def)
  have "lagging ?ts = (lagging ts)(?i := None)"
    using lagging_update [OF k race_invD(4) [OF inv], of "Counted old"]
    by (auto simp: fun_eq_iff unreported_def)
  then show "counts_lagging ?ts (mgr_registry mg) (record_status_change old (ut_status (ts ! k)) mc)"
    if "mgr_metrics mg = Some mc" for mc
    using counts_reported [OF race_invD(1) [OF inv] m(1) _ _ race_invD(5) [OF inv that], of old ?ts]
      lagging_at [OF k race_invD(4) [OF inv]] pr m(2) by (simp add: unreported_def)
  show "task_knows ((ts ! k)\<lparr>ut_progress := Counted old\<rparr>) (get_session ?i mg0) (get_session ?i mg)"
    using knows pr by (simp add: task_knows_def)
qed

lemma task_turn_inv:
  assumes inv: "race_inv c mg0 ts mg" and k: "k < length ts"
    and step: "task_turn show_id now (ut_session (ts ! k)) (ut_status (ts ! k)) (ut_progress (ts ! k)) mg = (pr, mg1)"
  shows "race_inv c mg0 (ts[k := (ts ! k)\<lparr>ut_progress := pr\<rparr>]) mg1"
proof -
  let ?t = "ts ! k"
  let ?i = "ut_session ?t"
  have knows: "task_knows ?t (get_session ?i mg0) (get_session ?i mg)"
    by (rule race_invD(6) [OF inv nth_mem [OF k]])
  have present: "?i \<in> registered mg0" if "get_session ?i mg \<noteq> None"
    using that race_invD(2) [OF inv] registered_get by blast
  have quiet: "race_inv c mg0 (ts[k := ?t\<lparr>ut_progress := p\<rparr>]) (mg\<lparr>mgr_pool := q\<rparr>)"
    if "unreported (?t\<lparr>ut_progress := p\<rparr>) = unreported ?t" "reuse.within q (registered mg0)"
      "task_knows (?t\<lparr>ut_progress := p\<rparr>) (get_session ?i mg0) (get_session ?i mg)" for p q
    using race_quiet [OF inv k that] .
  have same_pool: "mg\<lparr>mgr_pool := mgr_pool mg\<rparr> = mg"
    by simp
  note within = race_invD(3) [OF inv]
  show ?thesis
  proof (cases "ut_progress ?t")
    case Fresh
    with step knows show ?thesis
      using quiet [of pr "mgr_pool mg"] within
      by (auto simp: task_turn_def task_knows_def unreported_def get_session_def split: option.splits)
  next
    case (Known old)
    then obtain r where r: "update_status show_id now (mgr_registry mg) ?i (ut_status ?t) = Inr r"
      using knows update_status_total by (fastforce simp: task_knows_def get_session_def)
    with step Known race_stored [OF inv k Known r] show ?thesis
      by (simp add: task_turn_def)
  next
    case (Stored old)
    have "pr = Pooled old \<and> mg1 = mg \<or> pr = Pooled old \<and> mg1 = pool_remove ?i mg \<or>
        (\<exists>m. reg_get (mgr_registry mg) ?i = Some m \<and> pr = Fetched old m \<and> mg1 = mg)"
      using step Stored by (auto simp: task_turn_def split: session_status.splits option.splits)
    moreover have "sm_id m = ?i" if "reg_get (mgr_registry mg) ?i = Some m" for m
      using registry_wfD(2) [OF registry_soundD(1) [OF race_invD(1) [OF inv]]] that by (simp add: reg_get_def)
    ultimately show ?thesis
      using knows Stored quiet [of pr "mgr_pool mg"] quiet [of pr "snd (remove_session ?i (mgr_pool mg))"] within
      by (auto simp: task_knows_def unreported_def pool_remove_def reuse.within_remove)
  next
    case (Fetched old m)
    with step knows show ?thesis
      using quiet [of pr "mgr_pool mg"] within
      by (auto simp: task_turn_def task_knows_def unreported_def split: if_splits)
  next
    case (Admitted old m)
    with knows present have "reuse.within (pool_push now m (mgr_pool mg)) (registered mg0)"
      using within by (auto simp: task_knows_def reuse.within_def pooled_push)
    with step knows Admitted show ?thesis
      using quiet [of pr "pool_push now m (mgr_pool mg)"]
      by (auto simp: task_turn_def task_knows_def unreported_def)
  next
    case (Pooled old)
    with step race_reported [OF inv k Pooled] show ?thesis
      by (simp add: task_turn_def)
  next
    case (Counted old)
    have "lagging (ts[k := ?t\<lparr>ut_progress := Finished (Inr ())\<rparr>]) = lagging ts"
      using lagging_update [OF k race_invD(4) [OF inv], of "Finished (Inr ())"]
        lagging_at [OF k race_invD(4) [OF inv]] Counted by (auto simp: fun_eq_iff unreported_def)
    then have "race_inv c mg0 (ts[k := ?t\<lparr>ut_progress := Finished (Inr ())\<rparr>])
        (with_metrics (record_connection old (ut_status ?t)) mg)"
      using knows Counted by (intro race_metrics [OF inv k] counts_lagging_cong [OF race_invD(5) [OF inv]])
        (simp_all add: task_knows_def)
    with step Counted show ?thesis
      by (simp add: task_turn_def)
  next
    case (Finished res)
    then have "?t\<lparr>ut_progress := pr\<rparr> = ?t" and "mg1 = mg"
      using step by (simp_all add: task_turn_def)
    with inv show ?thesis
      by (simp only: list_update_id)
  qed
qed

lemma turn_inv:
  assumes "race_inv c mg0 (fst st) (snd st)"
  shows "race_inv c mg0 (fst (turn show_id kn st)) (snd (turn show_id kn st))"
  using assms task_turn_inv [of c mg0 "fst st" "snd st" "fst kn" show_id "snd kn"]
  by (auto simp: turn_def Let_def split: prod.split)

lemma interleave_inv:
  "race_inv c mg0 (fst st) (snd st) \<Longrightarrow>
   race_inv c mg0 (fst (interleave show_id sch st)) (snd (interleave show_id sch st))"
  by (induction sch arbitrary: st) (simp_all add: turn_inv)

subsection \<open>Progress\<close>

text \<open>Every turn of a task brings it closer to its end, and the turns of the others do not concern it.\<close>

fun turns_left :: "progress \<Rightarrow> nat" where
  "turns_left Fresh = 7"
| "turns_left (Known _) = 6"
| "turns_left (Stored _) = 5"
| "turns_left (Fetched _ _) = 4"
| "turns_left (Admitted _ _) = 3"
| "turns_left (Pooled _) = 2"
| "turns_left (Counted _) = 1"
| "turns_left (Finished _) = 0"

lemma turns_left_turn: "turns_left (fst (task_turn show_id now i s pr mg)) \<le> turns_left pr - 1"
  by (cases pr) (simp_all add: task_turn_def split: option.split sum.split session_status.split)

lemma turn_task:
  "length (fst (turn show_id kn st)) = length (fst st)"
  "k < length (fst st) \<Longrightarrow> ut_session (fst (turn show_id kn st) ! k) = ut_session (fst st ! k) \<and>
    ut_status (fst (turn show_id kn st) ! k) = ut_status (fst st ! k) \<and>
    turns_left (ut_progress (fst (turn show_id kn st) ! k)) \<le>
      turns_left (ut_progress (fst st ! k)) - (if fst kn = k then 1 else 0)"
  by (auto simp: turn_def Let_def case_prod_unfold nth_list_update turns_left_turn [simplified])

lemma interleave_task:
  "length (fst (interleave show_id sch st)) = length (fst st) \<and>
   (k < length (fst st) \<longrightarrow>
     ut_session (fst (interleave show_id sch st) ! k) = ut_session (fst st ! k) \<and>
     ut_status (fst (interleave show_id sch st) ! k) = ut_status (fst st ! k) \<and>
     turns_left (ut_progress (fst (interleave show_id sch st) ! k)) \<le>
       turns_left (ut_progress (fst st ! k)) - count_list (map fst sch) k)"
proof (induction sch arbitrary: st)
  case (Cons kn sch)
  show ?case
    using Cons.IH [of "turn show_id kn st"] turn_task(1) [of show_id kn st] turn_task(2) [of k st show_id kn]
    by (auto split: if_splits)
qed simp

lemma turns_left_0: "turns_left pr = 0 \<longleftrightarrow> (\<exists>res. pr = Finished res)"
  by (cases pr) simp_all

lemma lagging_none: "\<forall>t\<in>set ts. unreported t = None \<Longrightarrow> lagging ts i = None"
proof (cases "map_of (map (\<lambda>t. (ut_session t, t)) ts) i")
  case (Some t)
  moreover assume "\<forall>t\<in>set ts. unreported t = None"
  moreover have "t \<in> set ts"
    using map_of_SomeD [OF Some] by auto
  ultimately show ?thesis
    by (simp add: lagging_def)
qed (simp add: lagging_def)

lemma counts_lagging_none:
  "\<forall>t\<in>set ts. unreported t = None \<Longrightarrow> counts_lagging ts r mc \<longleftrightarrow> counts True r mc"
  by (simp add: counts_lagging_def counts_def counted_status_def lagging_none has_status_def [abs_def])

lemma race_inv_start:
  assumes "manager_inv True c mg" and "distinct (map fst us)"
  shows "race_inv c mg (map (case_prod update_begins) us) mg"
proof -
  let ?ts = "map (case_prod update_begins) us"
  have fresh: "ut_progress t = Fresh" if "t \<in> set ?ts" for t
    using that by (auto simp: update_begins_def)
  then have "\<forall>t\<in>set ?ts. unreported t = None"
    by (simp add: unreported_def)
  note counts = counts_lagging_none [OF this]
  have "map ut_session ?ts = map fst us"
    by (simp add: update_begins_def case_prod_unfold)
  then have "distinct (map ut_session ?ts)"
    using assms(2) by metis
  then show ?thesis
    using assms(1) fresh unfolding race_inv_def counts task_knows_def by (simp add: manager_inv_def del: map_map)
qed

lemma race_inv_end:
  assumes "race_inv c mg0 ts mg" and "\<forall>t\<in>set ts. finished t"
  shows "manager_inv True c mg"
proof -
  have "\<forall>t\<in>set ts. unreported t = None"
    using assms(2) by (auto simp: finished_def unreported_def)
  then show ?thesis
    using assms(1) by (simp add: race_inv_def manager_inv_def counts_lagging_none)
qed

section \<open>What holds\<close>

text \<open>C7. Left alone, the turns of a task are \<open>update_session_status\<close>: seven turns in a row return its
  result and leave the manager as it does, and the other tasks are where they were.\<close>

theorem uninterrupted_task_is_update:
  assumes "k < length ts" and "ts ! k = update_begins i s" and "7 \<le> n"
  shows "interleave show_id (replicate n (k, now)) (ts, mg) =
    (let (res, mg') = update_session_status show_id now i s mg
     in (ts[k := (update_begins i s)\<lparr>ut_progress := Finished res\<rparr>], mg'))"
proof -
  have "n = Suc (Suc (Suc (Suc (Suc (Suc (Suc (n - 7)))))))"
    using assms(3) by simp
  then show ?thesis
    using interleave_one [OF assms(1,2), of show_id n now mg]
      seven_turns [of show_id now i s "n - 7" mg] by (simp add: update_begins_def case_prod_unfold Let_def)
qed

theorem uninterrupted_task_is_update_witness:
  "ut_progress (fst (interleave (\<lambda>_. []) (replicate 7 (0, 9)) ([update_begins 1 Idle], busy_manager)) ! 0) = Finished (Inr ())"
  using uninterrupted_task_is_update [of 0 "[update_begins 1 Idle]" 1 Idle 7 "\<lambda>_. []" 9 busy_manager]
    status_result [of "\<lambda>_. []" 9 1 Idle busy_manager] busy_manager_session
  by (simp add: case_prod_unfold session_exists_get)

text \<open>C6. Status updates of different sessions may interleave in any way. At every moment the registry
  is well formed and within its limit and the pool holds registered sessions only. Once every task has
  had its seven turns all of them have returned, the manager is in a consistent state, its statistics
  exact, and every session that exists has the status asked for.\<close>

theorem concurrent_updates_consistent:
  assumes "manager_run True c mg" and "distinct (map fst us)"
    and "interleave show_id sch (map (case_prod update_begins) us, mg) = (ts, mg')"
  shows "registry_sound (cfg_registry c) (mgr_registry mg') \<and>
    pooled_ids (mgr_pool mg') \<subseteq> registered mg' \<and>
    ((\<forall>k<length us. 7 \<le> count_list (map fst sch) k) \<longrightarrow>
      manager_inv True c mg' \<and>
      (\<forall>(i, s)\<in>set us. map_option sm_status (get_session i mg') = map_option (\<lambda>_. s) (get_session i mg)))"
proof -
  let ?ts = "map (case_prod update_begins) us"
  have inv: "race_inv c mg ts mg'"
    using interleave_inv [of c mg "(?ts, mg)" show_id sch] race_inv_start [OF manager_run_inv [OF assms(1)] assms(2)]
      assms(3) by simp
  have "manager_inv True c mg' \<and>
      (\<forall>(i, s)\<in>set us. map_option sm_status (get_session i mg') = map_option (\<lambda>_. s) (get_session i mg))"
    if fair: "\<forall>k<length us. 7 \<le> count_list (map fst sch) k"
  proof -
    have task: "finished (ts ! k) \<and> ut_session (ts ! k) = fst (us ! k) \<and> ut_status (ts ! k) = snd (us ! k)"
      and len: "length ts = length us" if "k < length us" for k
      using interleave_task [of show_id sch "(?ts, mg)" k] assms(3) fair [rule_format, OF that] that
      by (auto simp: finished_def turns_left_0 [symmetric] update_begins_def case_prod_unfold)
    have "length ts = length us"
      using interleave_task [of show_id sch "(?ts, mg)" 0] assms(3) by simp
    then have "\<forall>t\<in>set ts. finished t"
      using task by (auto simp: set_conv_nth)
    then have "manager_inv True c mg'"
      by (rule race_inv_end [OF inv])
    moreover have "map_option sm_status (get_session i mg') = map_option (\<lambda>_. s) (get_session i mg)"
      if "(i, s) \<in> set us" for i s
    proof -
      obtain k where k: "k < length us" "us ! k = (i, s)"
        using \<open>(i, s) \<in> set us\<close> by (auto simp: in_set_conv_nth)
      then have "ts ! k \<in> set ts"
        using \<open>length ts = length us\<close> by simp
      then show ?thesis
        using race_invD(6) [OF inv, of "ts ! k"] task [OF k(1)] k(2)
        by (auto simp: task_knows_def finished_def split: sum.splits)
    qed
    ultimately show ?thesis
      by auto
  qed
  then show ?thesis
    using race_invD(1-3) [OF inv] by (simp add: reuse.within_def)
qed

theorem concurrent_updates_consistent_witness:
  "\<exists>ts mg'. interleave (\<lambda>_. []) (concat (replicate 7 [(0, 9), (1, 9)]))
      (map (case_prod update_begins) [(1, Failed), (2, Active)], busy_manager) = (ts, mg') \<and>
    manager_inv True manager_config_default mg' \<and> map_option sm_status (get_session 1 mg') = Some Failed"
proof -
  obtain ts mg' where run: "interleave (\<lambda>_. []) (concat (replicate 7 [(0, 9), (1, 9)]))
      (map (case_prod update_begins) [(1, Failed), (2, Active)], busy_manager) = (ts, mg')"
    by fastforce
  have fair: "\<forall>k<length [(1 :: session_id, Failed), (2, Active)].
      7 \<le> count_list (map fst (concat (replicate 7 [(0 :: nat, 9 :: time), (1, 9)]))) k"
    by (simp add: numeral_eq_Suc less_Suc_eq)
  show ?thesis
    using concurrent_updates_consistent [OF busy_manager_run _ run] fair run busy_manager_session by auto
qed

section \<open>What does not hold\<close>

text \<open>Two tasks that set the same status: both look at the session first, then each does the rest.\<close>

lemma both_look_first:
  assumes reg: "reg_get (mgr_registry mg) i = Some m"
    and r: "update_status show_id a (mgr_registry mg) i s = Inr r"
    and r2: "update_status show_id b r i s = Inr r2"
    and mg1: "mg1 = with_metrics (record_outcome (sm_status m) s) (repool a i s (mg\<lparr>mgr_registry := r\<rparr>))"
  shows "interleave show_id ([(0, a), (1, b)] @ replicate 6 (0, a) @ replicate 6 (1, b))
      ([update_begins i s, update_begins i s], mg) =
    (let t = (update_begins i s)\<lparr>ut_progress := Finished (Inr ())\<rparr>
     in ([t, t], with_metrics (record_outcome (sm_status m) s) (repool b i s (mg1\<lparr>mgr_registry := r2\<rparr>))))"
proof -
  let ?t = "update_begins i s"
  let ?known = "?t\<lparr>ut_progress := Known (sm_status m)\<rparr>" and ?done = "?t\<lparr>ut_progress := Finished (Inr ())\<rparr>"
  let ?mg2 = "with_metrics (record_outcome (sm_status m) s) (repool b i s (mg1\<lparr>mgr_registry := r2\<rparr>))"
  have look: "interleave show_id [(0, a), (1, b)] ([?t, ?t], mg) = ([?known, ?known], mg)"
    using reg by (simp add: turn_def task_turn_def update_begins_def)
  have six: "Suc (Suc (Suc (Suc (Suc (Suc 0))))) = 6"
    by simp
  have one: "interleave show_id (replicate 6 (0, a)) ([?known, ?known], mg) = ([?done, ?known], mg1)"
    using interleave_one [of 0 "[?known, ?known]" ?known show_id 6 a mg]
      turns_known [OF r, of 0 "sm_status m", unfolded six] by (simp add: update_begins_def mg1)
  have "interleave show_id (replicate 6 (1, b)) ([?done, ?known], mg1) = ([?done, ?done], ?mg2)"
    using interleave_one [of 1 "[?done, ?known]" ?known show_id 6 b mg1]
      turns_known [of show_id b mg1 i s r2 0 "sm_status m", unfolded six] r2
    by (simp add: update_begins_def mg1)
  then show ?thesis
    by (simp only: interleave_append look one Let_def)
qed

text \<open>C33. Two tasks that report the same connected session: both read the status \<open>Connecting\<close> before
  either stores \<open>Active\<close>, both return without an error, and the metrics count two sessions and two
  successful connections where there is one.\<close>

theorem same_session_counted_twice:
  assumes "manager_run kept c mg" and "get_session i mg = Some m" and "sm_status m = Connecting"
    and "mgr_metrics mg = Some mc" and "interleave show_id ([(0, a), (1, b)] @ replicate 6 (0, a) @ replicate 6 (1, b))
      ([update_begins i Active, update_begins i Active], mg) = (ts, mg')"
  shows "map ut_progress ts = [Finished (Inr ()), Finished (Inr ())] \<and>
    (\<exists>mc'. mgr_metrics mg' = Some mc' \<and>
      active_sessions (mc_metrics mc') = active_sessions (mc_metrics mc) + 2 \<and>
      successful_connections (mc_metrics mc') = successful_connections (mc_metrics mc) + 2) \<and>
    count_by_status (mgr_registry mg') Active = count_by_status (mgr_registry mg) Active + 1"
proof -
  let ?f = "record_outcome Connecting Active"
  have reg: "reg_get (mgr_registry mg) i = Some m"
    using assms(2) by (simp add: get_session_def)
  obtain r where r: "update_status show_id a (mgr_registry mg) i Active = Inr r"
    using update_status_total [OF reg] by blast
  note r' = r [unfolded update_status_def]
  have reg1: "reg_get r i = Some (set_status a Active m)"
    using store.lookup_change [OF r', of i] reg by simp
  then obtain r2 where r2: "update_status show_id b r i Active = Inr r2"
    using update_status_total by blast
  have wf: "registry_wf (mgr_registry mg)"
    by (rule registry_soundD(1) [OF manager_invD(1) [OF manager_run_inv [OF assms(1)]]])
  have "tally (has_status Active) r2 = tally (has_status Active) (mgr_registry mg) + 1"
    using store.tally_change [OF wf reg r', of "has_status Active"] assms(3)
      store.tally_change [OF registry_wf_status [OF wf r] reg1 r2 [unfolded update_status_def], of "has_status Active"]
    by (simp add: has_status_def)
  moreover have "map ut_progress ts = [Finished (Inr ()), Finished (Inr ())]" and "mgr_registry mg' = r2"
    and "mgr_metrics mg' = Some (?f (?f mc))"
    using both_look_first [OF reg r r2 refl] assms(3-5) by (auto simp: Let_def)
  ultimately show ?thesis
    by (simp add: count_by_status_tally record_outcome_def record_status_change_def leave_status_def
        enter_status_def record_connection_success_def Let_def update_connection_success_rate_def)
qed

theorem same_session_counted_twice_witness:
  "\<exists>mg ts mg' mc mc'. interleave (\<lambda>_. []) ([(0, 8), (1, 9)] @ replicate 6 (0, 8) @ replicate 6 (1, 9))
      ([update_begins 1 Active, update_begins 1 Active], mg) = (ts, mg') \<and>
    mgr_metrics mg = Some mc \<and> mgr_metrics mg' = Some mc' \<and>
    active_sessions (mc_metrics mc') = active_sessions (mc_metrics mc) + 2"
proof -
  define mg where "mg = snd (update_session_status (\<lambda>_. []) 7 1 Connecting busy_manager)"
  have run: "manager_run True manager_config_default mg"
    unfolding mg_def by (intro mr_status busy_manager_run)
  obtain m where m: "get_session 1 mg = Some m" "sm_status m = Connecting"
    using busy_manager_session by (auto simp: mg_def get_session_status)
  obtain mc where mc: "mgr_metrics mg = Some mc"
    using manager_run_inv [OF run] by (auto simp: manager_inv_def manager_config_default_def)
  obtain ts mg' where step: "interleave (\<lambda>_. []) ([(0, 8), (1, 9)] @ replicate 6 (0, 8) @ replicate 6 (1, 9))
      ([update_begins 1 Active, update_begins 1 Active], mg) = (ts, mg')"
    by fastforce
  from same_session_counted_twice [OF run m mc step] obtain mc' where "mgr_metrics mg' = Some mc'"
    "active_sessions (mc_metrics mc') = active_sessions (mc_metrics mc) + 2"
    by blast
  then show ?thesis
    using step mc by (intro exI conjI)
qed

text \<open>C34. A task that takes a session to \<open>Idle\<close> reads its metadata back and then offers them to the pool. If
  another task takes the session to \<open>Active\<close> in between, and the pool has room, both return without an error
  and the session ends active and in the pool.\<close>

theorem idle_task_pools_active_session:
  assumes "manager_run kept c mg" and "get_session i mg = Some m"
    and "pool_admits (snd (remove_session i (mgr_pool mg))) (set_status a Idle m)"
    and "interleave show_id (replicate 3 (0, a) @ replicate 7 (1, b) @ replicate 4 (0, d))
      ([update_begins i Idle, update_begins i Active], mg) = (ts, mg')"
  shows "map ut_progress ts = [Finished (Inr ()), Finished (Inr ())] \<and>
    map_option sm_status (get_session i mg') = Some Active \<and> is_pooled i (mgr_pool mg')"
proof -
  let ?s = "update_begins i Idle" and ?t = "update_begins i Active" and ?m = "set_status a Idle m"
  let ?fin = "Finished (Inr ())" and ?old = "sm_status m"
  have reg: "reg_get (mgr_registry mg) i = Some m"
    using assms(2) by (simp add: get_session_def)
  have id: "sm_id m = i"
    using registry_wfD(2) [OF registry_soundD(1) [OF manager_invD(1) [OF manager_run_inv [OF assms(1)]]]] reg
    by (simp add: reg_get_def)
  obtain r where r: "update_status show_id a (mgr_registry mg) i Idle = Inr r"
    using update_status_total [OF reg] by blast
  define mg1 where "mg1 = mg\<lparr>mgr_registry := r\<rparr>"
  have reg1: "reg_get (mgr_registry mg1) i = Some ?m"
    using store.lookup_change [OF r [unfolded update_status_def], of i] reg by (simp add: mg1_def)
  define mg2 where "mg2 = snd (update_session_status show_id b i Active mg1)"
  obtain r2 where r2: "update_status show_id b (mgr_registry mg1) i Active = Inr r2"
    using update_status_total [OF reg1] by blast
  have upd: "update_session_status show_id b i Active mg1 = (Inr (), mg2)"
    using status_step [OF reg1 r2] by (simp add: mg2_def)
  have pool2: "mgr_pool mg2 = snd (remove_session i (mgr_pool mg))"
    using status_step [OF reg1 r2] upd by (simp add: repool_def mg1_def) auto
  define mg3 where "mg3 = with_metrics (record_outcome ?old Idle) (mg2\<lparr>mgr_pool := pool_push d ?m (mgr_pool mg2)\<rparr>)"
  have A: "interleave show_id (replicate 3 (0, a)) ([?s, ?t], mg) = ([?s\<lparr>ut_progress := Fetched ?old ?m\<rparr>, ?t], mg1)"
    using reg r reg1 by (simp add: numeral_3_eq_3 turn_def task_turn_def update_begins_def mg1_def)
  have B: "interleave show_id (replicate 7 (1, b)) ([?s\<lparr>ut_progress := Fetched ?old ?m\<rparr>, ?t], mg1)
      = ([?s\<lparr>ut_progress := Fetched ?old ?m\<rparr>, ?t\<lparr>ut_progress := ?fin\<rparr>], mg2)"
    using interleave_one [of 1 "[?s\<lparr>ut_progress := Fetched ?old ?m\<rparr>, ?t]" ?t show_id 7 b mg1]
      seven_turns [of show_id b i Active 0 mg1] upd by (simp add: update_begins_def eval_nat_numeral)
  have C: "interleave show_id (replicate 4 (0, d)) ([?s\<lparr>ut_progress := Fetched ?old ?m\<rparr>, ?t\<lparr>ut_progress := ?fin\<rparr>], mg2)
      = ([?s\<lparr>ut_progress := ?fin\<rparr>, ?t\<lparr>ut_progress := ?fin\<rparr>], mg3)"
    using assms(3) unfolding pool2 [symmetric]
    by (simp add: eval_nat_numeral turn_def task_turn_def update_begins_def mg3_def with_metrics_twice
        record_outcome_steps [abs_def])
  have result: "ts = [?s\<lparr>ut_progress := ?fin\<rparr>, ?t\<lparr>ut_progress := ?fin\<rparr>]" "mg' = mg3"
    using assms(4) by (simp_all only: interleave_append A B C prod.inject)
  have "map_option sm_status (get_session i mg2) = Some Active"
    using get_session_status [of i show_id b i Active mg1] reg1 by (simp add: mg2_def get_session_def)
  then show ?thesis
    using id by (simp add: result mg3_def get_session_def is_pooled_def pool_push_def hm_contains_iff)
qed

theorem idle_task_pools_active_session_witness:
  "\<exists>ts mg'. interleave (\<lambda>_. []) (replicate 3 (0, 8) @ replicate 7 (1, 9) @ replicate 4 (0, 9))
      ([update_begins 1 Idle, update_begins 1 Active], busy_manager) = (ts, mg') \<and>
    map_option sm_status (get_session 1 mg') = Some Active \<and> is_pooled 1 (mgr_pool mg')"
proof -
  obtain m where m: "get_session 1 busy_manager = Some m"
    using busy_manager_session by blast
  have "mgr_pool busy_manager = pool_new pool_config_default"
    by (simp add: busy_manager_def update_session_status_def repool_def create_session_def register_def
        register_check_def manager_new_def registry_new_def manager_config_default_def
        registry_config_default_def pool_new_def Let_def update_status_def reg_modify_def reg_get_def
        remove_session_def split: option.split)
  then have "pool_admits (snd (remove_session 1 (mgr_pool busy_manager))) (set_status 8 Idle m)"
    by (simp add: pool_admits_def remove_session_def pool_new_def pool_config_default_def has_room_def)
  note admits = this
  obtain ts mg' where step: "interleave (\<lambda>_. []) (replicate 3 (0, 8) @ replicate 7 (1, 9) @ replicate 4 (0, 9))
      ([update_begins 1 Idle, update_begins 1 Active], busy_manager) = (ts, mg')"
    by fastforce
  from idle_task_pools_active_session [OF busy_manager_run m admits step] step show ?thesis
    by blast
qed

section \<open>Two callers, one pooled session\<close>

text \<open>\<open>connect_or_create_session\<close> after its search of the pool: what a caller does with the session it
  found, by when other callers may have searched as well.\<close>

definition connect_after_find ::
    "(session_id \<Rightarrow> string) \<Rightarrow> time \<Rightarrow> session_id \<Rightarrow> string \<Rightarrow> transport_config \<Rightarrow> session_id option \<Rightarrow> manager
     \<Rightarrow> (yuha_error + session_id \<times> bool) \<times> manager" where
  "connect_after_find show_id now fresh name tc found mg =
     (case found of
        Some i \<Rightarrow>
          (case use_session show_id now i mg of
             (Inl e, mg1) \<Rightarrow> (Inl e, mg1)
           | (Inr _, mg1) \<Rightarrow> (Inr (i, True), mg1))
      | None \<Rightarrow>
          (case create_session now fresh name tc [] None mg of
             (Inl e, mg1) \<Rightarrow> (Inl e, mg1)
           | (Inr i, mg1) \<Rightarrow> (Inr (i, False), mg1)))"

lemma connect_steps:
  "connect_or_create_session show_id now fresh name tc mg =
   connect_after_find show_id now fresh name tc (find_reusable_session now (connection_key tc) mg) mg"
  by (simp add: connect_or_create_session_def connect_after_find_def)

lemma use_session_registered:
  assumes "i \<in> registered mg"
  shows "fst (use_session show_id now i mg) = Inr () \<and> i \<in> registered (snd (use_session show_id now i mg))"
proof -
  obtain m where m: "reg_get (mgr_registry mg) i = Some m"
    using assms by (auto simp: registered_def)
  then obtain r where r: "reg_mark_used show_id now (mgr_registry mg) i = Inr r"
    by (simp add: reg_mark_used_def reg_modify_def reg_get_def)
  then have used: "reg_get r i = Some (mark_used now m)"
    using store.lookup_change [OF r [unfolded reg_mark_used_def], of i] m by simp
  let ?mg = "with_metrics (record_session_usage i (sm_use_count (mark_used now m))) (mg\<lparr>mgr_registry := r\<rparr>)"
  have in_r: "get_session i ?mg = Some (mark_used now m)"
    using used by (simp add: get_session_def)
  have "use_session show_id now i mg =
      (if sm_status m = Idle then update_session_status show_id now i Active ?mg else (Inr (), ?mg))"
    using r used by (simp add: use_session_def Let_def)
  then show ?thesis
    using in_r status_result [of show_id now i Active ?mg] get_session_status [of i show_id now i Active ?mg]
    by (simp add: session_exists_get registered_get)
qed

text \<open>The pool keeps a session it has offered until it is used, so of two callers that search before either
  has used what it found, both are given the same session, each as reused.\<close>

lemma two_callers_share_session:
  assumes "manager_run kept c mg" and "find_reusable_session now (connection_key tc) mg = Some i"
    and "connect_after_find show_id a x name tc (find_reusable_session now (connection_key tc) mg) mg = (res1, mg1)"
    and "connect_after_find show_id b y name' tc (find_reusable_session now (connection_key tc) mg) mg1 = (res2, mg2)"
  shows "res1 = Inr (i, True) \<and> res2 = Inr (i, True)"
proof -
  have "i \<in> registered mg"
    using reuse.offered_is_known [OF manager_invD(2) [OF manager_run_inv [OF assms(1)]]] assms(2)
    by (simp add: find_reusable_session_def)
  note one = use_session_registered [OF this, of show_id a]
  then have "mg1 = snd (use_session show_id a i mg)" and "res1 = Inr (i, True)"
    using assms(2,3) by (auto simp: connect_after_find_def split: prod.splits sum.splits)
  then show ?thesis
    using use_session_registered [of i mg1 show_id b] one assms(2,4)
    by (auto simp: connect_after_find_def split: prod.splits sum.splits)
qed

end
