(* ===== verification/Locks.thy ===== *)
theory Locks
  imports Prelude
begin

text \<open>
  The read-write locks of \<open>tokio\<close> (\<open>RwLock\<close>, and \<open>Mutex\<close> as a lock that is only taken exclusively), as far
  as the order of waiting goes: a request waits in line, and is granted when no earlier request for the
  same lock is waiting and no task holds the lock in a conflicting mode. A task is the sequence of the
  locks it takes and releases; what it does in between is irrelevant here. The theory shows that tasks
  that take their locks in ascending order never block each other for ever.
\<close>

section \<open>Tasks and locks\<close>

datatype access = Shared | Exclusive

datatype 'l lock_action = Acquire 'l access | Release 'l

record 'l lock_task =
  lt_script :: "'l lock_action list"
  lt_held :: "('l \<times> access) list"

record 'l lock_state =
  ls_tasks :: "'l lock_task list"
  ls_queue :: "nat list"

definition begins :: "'l lock_action list list \<Rightarrow> 'l lock_state" where
  "begins scripts = \<lparr>ls_tasks = map (\<lambda>s. \<lparr>lt_script = s, lt_held = []\<rparr>) scripts, ls_queue = []\<rparr>"

fun wanted :: "'l lock_action list \<Rightarrow> ('l \<times> access) option" where
  "wanted (Acquire l a # s) = Some (l, a)"
| "wanted _ = None"

definition wants_lock :: "'l lock_state \<Rightarrow> 'l \<Rightarrow> nat \<Rightarrow> bool" where
  "wants_lock st l k \<longleftrightarrow> map_option fst (wanted (lt_script (ls_tasks st ! k))) = Some l"

definition conflicts :: "'l \<Rightarrow> access \<Rightarrow> 'l lock_task \<Rightarrow> bool" where
  "conflicts l a t \<longleftrightarrow> list_ex (\<lambda>(l', b). l' = l \<and> (a = Exclusive \<or> b = Exclusive)) (lt_held t)"

datatype move = Arrive nat | Grant nat | Free nat

definition lock_move :: "move \<Rightarrow> 'l lock_state \<Rightarrow> 'l lock_state option" where
  "lock_move mv st =
     (case mv of
        Arrive k \<Rightarrow>
          if k < length (ls_tasks st) \<and> k \<notin> set (ls_queue st) \<and> wanted (lt_script (ls_tasks st ! k)) \<noteq> None
          then Some (st\<lparr>ls_queue := ls_queue st @ [k]\<rparr>) else None
      | Grant k \<Rightarrow>
          (if k < length (ls_tasks st) \<and> k \<in> set (ls_queue st)
           then (case lt_script (ls_tasks st ! k) of
                   Acquire l a # s \<Rightarrow>
                     if list_ex (wants_lock st l) (takeWhile (\<lambda>j. j \<noteq> k) (ls_queue st)) \<or>
                        list_ex (conflicts l a) (ls_tasks st)
                     then None
                     else Some (st\<lparr>ls_tasks := (ls_tasks st)[k := (ls_tasks st ! k)
                                     \<lparr>lt_script := s, lt_held := (l, a) # lt_held (ls_tasks st ! k)\<rparr>],
                                   ls_queue := removeAll k (ls_queue st)\<rparr>)
                 | _ \<Rightarrow> None)
           else None)
      | Free k \<Rightarrow>
          (if k < length (ls_tasks st)
           then (case lt_script (ls_tasks st ! k) of
                   Release l # s \<Rightarrow>
                     Some (st\<lparr>ls_tasks := (ls_tasks st)[k := (ls_tasks st ! k)
                                \<lparr>lt_script := s, lt_held := filter (\<lambda>(l', _). l' \<noteq> l) (lt_held (ls_tasks st ! k))\<rparr>]\<rparr>)
                 | _ \<Rightarrow> None)
           else None))"

fun lock_moves :: "move list \<Rightarrow> 'l lock_state \<Rightarrow> 'l lock_state option" where
  "lock_moves [] st = Some st"
| "lock_moves (mv # mvs) st = (case lock_move mv st of Some st' \<Rightarrow> lock_moves mvs st' | None \<Rightarrow> None)"

definition all_done :: "'l lock_state \<Rightarrow> bool" where
  "all_done st \<longleftrightarrow> list_all (\<lambda>t. lt_script t = []) (ls_tasks st)"

definition stuck :: "'l lock_state \<Rightarrow> bool" where
  "stuck st \<longleftrightarrow> \<not> all_done st \<and>
     list_all (\<lambda>k. lock_move (Arrive k) st = None \<and> lock_move (Grant k) st = None \<and> lock_move (Free k) st = None)
       [0..<length (ls_tasks st)]"

lemma lock_moves_append:
  "lock_moves (mvs @ mvs') st = (case lock_moves mvs st of Some st' \<Rightarrow> lock_moves mvs' st' | None \<Rightarrow> None)"
  by (induction mvs arbitrary: st) (simp_all split: option.split)

lemma stuckI:
  assumes "\<And>mv. lock_move mv st = None" and "\<not> all_done st"
  shows "stuck st"
  using assms by (simp add: stuck_def list_all_iff)

fun mover :: "move \<Rightarrow> nat" where
  "mover (Arrive k) = k"
| "mover (Grant k) = k"
| "mover (Free k) = k"

lemma lock_move_mover: "length (ls_tasks st) \<le> mover mv \<Longrightarrow> lock_move mv st = None"
  by (cases mv) (simp_all add: lock_move_def)

lemma stuckD: "stuck st \<Longrightarrow> lock_move mv st = None"
  using lock_move_mover [of st mv]
  by (cases "mover mv < length (ls_tasks st)"; cases mv) (auto simp: stuck_def list_all_iff)

section \<open>Scripts in ascending order\<close>

text \<open>Every lock a task asks for ranks above those it holds, and in the end it has given all of them back.\<close>

fun ascending :: "('l \<Rightarrow> nat) \<Rightarrow> 'l list \<Rightarrow> 'l lock_action list \<Rightarrow> bool" where
  "ascending rank ls [] \<longleftrightarrow> ls = []"
| "ascending rank ls (Acquire l a # s) \<longleftrightarrow> list_all (\<lambda>l'. rank l' < rank l) ls \<and> ascending rank (l # ls) s"
| "ascending rank ls (Release l # s) \<longleftrightarrow> l \<in> set ls \<and> ascending rank (filter (\<lambda>l'. l' \<noteq> l) ls) s"

text \<open>A critical section: the lock is held while the body runs.\<close>

definition hold :: "'l \<Rightarrow> access \<Rightarrow> 'l lock_action list \<Rightarrow> 'l lock_action list" where
  "hold l a body = Acquire l a # body @ [Release l]"

definition lock_inv :: "('l \<Rightarrow> nat) \<Rightarrow> 'l lock_state \<Rightarrow> bool" where
  "lock_inv rank st \<longleftrightarrow>
     (\<forall>t\<in>set (ls_tasks st). ascending rank (map fst (lt_held t)) (lt_script t)) \<and>
     (\<forall>k\<in>set (ls_queue st). k < length (ls_tasks st) \<and> wanted (lt_script (ls_tasks st ! k)) \<noteq> None)"

lemma lock_inv_begins:
  "\<forall>s\<in>set scripts. ascending rank [] s \<Longrightarrow> lock_inv rank (begins scripts)"
  by (simp add: lock_inv_def begins_def)

lemma lock_inv_move:
  assumes "lock_inv rank st" and "lock_move mv st = Some st'"
  shows "lock_inv rank st'"
proof -
  have map_filter: "map fst (filter (\<lambda>(l', _). l' \<noteq> l) hs) = filter (\<lambda>l'. l' \<noteq> l) (map fst hs)"
    for l and hs :: "('a \<times> access) list"
    by (induction hs) auto
  have task: "ascending rank (map fst (lt_held (ls_tasks st ! k))) (lt_script (ls_tasks st ! k))"
    if "k < length (ls_tasks st)" for k
    using assms(1) that by (simp add: lock_inv_def)
  have upd: "\<forall>t\<in>set ((ls_tasks st)[k := u]). ascending rank (map fst (lt_held t)) (lt_script t)"
    if "ascending rank (map fst (lt_held u)) (lt_script u)" for k u
    using assms(1) that set_update_subset_insert [of "ls_tasks st" k u] by (auto simp: lock_inv_def)
  show ?thesis
  proof (cases mv)
    case (Arrive k)
    with assms show ?thesis
      by (auto simp: lock_move_def lock_inv_def split: if_splits)
  next
    case (Grant k)
    with assms(2) obtain l a s where g: "k < length (ls_tasks st)" "lt_script (ls_tasks st ! k) = Acquire l a # s"
      "st' = st\<lparr>ls_tasks := (ls_tasks st)[k := (ls_tasks st ! k)
          \<lparr>lt_script := s, lt_held := (l, a) # lt_held (ls_tasks st ! k)\<rparr>], ls_queue := removeAll k (ls_queue st)\<rparr>"
      by (auto simp: lock_move_def split: if_splits list.splits lock_action.splits)
    have tasks': "ls_tasks st' = (ls_tasks st)[k := (ls_tasks st ! k)
        \<lparr>lt_script := s, lt_held := (l, a) # lt_held (ls_tasks st ! k)\<rparr>]"
      using g(3) by simp
    have "\<forall>t\<in>set (ls_tasks st'). ascending rank (map fst (lt_held t)) (lt_script t)"
      unfolding tasks' by (rule upd) (use task [OF g(1)] g(2) in simp)
    with g assms(1) show ?thesis
      by (simp add: lock_inv_def nth_list_update)
  next
    case (Free k)
    with assms(2) obtain l s where g: "k < length (ls_tasks st)" "lt_script (ls_tasks st ! k) = Release l # s"
      "st' = st\<lparr>ls_tasks := (ls_tasks st)[k := (ls_tasks st ! k)
          \<lparr>lt_script := s, lt_held := filter (\<lambda>(l', _). l' \<noteq> l) (lt_held (ls_tasks st ! k))\<rparr>]\<rparr>"
      by (auto simp: lock_move_def split: if_splits list.splits lock_action.splits)
    then have "k \<notin> set (ls_queue st)"
      using assms(1) by (auto simp: lock_inv_def)
    moreover have tasks': "ls_tasks st' = (ls_tasks st)[k := (ls_tasks st ! k)
        \<lparr>lt_script := s, lt_held := filter (\<lambda>(l', _). l' \<noteq> l) (lt_held (ls_tasks st ! k))\<rparr>]"
      using g(3) by simp
    have "\<forall>t\<in>set (ls_tasks st'). ascending rank (map fst (lt_held t)) (lt_script t)"
      unfolding tasks' by (rule upd) (use task [OF g(1)] g(2) in \<open>simp add: map_filter\<close>)
    ultimately show ?thesis
      using g assms(1) by (auto simp: lock_inv_def nth_list_update)
  qed
qed

section \<open>Ascending tasks complete\<close>

text \<open>Some move is possible as long as a task is not done: either one that is not waiting, or the first
  in line for the highest lock that is waited for, whose holders cannot be waiting themselves.\<close>

lemma some_move:
  assumes inv: "lock_inv rank st" and "\<not> all_done st"
  shows "\<exists>mv st'. lock_move mv st = Some st'"
proof (cases "\<exists>k<length (ls_tasks st). lt_script (ls_tasks st ! k) \<noteq> [] \<and> k \<notin> set (ls_queue st)")
  case True
  then obtain k where k: "k < length (ls_tasks st)" "lt_script (ls_tasks st ! k) \<noteq> []" "k \<notin> set (ls_queue st)"
    by blast
  then obtain x s where xs: "lt_script (ls_tasks st ! k) = x # s"
    by (cases "lt_script (ls_tasks st ! k)") simp_all
  show ?thesis
  proof (cases x)
    case (Acquire l a)
    with k xs have "lock_move (Arrive k) st \<noteq> None"
      by (simp add: lock_move_def)
    then show ?thesis by blast
  next
    case (Release l)
    with k xs have "lock_move (Free k) st \<noteq> None"
      by (simp add: lock_move_def)
    then show ?thesis by blast
  qed
next
  case False
  define W where "W = {l. \<exists>k\<in>set (ls_queue st). wants_lock st l k}"
  have wants: "\<exists>l. wants_lock st l k" if "k \<in> set (ls_queue st)" for k
    using inv that by (auto simp: lock_inv_def wants_lock_def)
  have "W \<subseteq> (\<lambda>k. fst (the (wanted (lt_script (ls_tasks st ! k))))) ` set (ls_queue st)"
    by (force simp: W_def wants_lock_def)
  then have "finite W"
    by (rule finite_subset) simp
  obtain t where "t \<in> set (ls_tasks st)" "lt_script t \<noteq> []"
    using assms(2) by (auto simp: all_done_def list_all_iff)
  then obtain k0 where "k0 < length (ls_tasks st)" "lt_script (ls_tasks st ! k0) \<noteq> []"
    by (metis in_set_conv_nth)
  with False have "k0 \<in> set (ls_queue st)"
    by blast
  with wants have "W \<noteq> {}"
    unfolding W_def by blast
  with \<open>finite W\<close> have "Max (rank ` W) \<in> rank ` W"
    by simp
  then obtain l where l: "l \<in> W" "rank l = Max (rank ` W)"
    by auto
  have top: "rank l' \<le> rank l" if "l' \<in> W" for l'
    using that \<open>finite W\<close> l(2) by simp
  have "\<exists>k\<in>set (ls_queue st). wants_lock st l k"
    using l(1) by (simp add: W_def)
  from split_list_first_prop [OF this] obtain ahead k after
    where q: "ls_queue st = ahead @ k # after" "wants_lock st l k" "\<forall>j\<in>set ahead. \<not> wants_lock st l j"
    by blast
  have k: "k < length (ls_tasks st)"
    using inv q(1) by (simp add: lock_inv_def)
  obtain a s where script: "lt_script (ls_tasks st ! k) = Acquire l a # s"
    using q(2) unfolding wants_lock_def by (cases "lt_script (ls_tasks st ! k)" rule: wanted.cases) auto
  have "\<not> conflicts l a t" if listed: "t \<in> set (ls_tasks st)" for t
  proof
    assume "conflicts l a t"
    then have held: "l \<in> fst ` set (lt_held t)"
      by (force simp: conflicts_def list_ex_iff)
    obtain j where j: "j < length (ls_tasks st)" "ls_tasks st ! j = t"
      using listed by (metis in_set_conv_nth)
    have asc: "ascending rank (map fst (lt_held t)) (lt_script t)"
      using inv listed by (simp add: lock_inv_def)
    with held have "lt_script t \<noteq> []"
      by auto
    with False j have "j \<in> set (ls_queue st)"
      by blast
    with wants obtain l' where l': "wants_lock st l' j"
      by blast
    then obtain b s' where "lt_script t = Acquire l' b # s'"
      using j(2) unfolding wants_lock_def by (cases "lt_script t" rule: wanted.cases) auto
    with asc held have "rank l < rank l'"
      by (auto simp: list_all_iff)
    with top [of l'] l' \<open>j \<in> set (ls_queue st)\<close> show False
      by (auto simp: W_def)
  qed
  moreover have "takeWhile (\<lambda>j. j \<noteq> k) (ls_queue st) = ahead"
    using q by (auto intro: takeWhile_eq_all_conv [THEN iffD2] simp: takeWhile_append)
  ultimately have "lock_move (Grant k) st \<noteq> None"
    using k q script by (auto simp: lock_move_def list_ex_iff)
  then show ?thesis by blast
qed

text \<open>Each action of a script takes at most two moves: the request and what follows it.\<close>

definition moves_of :: "'l lock_state \<Rightarrow> nat \<Rightarrow> nat" where
  "moves_of st k = 2 * length (lt_script (ls_tasks st ! k)) - (if k \<in> set (ls_queue st) then 1 else 0)"

definition moves_left :: "'l lock_state \<Rightarrow> nat" where
  "moves_left st = (\<Sum>k<length (ls_tasks st). moves_of st k)"

lemma lock_move_decreases:
  assumes "lock_move mv st = Some st'"
  shows "moves_left st' < moves_left st"
proof -
  have k: "mover mv < length (ls_tasks st)" and len: "length (ls_tasks st') = length (ls_tasks st)"
    using assms by (cases mv; auto simp: lock_move_def split: if_splits list.splits lock_action.splits)+
  have "moves_of st' (mover mv) < moves_of st (mover mv)"
  proof (cases mv)
    case (Arrive k)
    with assms have "lt_script (ls_tasks st ! k) \<noteq> []"
      by (auto simp: lock_move_def split: if_splits)
    with Arrive assms show ?thesis
      by (auto simp: lock_move_def moves_of_def split: if_splits)
  qed (use assms in \<open>auto simp: lock_move_def moves_of_def split: if_splits list.splits lock_action.splits\<close>)
  moreover have "moves_of st' j = moves_of st j" if "j \<noteq> mover mv" for j
    using assms that
    by (cases mv) (auto simp: lock_move_def moves_of_def split: if_splits list.splits lock_action.splits)
  moreover from this calculation have "moves_of st' j \<le> moves_of st j" for j
    by (cases "j = mover mv") simp_all
  ultimately have "(\<Sum>k<length (ls_tasks st). moves_of st' k) < (\<Sum>k<length (ls_tasks st). moves_of st k)"
    using k by (intro sum_strict_mono_ex1) auto
  then show ?thesis
    by (simp add: moves_left_def len)
qed

lemma lock_moves_bound:
  "lock_moves mvs st = Some st' \<Longrightarrow> length mvs + moves_left st' \<le> moves_left st"
proof (induction mvs arbitrary: st)
  case (Cons mv mvs)
  then obtain st1 where "lock_move mv st = Some st1" "lock_moves mvs st1 = Some st'"
    by (auto split: option.splits)
  with Cons.IH [of st1] lock_move_decreases [of mv st st1] show ?case
    by simp
qed simp

lemma lock_inv_moves: "lock_inv rank st \<Longrightarrow> lock_moves mvs st = Some st' \<Longrightarrow> lock_inv rank st'"
  by (induction mvs arbitrary: st) (auto split: option.splits intro: lock_inv_move)

lemma completes:
  "lock_inv rank st \<Longrightarrow> \<exists>mvs st'. lock_moves mvs st = Some st' \<and> all_done st'"
proof (induction "moves_left st" arbitrary: st rule: less_induct)
  case less
  show ?case
  proof (cases "all_done st")
    case True
    then have "lock_moves [] st = Some st \<and> all_done st"
      by simp
    then show ?thesis by blast
  next
    case False
    then obtain mv st1 where one: "lock_move mv st = Some st1"
      using some_move [OF less.prems] by blast
    from less.hyps [OF lock_move_decreases [OF one] lock_inv_move [OF less.prems one]]
    obtain mvs st' where "lock_moves mvs st1 = Some st'" "all_done st'"
      by blast
    with one have "lock_moves (mv # mvs) st = Some st' \<and> all_done st'"
      by simp
    then show ?thesis by blast
  qed
qed

text \<open>Tasks in ascending order: every run is bounded, never gets stuck, and can be completed.\<close>

lemma ascending_tasks_complete:
  assumes "\<forall>s\<in>set scripts. ascending rank [] s" and "lock_moves mvs (begins scripts) = Some st"
  shows "length mvs \<le> 2 * sum_list (map length scripts) \<and> \<not> stuck st \<and>
    (\<exists>mvs' st'. lock_moves mvs' st = Some st' \<and> all_done st')"
proof -
  have "moves_left (begins scripts) = (\<Sum>k<length scripts. 2 * length (scripts ! k))"
    by (simp add: moves_left_def moves_of_def begins_def)
  also have "\<dots> = 2 * sum_list (map length scripts)"
    by (simp add: sum_list_sum_nth sum_distrib_left atLeast0LessThan)
  finally have "length mvs \<le> 2 * sum_list (map length scripts)"
    using lock_moves_bound [OF assms(2)] by simp
  moreover have inv: "lock_inv rank st"
    using lock_inv_moves [OF lock_inv_begins [OF assms(1)] assms(2)] .
  have "\<not> stuck st"
  proof
    assume stuck: "stuck st"
    then have "\<not> all_done st"
      by (simp add: stuck_def)
    with some_move [OF inv] stuckD [OF stuck] show False
      by simp
  qed
  ultimately show ?thesis
    using completes [OF inv] by blast
qed

subsection \<open>Putting scripts together\<close>

lemma ascending_append:
  "ascending rank ls s \<Longrightarrow> ascending rank [] s' \<Longrightarrow> ascending rank ls (s @ s')"
proof (induction s arbitrary: ls)
  case (Cons x s)
  then show ?case by (cases x) simp_all
qed simp

lemma ascending_concat: "(\<And>s. s \<in> set ss \<Longrightarrow> ascending rank [] s) \<Longrightarrow> ascending rank [] (concat ss)"
  by (induction ss) (simp_all add: ascending_append)

end
