(* ===== verification/Session_Locks.thy ===== *)
theory Session_Locks
  imports Locks Registry Pool
begin

text \<open>
  The locks of the session layer: which locks each call on the registry, the pool, the metrics collector and
  the lifecycle takes, in which order and how long it holds them (\<open>crates/core/src/session/\<close>). A branch of the
  source that decides whether a lock is taken is a Boolean argument of the call. The session manager keeps no
  lock from one call to the next, so its operations are sequences of these calls.
\<close>

section \<open>Calls\<close>

datatype session_lock =
    Sessions | Name_Index | Connection_Index
  | Pools | Pool_Metadata
  | Metrics | Session_History | Lifetime_Samples | Idle_Time_Samples
  | Cleanup_Running

type_synonym lock_script = "session_lock lock_action list"

text \<open>Registry. \<open>register\<close>: the limit is reached, the name is taken.\<close>

definition register_locks :: "registry_config \<Rightarrow> bool \<Rightarrow> bool \<Rightarrow> lock_script" where
  "register_locks c full taken =
     hold Sessions Shared (if full \<or> allow_duplicate_names c then [] else hold Name_Index Shared []) @
     (if full \<or> \<not> allow_duplicate_names c \<and> taken then []
      else hold Sessions Exclusive [] @
           (if enable_name_index c then hold Name_Index Exclusive [] else []) @
           hold Connection_Index Exclusive [])"

definition unregister_locks :: "registry_config \<Rightarrow> bool \<Rightarrow> lock_script" where
  "unregister_locks c found =
     hold Sessions Exclusive [] @
     (if found
      then (if enable_name_index c then hold Name_Index Exclusive [] else []) @
           hold Connection_Index Exclusive []
      else [])"

text \<open>\<open>get\<close>, \<open>list_all\<close>, \<open>list_by_status\<close>, \<open>list_by_tags\<close>, \<open>count\<close>, \<open>count_by_status\<close> and \<open>exists\<close>.\<close>

definition read_sessions_locks :: lock_script where
  "read_sessions_locks = hold Sessions Shared []"

text \<open>\<open>update\<close>: the ids match, the session is found, its connection key changes, its name changes.\<close>

definition update_locks :: "registry_config \<Rightarrow> bool \<Rightarrow> bool \<Rightarrow> bool \<Rightarrow> bool \<Rightarrow> lock_script" where
  "update_locks c matches found rekeyed renamed =
     (if \<not> matches then []
      else hold Sessions Exclusive
        (if found
         then (if rekeyed then hold Connection_Index Exclusive [] else []) @
              (if enable_name_index c \<and> renamed then hold Name_Index Exclusive [] else [])
         else []))"

text \<open>\<open>update_status\<close> and \<open>mark_used\<close>.\<close>

definition modify_session_locks :: lock_script where
  "modify_session_locks = hold Sessions Exclusive []"

definition list_by_name_locks :: "registry_config \<Rightarrow> bool \<Rightarrow> lock_script" where
  "list_by_name_locks c indexed =
     (if enable_name_index c
      then hold Name_Index Shared (if indexed then hold Sessions Shared [] else [])
      else hold Sessions Shared [])"

definition list_by_connection_key_locks :: "bool \<Rightarrow> lock_script" where
  "list_by_connection_key_locks indexed =
     hold Connection_Index Shared (if indexed then hold Sessions Shared [] else [])"

definition clear_registry_locks :: lock_script where
  "clear_registry_locks =
     hold Sessions Exclusive (hold Name_Index Exclusive (hold Connection_Index Exclusive []))"

text \<open>Pool. \<open>add_session\<close>: there is room.\<close>

definition add_session_locks :: "pool_config \<Rightarrow> bool \<Rightarrow> bool \<Rightarrow> lock_script" where
  "add_session_locks c poolable room =
     (if pool_enabled c \<and> poolable
      then hold Pools Shared (hold Pool_Metadata Shared []) @
           (if room then hold Pools Exclusive (hold Pool_Metadata Exclusive []) else [])
      else [])"

text \<open>\<open>remove_session\<close> and \<open>clear\<close>.\<close>

definition write_pool_locks :: lock_script where
  "write_pool_locks = hold Pools Exclusive (hold Pool_Metadata Exclusive [])"

definition find_session_locks :: "pool_config \<Rightarrow> lock_script" where
  "find_session_locks c =
     (if \<not> pool_enabled c \<or> \<not> prefer_reuse c then [] else hold Pools Shared (hold Pool_Metadata Shared []))"

text \<open>\<open>list_pool\<close> and \<open>list_connection_keys\<close>; \<open>get_stats\<close>; \<open>is_pooled\<close> and \<open>get_pool_metadata\<close>.\<close>

definition read_pools_locks :: lock_script where
  "read_pools_locks = hold Pools Shared []"

definition pool_stats_locks :: lock_script where
  "pool_stats_locks = hold Pools Shared (hold Pool_Metadata Shared [])"

definition read_pool_metadata_locks :: lock_script where
  "read_pool_metadata_locks = hold Pool_Metadata Shared []"

definition cleanup_expired_locks :: "nat \<Rightarrow> lock_script" where
  "cleanup_expired_locks expired =
     hold Pools Shared (hold Pool_Metadata Shared []) @ concat (replicate expired write_pool_locks)"

text \<open>Metrics. \<open>record_session_created\<close> and \<open>record_session_usage\<close>; \<open>record_status_change\<close>,
  \<open>record_connection_success\<close> and \<open>record_connection_failure\<close>; \<open>record_session_closed\<close> and \<open>reset\<close>;
  \<open>get_metrics\<close>; \<open>cleanup_old_history\<close>.\<close>

definition record_history_locks :: lock_script where
  "record_history_locks = hold Metrics Exclusive (hold Session_History Exclusive [])"

definition record_metrics_locks :: lock_script where
  "record_metrics_locks = hold Metrics Exclusive []"

definition record_closed_locks :: lock_script where
  "record_closed_locks =
     hold Metrics Exclusive (hold Session_History Exclusive
       (hold Lifetime_Samples Exclusive (hold Idle_Time_Samples Exclusive [])))"

definition get_metrics_locks :: lock_script where
  "get_metrics_locks = hold Metrics Shared []"

definition cleanup_history_locks :: lock_script where
  "cleanup_history_locks = hold Session_History Exclusive []"

text \<open>Lifecycle: \<open>start_cleanup_task\<close>, \<open>stop_cleanup_task\<close> and each tick of the task.\<close>

definition cleanup_flag_locks :: lock_script where
  "cleanup_flag_locks = hold Cleanup_Running Exclusive []"

datatype session_call =
    CallRegister bool bool
  | CallUnregister bool
  | CallReadSessions
  | CallUpdate bool bool bool bool
  | CallModifySession
  | CallListByName bool
  | CallListByConnectionKey bool
  | CallClearRegistry
  | CallAddSession bool bool
  | CallWritePool
  | CallFindSession
  | CallReadPools
  | CallPoolStats
  | CallReadPoolMetadata
  | CallCleanupExpired nat
  | CallRecordHistory
  | CallRecordMetrics
  | CallRecordClosed
  | CallGetMetrics
  | CallCleanupHistory
  | CallCleanupFlag

fun call_locks :: "registry_config \<Rightarrow> pool_config \<Rightarrow> session_call \<Rightarrow> lock_script" where
  "call_locks rc pc (CallRegister full taken) = register_locks rc full taken"
| "call_locks rc pc (CallUnregister found) = unregister_locks rc found"
| "call_locks rc pc CallReadSessions = read_sessions_locks"
| "call_locks rc pc (CallUpdate matches found rekeyed renamed) = update_locks rc matches found rekeyed renamed"
| "call_locks rc pc CallModifySession = modify_session_locks"
| "call_locks rc pc (CallListByName indexed) = list_by_name_locks rc indexed"
| "call_locks rc pc (CallListByConnectionKey indexed) = list_by_connection_key_locks indexed"
| "call_locks rc pc CallClearRegistry = clear_registry_locks"
| "call_locks rc pc (CallAddSession poolable room) = add_session_locks pc poolable room"
| "call_locks rc pc CallWritePool = write_pool_locks"
| "call_locks rc pc CallFindSession = find_session_locks pc"
| "call_locks rc pc CallReadPools = read_pools_locks"
| "call_locks rc pc CallPoolStats = pool_stats_locks"
| "call_locks rc pc CallReadPoolMetadata = read_pool_metadata_locks"
| "call_locks rc pc (CallCleanupExpired expired) = cleanup_expired_locks expired"
| "call_locks rc pc CallRecordHistory = record_history_locks"
| "call_locks rc pc CallRecordMetrics = record_metrics_locks"
| "call_locks rc pc CallRecordClosed = record_closed_locks"
| "call_locks rc pc CallGetMetrics = get_metrics_locks"
| "call_locks rc pc CallCleanupHistory = cleanup_history_locks"
| "call_locks rc pc CallCleanupFlag = cleanup_flag_locks"

definition task_locks :: "registry_config \<Rightarrow> pool_config \<Rightarrow> session_call list \<Rightarrow> lock_script" where
  "task_locks rc pc calls = concat (map (call_locks rc pc) calls)"

section \<open>Operations of the manager\<close>

text \<open>The calls of each operation of \<open>crates/core/src/session/manager.rs\<close>, for every outcome of the calls
  before. \<open>metrics\<close> tells whether there is a collector.\<close>

definition create_session_calls :: "registry_config \<Rightarrow> bool \<Rightarrow> bool \<Rightarrow> bool \<Rightarrow> session_call list" where
  "create_session_calls rc metrics full taken =
     CallRegister full taken #
     (if metrics \<and> \<not> full \<and> (allow_duplicate_names rc \<or> \<not> taken) then [CallRecordHistory] else [])"

text \<open>The session is found, found again when it is stored and read back, poolable, and there is room; it was
  connecting.\<close>

definition status_calls ::
    "bool \<Rightarrow> session_status \<Rightarrow> bool \<Rightarrow> bool \<Rightarrow> bool \<Rightarrow> bool \<Rightarrow> bool \<Rightarrow> bool \<Rightarrow> session_call list" where
  "status_calls metrics status found stored reread poolable room was_connecting =
     CallReadSessions #
     (if \<not> found then []
      else CallModifySession #
        (if \<not> stored then []
         else (case status of
                 Idle \<Rightarrow> CallReadSessions # (if reread then [CallAddSession poolable room] else [])
               | Active \<Rightarrow> [CallWritePool]
               | Failed \<Rightarrow> [CallWritePool]
               | Closed \<Rightarrow> [CallWritePool]
               | _ \<Rightarrow> []) @
              (if metrics
               then CallRecordMetrics #
                 (if was_connecting \<and> (status = Active \<or> status = Failed) then [CallRecordMetrics] else [])
               else [])))"

definition use_calls :: "bool \<Rightarrow> bool \<Rightarrow> bool \<Rightarrow> session_call list \<Rightarrow> session_call list" where
  "use_calls metrics found reread activate =
     CallModifySession #
     (if \<not> found then []
      else (if metrics then CallReadSessions # (if reread then [CallRecordHistory] else []) else []) @
           CallReadSessions # activate)"

definition close_calls :: "bool \<Rightarrow> session_call list \<Rightarrow> bool \<Rightarrow> bool \<Rightarrow> session_call list" where
  "close_calls metrics closing changed removed =
     CallReadSessions # closing @
     (if \<not> changed then []
      else [CallWritePool, CallUnregister removed] @ (if removed \<and> metrics then [CallRecordClosed] else []))"

text \<open>A cleanup pass: for each session to be expired, whether it is still registered; then the number of
  sessions to be expired from the pool.\<close>

definition cleanup_calls :: "bool \<Rightarrow> bool list \<Rightarrow> nat \<Rightarrow> session_call list" where
  "cleanup_calls metrics expired pooled =
     CallReadSessions #
     concat (map (\<lambda>found. CallUnregister found #
       (if found then CallWritePool # (if metrics then [CallRecordClosed] else []) else [])) expired) @
     CallCleanupExpired pooled # (if metrics then [CallCleanupHistory] else [])"

datatype manager_op =
    OpCreate bool bool
  | OpRead
  | OpStatus session_status bool bool bool bool bool bool
  | OpUse bool bool "(bool \<times> bool \<times> bool) option"
  | OpClose bool bool bool bool
  | OpFindReusable
  | OpGetStats
  | OpPoolStats
  | OpUpdateMetadata bool bool bool bool
  | OpCleanup "bool list" nat
  | OpCleanupTask

text \<open>\<open>connect_or_create_session\<close> is \<open>find_reusable_session\<close> followed by \<open>use_session\<close> or \<open>create_session\<close>;
  the read operations are \<open>get_session\<close>, the listings, \<open>session_count\<close> and \<open>session_exists\<close>.\<close>

fun manager_calls :: "registry_config \<Rightarrow> bool \<Rightarrow> manager_op \<Rightarrow> session_call list" where
  "manager_calls rc metrics (OpCreate full taken) = create_session_calls rc metrics full taken"
| "manager_calls rc metrics OpRead = [CallReadSessions]"
| "manager_calls rc metrics (OpStatus status found stored reread poolable room was_connecting) =
     status_calls metrics status found stored reread poolable room was_connecting"
| "manager_calls rc metrics (OpUse found reread activate) =
     use_calls metrics found reread
       (case activate of
          Some (f, stored, was_connecting) \<Rightarrow> status_calls metrics Active f stored False False False was_connecting
        | None \<Rightarrow> [])"
| "manager_calls rc metrics (OpClose found stored changed removed) =
     close_calls metrics (status_calls metrics Closing found stored False False False False) changed removed"
| "manager_calls rc metrics OpFindReusable = [CallFindSession]"
| "manager_calls rc metrics OpGetStats = (if metrics then [CallGetMetrics] else [])"
| "manager_calls rc metrics OpPoolStats = [CallPoolStats]"
| "manager_calls rc metrics (OpUpdateMetadata matches found rekeyed renamed) =
     [CallUpdate matches found rekeyed renamed]"
| "manager_calls rc metrics (OpCleanup expired pooled) = cleanup_calls metrics expired pooled"
| "manager_calls rc metrics OpCleanupTask = [CallCleanupFlag]"

definition ops_locks :: "registry_config \<Rightarrow> pool_config \<Rightarrow> bool \<Rightarrow> manager_op list \<Rightarrow> lock_script" where
  "ops_locks rc pc metrics ops = task_locks rc pc (concat (map (manager_calls rc metrics) ops))"

section \<open>The order of the locks\<close>

fun lock_rank :: "session_lock \<Rightarrow> nat" where
  "lock_rank Sessions = 0"
| "lock_rank Name_Index = 1"
| "lock_rank Connection_Index = 2"
| "lock_rank Pools = 3"
| "lock_rank Pool_Metadata = 4"
| "lock_rank Metrics = 5"
| "lock_rank Session_History = 6"
| "lock_rank Lifetime_Samples = 7"
| "lock_rank Idle_Time_Samples = 8"
| "lock_rank Cleanup_Running = 9"

fun indexed_listing :: "session_call \<Rightarrow> bool" where
  "indexed_listing (CallListByName _) = True"
| "indexed_listing (CallListByConnectionKey _) = True"
| "indexed_listing _ = False"

lemma write_pool_ascending: "ascending lock_rank [] (concat (replicate n write_pool_locks))"
  by (rule ascending_concat) (simp add: write_pool_locks_def hold_def)

lemma call_ascending: "\<not> indexed_listing call \<Longrightarrow> ascending lock_rank [] (call_locks rc pc call)"
  by (cases call)
    (simp_all add: register_locks_def unregister_locks_def read_sessions_locks_def update_locks_def
      modify_session_locks_def clear_registry_locks_def add_session_locks_def write_pool_locks_def
      find_session_locks_def read_pools_locks_def pool_stats_locks_def read_pool_metadata_locks_def
      cleanup_expired_locks_def record_history_locks_def record_metrics_locks_def record_closed_locks_def
      get_metrics_locks_def cleanup_history_locks_def cleanup_flag_locks_def hold_def
      write_pool_ascending [unfolded write_pool_locks_def hold_def, simplified])

lemma task_ascending:
  "\<forall>call\<in>set calls. \<not> indexed_listing call \<Longrightarrow> ascending lock_rank [] (task_locks rc pc calls)"
  unfolding task_locks_def by (rule ascending_concat) (auto simp: call_ascending)

lemma status_not_indexed:
  "call \<in> set (status_calls metrics status f st re p rm w) \<Longrightarrow> \<not> indexed_listing call"
  by (auto simp: status_calls_def split: session_status.splits if_splits)

lemma manager_not_indexed: "call \<in> set (manager_calls rc metrics op) \<Longrightarrow> \<not> indexed_listing call"
  by (cases op)
    (auto simp: create_session_calls_def use_calls_def close_calls_def cleanup_calls_def
      split: if_splits option.splits dest: status_not_indexed)

section \<open>Properties\<close>

text \<open>C8. The session manager never deadlocks. Any number of tasks may run any of its operations, taking any
  branch of them, with the locks granted in the order in which they are asked for: no run gets stuck, every
  run is bounded by twice the number of lock operations, and from every point all the tasks can complete.\<close>

theorem manager_never_deadlocks:
  assumes "lock_moves mvs (begins (map (ops_locks rc pc metrics) tasks)) = Some st"
  shows "\<not> stuck st \<and> (\<exists>mvs' st'. lock_moves mvs' st = Some st' \<and> all_done st') \<and>
    length mvs \<le> 2 * (\<Sum>ops\<leftarrow>tasks. length (ops_locks rc pc metrics ops))"
proof -
  have "ascending lock_rank [] (ops_locks rc pc metrics ops)" for ops
    unfolding ops_locks_def by (rule task_ascending) (auto dest: manager_not_indexed)
  then have "\<forall>s\<in>set (map (ops_locks rc pc metrics) tasks). ascending lock_rank [] s"
    by simp
  from ascending_tasks_complete [OF this assms] show ?thesis
    by (simp add: comp_def)
qed

theorem manager_never_deadlocks_witness:
  "\<exists>st. lock_moves [Arrive 0, Grant 0, Arrive 1, Free 0, Grant 1]
      (begins (map (ops_locks registry_config_default pool_config_default True)
        [[OpRead], [OpStatus Active True True True True True True]])) = Some st \<and> \<not> stuck st"
proof -
  let ?mvs = "[Arrive 0, Grant 0, Arrive 1, Free 0, Grant 1]"
    and ?tasks = "[[OpRead], [OpStatus Active True True True True True True]]"
  have "lock_moves ?mvs (begins (map (ops_locks registry_config_default pool_config_default True) ?tasks)) \<noteq> None"
    by (simp add: ops_locks_def task_locks_def status_calls_def read_sessions_locks_def modify_session_locks_def
        hold_def begins_def lock_move_def wants_lock_def conflicts_def)
  with manager_never_deadlocks [of ?mvs registry_config_default pool_config_default True ?tasks]
  show ?thesis by blast
qed

text \<open>What the two indexed listings do to that, on a registry they are used with.\<close>

definition list_by_name_call :: "registry \<Rightarrow> string \<Rightarrow> session_call" where
  "list_by_name_call r name = CallListByName (hm_contains (name_index r) name)"

definition list_by_connection_key_call :: "registry \<Rightarrow> string \<Rightarrow> session_call" where
  "list_by_connection_key_call r key = CallListByConnectionKey (hm_contains (connection_index r) key)"

definition update_call :: "registry \<Rightarrow> session_id \<Rightarrow> session_metadata \<Rightarrow> session_call" where
  "update_call r i m =
     (case reg_get r i of
        Some old \<Rightarrow> CallUpdate (sm_id m = i) True (session_key old \<noteq> session_key m) (sm_name old \<noteq> sm_name m)
      | None \<Rightarrow> CallUpdate (sm_id m = i) False False False)"

lemma bucket_of_registered:
  assumes "registry_wf r" and "reg_get r i = Some m"
  shows "hm_contains (connection_index r) (session_key m)"
    and "enable_name_index (reg_config r) \<Longrightarrow> hm_contains (name_index r) (sm_name m)"
proof -
  have "i \<in> set (index_bucket (connection_index r) (session_key m))"
    using indexesD(2) [OF registry_wfD(3) [OF assms(1)]] assms(2) by (simp add: file_by_def reg_get_def)
  then show "hm_contains (connection_index r) (session_key m)"
    by (cases "hm_get (connection_index r) (session_key m)") (simp_all add: index_bucket_def)
  assume "enable_name_index (reg_config r)"
  then have "i \<in> set (index_bucket (name_index r) (sm_name m))"
    using indexesD(2) [OF registry_wfD(4) [OF assms(1)]] assms(2) by (simp add: file_by_def reg_get_def)
  then show "hm_contains (name_index r) (sm_name m)"
    by (cases "hm_get (name_index r) (sm_name m)") (simp_all add: index_bucket_def)
qed

text \<open>The two scripts that cross: each task holds the lock the other one asks for next.\<close>

lemma crossing_locks_stuck:
  assumes "l \<noteq> l'"
  shows "\<exists>mvs st. lock_moves mvs (begins [Acquire l Shared # Acquire l' Shared # s, Acquire l' Exclusive # Acquire l Exclusive # s']) = Some st \<and>
    stuck st"
proof -
  let ?st = "begins [Acquire l Shared # Acquire l' Shared # s, Acquire l' Exclusive # Acquire l Exclusive # s']"
    and ?final = "\<lparr>ls_tasks = [\<lparr>lt_script = Acquire l' Shared # s, lt_held = [(l, Shared)]\<rparr>,
        \<lparr>lt_script = Acquire l Exclusive # s', lt_held = [(l', Exclusive)]\<rparr>], ls_queue = [1, 0]\<rparr>"
  have "lock_moves [Arrive 0, Grant 0, Arrive 1, Grant 1, Arrive 1, Arrive 0] ?st = Some ?final"
    using assms by (simp add: begins_def lock_move_def wants_lock_def conflicts_def)
  moreover have "stuck ?final"
    using assms by (simp add: stuck_def all_done_def lock_move_def wants_lock_def conflicts_def upt_rec)
  ultimately show ?thesis by blast
qed

lemma name_listing_deadlocks:
  assumes "registry_run c r" and "enable_name_index c" and "reg_get r i = Some old" and "sm_id m = i"
    and "sm_name m \<noteq> sm_name old" and "session_key m = session_key old"
  shows "\<exists>mvs st. lock_moves mvs (begins [call_locks c pc (list_by_name_call r (sm_name old)),
      call_locks c pc (update_call r i m)]) = Some st \<and> stuck st"
proof -
  have "registry_wf r" and "reg_config r = c"
    using registry_run_inv [OF assms(1)] by simp_all
  then have "list_by_name_call r (sm_name old) = CallListByName True"
    using bucket_of_registered(2) [OF _ assms(3)] assms(2) by (simp add: list_by_name_call_def)
  moreover have "update_call r i m = CallUpdate True True False True"
    using assms by (simp add: update_call_def)
  ultimately show ?thesis
    using crossing_locks_stuck [of Name_Index Sessions] assms(2)
    by (simp add: list_by_name_locks_def update_locks_def hold_def)
qed

text \<open>C12. A listing by connection key deadlocks with an update that changes the key of a session in it: the
  listing takes the index and then the sessions, the update the sessions and then the index, and both wait
  for ever.\<close>

theorem key_listing_deadlocks:
  assumes "registry_run c r" and "reg_get r i = Some old" and "sm_id m = i" and "session_key m \<noteq> session_key old"
  shows "\<exists>mvs st. lock_moves mvs (begins [call_locks c pc (list_by_connection_key_call r (session_key old)),
      call_locks c pc (update_call r i m)]) = Some st \<and> stuck st"
proof -
  have "registry_wf r"
    using registry_run_inv [OF assms(1)] by simp
  then have "list_by_connection_key_call r (session_key old) = CallListByConnectionKey True"
    using bucket_of_registered(1) [OF _ assms(2)] by (simp add: list_by_connection_key_call_def)
  moreover have "\<exists>renamed. update_call r i m = CallUpdate True True True renamed"
    using assms by (auto simp: update_call_def)
  ultimately show ?thesis
    using crossing_locks_stuck [of Connection_Index Sessions]
    by (auto simp: list_by_connection_key_locks_def update_locks_def hold_def)
qed

theorem key_listing_deadlocks_witness:
  "\<exists>mvs st. lock_moves mvs (begins
      [call_locks registry_config_default pool_config_default
         (CallListByConnectionKey True),
       call_locks registry_config_default pool_config_default (CallUpdate True True True False)]) = Some st \<and> stuck st"
proof -
  let ?r = "register_commit (registry_new registry_config_default) (sample_session 1 ''a'')"
    and ?m = "metadata_new 0 1 ''a'' (sample_ssh ''bob'' ''g'') [] None"
  have new: "reg_get (registry_new registry_config_default) 1 = None"
    by (simp add: reg_get_def registry_new_def)
  have "registry_run registry_config_default ?r"
    by (rule run_register [OF run_new, where m = "sample_session 1 ''a''"])
      (simp_all add: register_Inr register_check_def reg_get_def registry_new_def registry_config_default_def
        sample_session_def)
  note run = this
  have got: "reg_get ?r 1 = Some (started (sample_session 1 ''a''))"
    by (simp add: store.lookup_enter sample_session_def)
  have differ: "session_key ?m \<noteq> session_key (sample_session 1 ''a'')"
    by (simp add: session_key_def sample_session_def connection_key_def sample_ssh_def metadata_new_def
        sb_username_def sb_host_def ssh_builder_new_def)
  have "list_by_connection_key_call ?r (session_key (started (sample_session 1 ''a''))) = CallListByConnectionKey True"
    using bucket_of_registered(1) [OF _ got] registry_run_inv [OF run] by (simp add: list_by_connection_key_call_def)
  moreover have "update_call ?r 1 ?m = CallUpdate True True True False"
    using differ by (simp add: update_call_def got) (simp add: sample_session_def)
  ultimately show ?thesis
    using key_listing_deadlocks [OF run got, of ?m pool_config_default] differ by simp
qed

end
