(* ===== verification/Registry_Race.thy ===== *)
theory Registry_Race
  imports Registry
begin

text \<open>
  \<open>crates/core/src/session/registry.rs\<close> under concurrency: \<open>register\<close> and \<open>unregister\<close> write the session map
  and the two indexes under one lock after the other, not under all of them, so that other tasks see the
  registry in between. An id in flight is in at most one registration, because ids are drawn fresh, and in at
  most one removal, because only one task gets the metadata out of the map. The theory shows what the
  indexed listings answer at every moment, when the indexes agree with the map again, and what a removal that
  overlaps the registration of the same session leaves behind.
\<close>

section \<open>Registration and removal, lock by lock\<close>

text \<open>What is left to do: a registration has passed its check, or stored the session, or filed its name; a
  removal has taken the session out of the map, or its id out of the name index.\<close>

datatype registering = Storing session_metadata | Naming session_metadata | Keying session_metadata

datatype unregistering = Unnaming session_metadata | Unkeying session_metadata

definition register_turn :: "registering \<Rightarrow> registry \<Rightarrow> registering option \<times> registry" where
  "register_turn p r =
     (case p of
        Storing m \<Rightarrow>
          (Some (Naming (started m)), r\<lparr>sessions := hm_insert (sm_id m) (started m) (sessions r)\<rparr>)
      | Naming m \<Rightarrow>
          (Some (Keying m),
           if enable_name_index (reg_config r)
           then r\<lparr>name_index := index_push (name_index r) (sm_name m) (sm_id m)\<rparr> else r)
      | Keying m \<Rightarrow>
          (None, r\<lparr>connection_index := index_push (connection_index r) (session_key m) (sm_id m)\<rparr>))"

definition take_session :: "session_id \<Rightarrow> registry \<Rightarrow> registry" where
  "take_session i r = r\<lparr>sessions := hm_remove i (sessions r)\<rparr>"

definition unregister_turn ::
    "session_id \<Rightarrow> unregistering \<Rightarrow> registry \<Rightarrow> unregistering option \<times> registry" where
  "unregister_turn i q r =
     (case q of
        Unnaming m \<Rightarrow>
          (Some (Unkeying m),
           if enable_name_index (reg_config r)
           then r\<lparr>name_index := index_drop (name_index r) (sm_name m) i\<rparr> else r)
      | Unkeying m \<Rightarrow>
          (None, r\<lparr>connection_index := index_drop (connection_index r) (session_key m) i\<rparr>))"

text \<open>Without interruption these are the operations.\<close>

lemma register_turns:
  assumes "register_turn (Storing m) r = (Some p1, r1)" and "register_turn p1 r1 = (Some p2, r2)"
    and "register_turn p2 r2 = (p3, r3)"
  shows "p3 = None \<and> r3 = register_commit r m"
  using assms by (auto simp: register_turn_def register_commit_def Let_def)

lemma unregister_turns:
  assumes "reg_get r i = Some m" and "unregister_turn i (Unnaming m) (take_session i r) = (Some q1, r1)"
    and "unregister_turn i q1 r1 = (q2, r2)"
  shows "q2 = None \<and> unregister r i = (Some m, r2)"
  using assms by (auto simp: unregister_turn_def unregister_def take_session_def reg_get_def Let_def)

section \<open>Interleavings\<close>

type_synonym registrations = "session_id \<rightharpoonup> registering"
type_synonym removals = "session_id \<rightharpoonup> unregistering"

text \<open>An id from the generator is in use nowhere.\<close>

definition unused :: "session_id \<Rightarrow> registrations \<Rightarrow> removals \<Rightarrow> registry \<Rightarrow> bool" where
  "unused i R U r \<longleftrightarrow> R i = None \<and> U i = None \<and> reg_get r i = None \<and>
     (\<forall>name. i \<notin> set (index_bucket (name_index r) name)) \<and>
     (\<forall>key. i \<notin> set (index_bucket (connection_index r) key))"

text \<open>At most \<open>k\<close> registrations are under way at any moment. \<open>strict\<close> excludes removals of a session whose
  registration has not returned yet.\<close>

inductive interleaved ::
    "bool \<Rightarrow> nat \<Rightarrow> registry_config \<Rightarrow> registrations \<Rightarrow> removals \<Rightarrow> registry \<Rightarrow> bool" for strict k c where
  il_new: "interleaved strict k c Map.empty Map.empty (registry_new c)"
| il_check: "interleaved strict k c R U r \<Longrightarrow> card (dom R) < k \<Longrightarrow> register_check r m = Inr () \<Longrightarrow>
    unused (sm_id m) R U r \<Longrightarrow> interleaved strict k c (R(sm_id m \<mapsto> Storing m)) U r"
| il_register: "interleaved strict k c R U r \<Longrightarrow> R i = Some p \<Longrightarrow> register_turn p r = (p', r') \<Longrightarrow>
    interleaved strict k c (R(i := p')) U r'"
| il_take: "interleaved strict k c R U r \<Longrightarrow> reg_get r i = Some m \<Longrightarrow> (strict \<Longrightarrow> R i = None) \<Longrightarrow>
    interleaved strict k c R (U(i \<mapsto> Unnaming m)) (take_session i r)"
| il_unregister: "interleaved strict k c R U r \<Longrightarrow> U i = Some q \<Longrightarrow> unregister_turn i q r = (q', r') \<Longrightarrow>
    interleaved strict k c R (U(i := q')) r'"
| il_status: "interleaved strict k c R U r \<Longrightarrow> update_status show_id now r i s = Inr r' \<Longrightarrow>
    interleaved strict k c R U r'"
| il_used: "interleaved strict k c R U r \<Longrightarrow> reg_mark_used show_id now r i = Inr r' \<Longrightarrow>
    interleaved strict k c R U r'"

lemma il_registerI:
  "interleaved strict k c R U r \<Longrightarrow> R i = Some p \<Longrightarrow> register_turn p r = (p', r') \<Longrightarrow> R' = R(i := p') \<Longrightarrow>
   interleaved strict k c R' U r'"
  by (blast intro: il_register)

lemma il_unregisterI:
  "interleaved strict k c R U r \<Longrightarrow> U i = Some q \<Longrightarrow> unregister_turn i q r = (q', r') \<Longrightarrow> U' = U(i := q') \<Longrightarrow>
   interleaved strict k c R U' r'"
  by (blast intro: il_unregister)

text \<open>The first registration, half way through.\<close>

lemma first_registration:
  fixes m :: session_metadata
  assumes "max_sessions c \<noteq> 0"
  shows "interleaved strict 1 c [sm_id m \<mapsto> Naming (started m)] Map.empty
    ((registry_new c)\<lparr>sessions := hm_insert (sm_id m) (started m) []\<rparr>)"
proof -
  have "interleaved strict 1 c [sm_id m \<mapsto> Storing m] Map.empty (registry_new c)"
    by (rule il_check [OF il_new]) (use assms in \<open>simp_all add: register_check_def registry_new_def unused_def
        reg_get_def index_bucket_def word_neq_0_conv unat_gt_0\<close>)
  then show ?thesis
    by (rule il_registerI [where i = "sm_id m" and p = "Storing m" and p' = "Some (Naming (started m))"])
      (simp_all add: register_turn_def registry_new_def)
qed

section \<open>An index that lags behind\<close>

text \<open>
  \<open>f\<close> says where each id belongs, \<open>todo\<close> which ids are still to be filed, \<open>gone\<close> which are still to be
  removed, and from where. No id is filed twice or under a foreign key; what is missing is still to be filed;
  and, in strict runs, what should not be there any more is still to be removed.
\<close>

definition lags :: "bool \<Rightarrow> ('k \<Rightarrow> 'i list) \<Rightarrow> ('i \<Rightarrow> 'k option) \<Rightarrow> 'i set \<Rightarrow> ('i \<Rightarrow> 'k option) \<Rightarrow> bool" where
  "lags strict B f todo gone \<longleftrightarrow>
     (\<forall>k. distinct (B k)) \<and>
     (\<forall>k i. i \<in> set (B k) \<longrightarrow> i \<notin> todo \<and> (f i = None \<or> f i = Some k)) \<and>
     (\<forall>i k. f i = Some k \<longrightarrow> i \<in> set (B k) \<or> i \<in> todo) \<and>
     (strict \<longrightarrow> (\<forall>k i. i \<in> set (B k) \<longrightarrow> f i = None \<longrightarrow> gone i = Some k))"

lemma lags_indexes: "lags True (bucket m) f {} (\<lambda>_. None) \<Longrightarrow> indexes bucket m f"
  unfolding lags_def indexes_def by (metis empty_iff option.distinct(1) option.inject)

lemma lags_check:
  "lags strict B f todo gone \<Longrightarrow> (\<And>k. i \<notin> set (B k)) \<Longrightarrow> lags strict B f (insert i todo) gone"
  by (auto simp: lags_def)

lemma lags_store:
  "lags strict B f todo gone \<Longrightarrow> i \<in> todo \<Longrightarrow> lags strict B (f(i \<mapsto> k)) todo gone"
  by (auto simp: lags_def)

lemma lags_take:
  "lags strict B f todo gone \<Longrightarrow> f i = Some k \<Longrightarrow> lags strict B (f(i := None)) todo (gone(i \<mapsto> k))"
  by (auto simp: lags_def) (metis option.distinct(1) option.inject)

lemma lags_keep:
  "lags strict B f todo gone \<Longrightarrow> (\<And>i k. i \<in> set (B k) \<Longrightarrow> f i = None \<Longrightarrow> gone' i = gone i) \<Longrightarrow>
   lags strict B f todo gone'"
  by (auto simp: lags_def)

context id_index begin

lemma lags_push:
  assumes "lags strict (bucket m) f todo gone" and "i \<in> todo" and "f i = None \<or> f i = Some k"
    and "strict \<Longrightarrow> f i \<noteq> None"
  shows "lags strict (bucket (push m k i)) f (todo - {i}) gone"
  using assms by (auto simp: lags_def bucket_push)

lemma lags_drop:
  assumes "lags strict (bucket m) f todo gone" and "f i = None" and "gone i = Some k"
  shows "lags strict (bucket (drop m k i)) f todo (gone(i := None))"
  using assms by (auto simp: lags_def bucket_drop)

end

section \<open>The invariant\<close>

definition unnamed :: "registrations \<Rightarrow> session_id set" where
  "unnamed R = {i. \<exists>m. R i = Some (Storing m) \<or> R i = Some (Naming m)}"

definition still_named :: "removals \<Rightarrow> session_id \<Rightarrow> string option" where
  "still_named U i = (case U i of Some (Unnaming m) \<Rightarrow> Some (sm_name m) | _ \<Rightarrow> None)"

definition still_keyed :: "removals \<Rightarrow> session_id \<Rightarrow> string option" where
  "still_keyed U i =
     (case U i of Some (Unnaming m) \<Rightarrow> Some (session_key m) | Some (Unkeying m) \<Rightarrow> Some (session_key m)
      | None \<Rightarrow> None)"

text \<open>What a registration under way has to do with the map.\<close>

definition registration_ok :: "bool \<Rightarrow> session_id \<Rightarrow> registering \<Rightarrow> session_metadata option \<Rightarrow> bool" where
  "registration_ok strict i p current \<longleftrightarrow>
     (case p of
        Storing m \<Rightarrow> sm_id m = i \<and> current = None
      | Naming m \<Rightarrow> sm_id m = i \<and> (strict \<longrightarrow> current \<noteq> None) \<and>
          (\<forall>m'. current = Some m' \<longrightarrow> sm_name m' = sm_name m \<and> session_key m' = session_key m)
      | Keying m \<Rightarrow> sm_id m = i \<and> (strict \<longrightarrow> current \<noteq> None) \<and>
          (\<forall>m'. current = Some m' \<longrightarrow> sm_name m' = sm_name m \<and> session_key m' = session_key m))"

definition storing :: "registrations \<Rightarrow> session_id set" where
  "storing R = {i. \<exists>m. R i = Some (Storing m)}"

definition interleaved_inv ::
    "bool \<Rightarrow> nat \<Rightarrow> registry_config \<Rightarrow> registrations \<Rightarrow> removals \<Rightarrow> registry \<Rightarrow> bool" where
  "interleaved_inv strict k c R U r \<longleftrightarrow>
     hm_ok (sessions r) \<and> hm_ok (name_index r) \<and> hm_ok (connection_index r) \<and>
     no_empty_bucket (name_index r) \<and> no_empty_bucket (connection_index r) \<and> reg_config r = c \<and>
     (\<forall>i m. reg_get r i = Some m \<longrightarrow> sm_id m = i) \<and>
     (\<forall>i p. R i = Some p \<longrightarrow> registration_ok strict i p (reg_get r i)) \<and>
     (\<forall>i q. U i = Some q \<longrightarrow> reg_get r i = None \<and> i \<notin> storing R \<and> (strict \<longrightarrow> R i = None)) \<and>
     lags strict (index_bucket (connection_index r)) (file_by session_key r) (dom R) (still_keyed U) \<and>
     (if enable_name_index c
      then lags strict (index_bucket (name_index r)) (file_by sm_name r) (unnamed R) (still_named U)
      else name_index r = []) \<and>
     finite (dom R) \<and> card (dom R) \<le> k \<and>
     (0 < k \<longrightarrow> length (sessions r) + card (storing R) < unat (max_sessions c) + k)"

lemma file_by_get: "file_by key r i = map_option key (reg_get r i)"
  by (simp add: file_by_def reg_get_def)

lemma interleaved_new: "interleaved_inv strict k c Map.empty Map.empty (registry_new c)"
  by (auto simp: interleaved_inv_def registry_new_def no_empty_bucket_def lags_def index_bucket_def file_by_def
      reg_get_def storing_def)

lemma interleaved_invD:
  assumes "interleaved_inv strict k c R U r"
  shows "R i = Some p \<Longrightarrow> registration_ok strict i p (reg_get r i)"
    and "U i = Some q \<Longrightarrow> reg_get r i = None \<and> i \<notin> storing R \<and> (strict \<longrightarrow> R i = None)"
    and "reg_get r i = Some m \<Longrightarrow> sm_id m = i"
    and "lags strict (index_bucket (connection_index r)) (file_by session_key r) (dom R) (still_keyed U)"
    and "enable_name_index c \<Longrightarrow>
      lags strict (index_bucket (name_index r)) (file_by sm_name r) (unnamed R) (still_named U)"
    and "reg_config r = c" and "finite (dom R)" and "hm_ok (sessions r)"
  using assms by (auto simp: interleaved_inv_def)

lemma storing_sub: "storing R \<subseteq> dom R"
  by (auto simp: storing_def)

lemma storing_card: "finite (dom R) \<Longrightarrow> card (storing R) \<le> card (dom R)"
  by (rule card_mono) (simp_all add: storing_sub)

lemma storing_upd:
  "storing (R(i := p)) = (if \<exists>m. p = Some (Storing m) then insert i (storing R) else storing R - {i})"
  by (auto simp: storing_def)

lemma unnamed_upd:
  "unnamed (R(i := p)) =
   (if \<exists>m. p = Some (Storing m) \<or> p = Some (Naming m) then insert i (unnamed R) else unnamed R - {i})"
  by (auto simp: unnamed_def)

text \<open>The parts of the invariant that say how large things may be.\<close>

definition sizes_ok :: "nat \<Rightarrow> registry_config \<Rightarrow> registrations \<Rightarrow> registry \<Rightarrow> bool" where
  "sizes_ok k c R r \<longleftrightarrow> finite (dom R) \<and> card (dom R) \<le> k \<and>
     (0 < k \<longrightarrow> length (sessions r) + card (storing R) < unat (max_sessions c) + k)"

text \<open>The parts about the maps themselves.\<close>

definition maps_ok :: "registry_config \<Rightarrow> registry \<Rightarrow> bool" where
  "maps_ok c r \<longleftrightarrow>
     hm_ok (sessions r) \<and> hm_ok (name_index r) \<and> hm_ok (connection_index r) \<and>
     no_empty_bucket (name_index r) \<and> no_empty_bucket (connection_index r) \<and> reg_config r = c \<and>
     (\<forall>i m. reg_get r i = Some m \<longrightarrow> sm_id m = i) \<and> (enable_name_index c \<or> name_index r = [])"

definition tasks_ok :: "bool \<Rightarrow> registrations \<Rightarrow> removals \<Rightarrow> registry \<Rightarrow> bool" where
  "tasks_ok strict R U r \<longleftrightarrow>
     (\<forall>i p. R i = Some p \<longrightarrow> registration_ok strict i p (reg_get r i)) \<and>
     (\<forall>i q. U i = Some q \<longrightarrow> reg_get r i = None \<and> i \<notin> storing R \<and> (strict \<longrightarrow> R i = None))"

lemma interleaved_inv_parts:
  "interleaved_inv strict k c R U r \<longleftrightarrow>
   maps_ok c r \<and> tasks_ok strict R U r \<and> sizes_ok k c R r \<and>
   lags strict (index_bucket (connection_index r)) (file_by session_key r) (dom R) (still_keyed U) \<and>
   (enable_name_index c \<longrightarrow>
     lags strict (index_bucket (name_index r)) (file_by sm_name r) (unnamed R) (still_named U))"
  by (auto simp: interleaved_inv_def maps_ok_def tasks_ok_def sizes_ok_def)

lemma interleaved_check:
  assumes inv: "interleaved_inv strict k c R U r" and "card (dom R) < k" and ok: "register_check r m = Inr ()"
    and new: "unused (sm_id m) R U r"
  shows "interleaved_inv strict k c (R(sm_id m \<mapsto> Storing m)) U r"
proof -
  let ?R = "R(sm_id m \<mapsto> Storing m)"
  have room: "length (sessions r) < unat (max_sessions c)"
    using register_check_limit [OF ok] interleaved_invD(6) [OF inv] by simp
  have "card (dom ?R) \<le> k"
    using assms(2) by (simp add: card_insert_if interleaved_invD(7) [OF inv])
  moreover from this have "card (storing ?R) \<le> k"
    using storing_card [of ?R] interleaved_invD(7) [OF inv] by simp
  ultimately have "sizes_ok k c ?R r"
    using room interleaved_invD(7) [OF inv] by (auto simp: sizes_ok_def)
  moreover have "tasks_ok strict ?R U r"
    using inv new by (auto simp: interleaved_inv_parts tasks_ok_def registration_ok_def unused_def storing_upd)
  ultimately show ?thesis
    using inv new by (simp add: interleaved_inv_parts unnamed_upd unused_def lags_check)
qed

text \<open>The turns of a registration.\<close>

lemma interleaved_store:
  assumes inv: "interleaved_inv strict k c R U r" and R: "R i = Some (Storing m)"
  shows "interleaved_inv strict k c (R(i \<mapsto> Naming (started m)))
    U (r\<lparr>sessions := hm_insert (sm_id m) (started m) (sessions r)\<rparr>)"
proof -
  let ?r = "r\<lparr>sessions := hm_insert (sm_id m) (started m) (sessions r)\<rparr>" and ?R = "R(i \<mapsto> Naming (started m))"
  have id: "sm_id m = i" and absent: "reg_get r i = None"
    using interleaved_invD(1) [OF inv R] by (simp_all add: registration_ok_def)
  have get: "reg_get ?r j = (if j = i then Some (started m) else reg_get r j)" for j
    by (simp add: reg_get_def id)
  have files: "file_by key ?r = (file_by key r)(i \<mapsto> key (started m))" for key
    by (auto simp: file_by_get get fun_eq_iff)
  have i: "i \<in> unnamed R" "i \<in> dom R" "i \<in> storing R"
    using R by (auto simp: unnamed_def storing_def)
  have U: "U i = None"
    using interleaved_invD(2) [OF inv, of i] i(3) by (cases "U i") simp_all
  have "length (sessions ?r) = Suc (length (sessions r))"
    using absent interleaved_invD(8) [OF inv] by (simp add: hm.length_put_new id reg_get_def)
  moreover have "card (storing R) = Suc (card (storing R - {i}))"
    using i(3) finite_subset [OF storing_sub interleaved_invD(7) [OF inv]] by (rule card.remove [rotated])
  ultimately have "sizes_ok k c ?R ?r"
    using inv i by (auto simp: interleaved_inv_parts sizes_ok_def storing_upd insert_absorb)
  moreover have "tasks_ok strict ?R U ?r"
    using inv U id unfolding interleaved_inv_parts tasks_ok_def get storing_upd
    by (auto simp: registration_ok_def)
  moreover have "maps_ok c ?r"
    using inv id unfolding interleaved_inv_parts maps_ok_def get by simp
  ultimately show ?thesis
    using inv i unfolding interleaved_inv_parts files
    by (auto simp: unnamed_upd insert_absorb intro: lags_store)
qed

lemma interleaved_name:
  assumes inv: "interleaved_inv strict k c R U r" and R: "R i = Some (Naming m)"
  shows "interleaved_inv strict k c (R(i \<mapsto> Keying m)) U (snd (register_turn (Naming m) r))"
proof -
  let ?r = "snd (register_turn (Naming m) r)" and ?R = "R(i \<mapsto> Keying m)"
  have reg: "registration_ok strict i (Naming m) (reg_get r i)"
    by (rule interleaved_invD(1) [OF inv R])
  have get: "reg_get ?r j = reg_get r j" and files: "file_by key ?r = file_by key r"
    and same: "sessions ?r = sessions r" "connection_index ?r = connection_index r" "reg_config ?r = reg_config r"
    for j key
    by (simp_all add: register_turn_def reg_get_def file_by_def [abs_def])
  have i: "i \<in> unnamed R" "i \<in> dom R" "i \<notin> storing R"
    using R by (auto simp: unnamed_def storing_def)
  have "file_by sm_name r i = None \<or> file_by sm_name r i = Some (sm_name m)" "strict \<Longrightarrow> file_by sm_name r i \<noteq> None"
    using reg by (auto simp: registration_ok_def file_by_get)
  note pushed = idx.lags_push [where strict = strict and f = "file_by sm_name r", OF _ i(1) this]
  have "sizes_ok k c ?R ?r"
    using inv i by (auto simp: interleaved_inv_parts sizes_ok_def storing_upd insert_absorb same)
  moreover have "tasks_ok strict ?R U ?r"
    using inv reg i unfolding interleaved_inv_parts tasks_ok_def get storing_upd
    by (auto simp: registration_ok_def)
  moreover have "maps_ok c ?r"
    using inv unfolding interleaved_inv_parts maps_ok_def get same
    by (auto simp: register_turn_def no_empty_push)
  moreover have "lags strict (index_bucket (name_index ?r)) (file_by sm_name r) (unnamed R - {i}) (still_named U)"
    if "enable_name_index c"
    using pushed inv that reg interleaved_invD(6) [OF inv]
    by (simp add: interleaved_inv_parts register_turn_def registration_ok_def)
  ultimately show ?thesis
    using inv i unfolding interleaved_inv_parts files same
    by (auto simp: unnamed_upd insert_absorb)
qed

lemma interleaved_key:
  assumes inv: "interleaved_inv strict k c R U r" and R: "R i = Some (Keying m)"
  shows "interleaved_inv strict k c (R(i := None)) U (snd (register_turn (Keying m) r))"
proof -
  let ?r = "snd (register_turn (Keying m) r)" and ?R = "R(i := None)"
  have reg: "registration_ok strict i (Keying m) (reg_get r i)"
    by (rule interleaved_invD(1) [OF inv R])
  have get: "reg_get ?r j = reg_get r j" and files: "file_by key ?r = file_by key r"
    and same: "sessions ?r = sessions r" "name_index ?r = name_index r" "reg_config ?r = reg_config r"
    for j key
    by (simp_all add: register_turn_def reg_get_def file_by_def [abs_def])
  have i: "i \<notin> unnamed R" "i \<in> dom R" "i \<notin> storing R"
    using R by (auto simp: unnamed_def storing_def)
  have "file_by session_key r i = None \<or> file_by session_key r i = Some (session_key m)"
    "strict \<Longrightarrow> file_by session_key r i \<noteq> None"
    using reg by (auto simp: registration_ok_def file_by_get)
  note pushed = idx.lags_push [where strict = strict and f = "file_by session_key r", OF _ i(2) this]
  have dom: "dom ?R = dom R - {i}"
    by auto
  then have "card (dom ?R) \<le> card (dom R)"
    by (metis card_Diff1_le)
  then have "sizes_ok k c ?R ?r"
    using inv i unfolding interleaved_inv_parts sizes_ok_def storing_upd same dom by auto
  moreover have "tasks_ok strict ?R U ?r"
    using inv i unfolding interleaved_inv_parts tasks_ok_def get storing_upd by auto
  moreover have "maps_ok c ?r"
    using inv unfolding interleaved_inv_parts maps_ok_def get same
    by (auto simp: register_turn_def no_empty_push)
  moreover have "lags strict (index_bucket (connection_index ?r)) (file_by session_key r) (dom R - {i}) (still_keyed U)"
    using pushed inv reg by (simp add: interleaved_inv_parts register_turn_def registration_ok_def)
  ultimately show ?thesis
    using inv i unfolding interleaved_inv_parts files same dom by (auto simp: unnamed_upd)
qed

lemma interleaved_register:
  assumes "interleaved_inv strict k c R U r" and "R i = Some p" and "register_turn p r = (p', r')"
  shows "interleaved_inv strict k c (R(i := p')) U r'"
  using assms interleaved_store [OF assms(1)] interleaved_name [OF assms(1)] interleaved_key [OF assms(1)]
  by (cases p) (auto simp: register_turn_def)

text \<open>The turns of a removal.\<close>

lemma still_upd:
  "still_named (U(i := q)) =
   (still_named U)(i := case q of Some (Unnaming m) \<Rightarrow> Some (sm_name m) | _ \<Rightarrow> None)"
  "still_keyed (U(i := q)) =
   (still_keyed U)(i := case q of Some (Unnaming m) \<Rightarrow> Some (session_key m)
      | Some (Unkeying m) \<Rightarrow> Some (session_key m) | None \<Rightarrow> None)"
  by (auto simp: still_named_def still_keyed_def fun_eq_iff)

lemma interleaved_take:
  assumes inv: "interleaved_inv strict k c R U r" and m: "reg_get r i = Some m" and "strict \<Longrightarrow> R i = None"
  shows "interleaved_inv strict k c R (U(i \<mapsto> Unnaming m)) (take_session i r)"
proof -
  let ?r = "take_session i r"
  have get: "reg_get ?r j = (if j = i then None else reg_get r j)" for j
    by (simp add: reg_get_def take_session_def)
  have files: "file_by key ?r = (file_by key r)(i := None)" for key
    by (auto simp: file_by_get get fun_eq_iff)
  have filed: "file_by key r i = Some (key m)" for key
    using m by (simp add: file_by_get)
  have same: "connection_index ?r = connection_index r" "name_index ?r = name_index r" "reg_config ?r = reg_config r"
    by (simp_all add: take_session_def)
  have "i \<notin> storing R"
    using interleaved_invD(1) [OF inv] m by (fastforce simp: storing_def registration_ok_def)
  then have "tasks_ok strict R (U(i \<mapsto> Unnaming m)) ?r"
    using inv assms(3) unfolding interleaved_inv_parts tasks_ok_def get
    by (auto simp: registration_ok_def split: registering.splits)
  moreover have "length (sessions ?r) \<le> length (sessions r)"
    by (simp add: take_session_def hm.length_del_le interleaved_invD(8) [OF inv])
  then have "sizes_ok k c R ?r"
    using inv by (auto simp: interleaved_inv_parts sizes_ok_def)
  moreover have "maps_ok c ?r"
    using inv unfolding interleaved_inv_parts maps_ok_def get same by (simp add: take_session_def)
  ultimately show ?thesis
    using inv unfolding interleaved_inv_parts files same still_upd
    by (simp add: lags_take filed)
qed

lemma interleaved_unname:
  assumes inv: "interleaved_inv strict k c R U r" and U: "U i = Some (Unnaming m)"
  shows "interleaved_inv strict k c R (U(i \<mapsto> Unkeying m)) (snd (unregister_turn i (Unnaming m) r))"
proof -
  let ?r = "snd (unregister_turn i (Unnaming m) r)"
  have get: "reg_get ?r j = reg_get r j" and files: "file_by key ?r = file_by key r"
    and same: "sessions ?r = sessions r" "connection_index ?r = connection_index r" "reg_config ?r = reg_config r"
    for j key
    by (simp_all add: unregister_turn_def reg_get_def file_by_def [abs_def])
  have none: "file_by sm_name r i = None"
    using interleaved_invD(2) [OF inv U] by (simp add: file_by_get)
  have name: "still_named U i = Some (sm_name m)" and key: "still_keyed (U(i \<mapsto> Unkeying m)) = still_keyed U"
    using U by (auto simp: still_named_def still_keyed_def fun_eq_iff)
  have "tasks_ok strict R (U(i \<mapsto> Unkeying m)) ?r"
    using inv U unfolding interleaved_inv_parts tasks_ok_def get by auto
  moreover have "maps_ok c ?r"
    using inv unfolding interleaved_inv_parts maps_ok_def get same
    by (auto simp: unregister_turn_def no_empty_drop)
  moreover have "lags strict (index_bucket (name_index ?r)) (file_by sm_name r) (unnamed R) ((still_named U)(i := None))"
    if "enable_name_index c"
    using idx.lags_drop [OF interleaved_invD(5) [OF inv that] none name] that interleaved_invD(6) [OF inv]
    by (simp add: unregister_turn_def)
  ultimately show ?thesis
    using inv unfolding interleaved_inv_parts files same key by (simp add: still_upd sizes_ok_def same)
qed

lemma interleaved_unkey:
  assumes inv: "interleaved_inv strict k c R U r" and U: "U i = Some (Unkeying m)"
  shows "interleaved_inv strict k c R (U(i := None)) (snd (unregister_turn i (Unkeying m) r))"
proof -
  let ?r = "snd (unregister_turn i (Unkeying m) r)"
  have get: "reg_get ?r j = reg_get r j" and files: "file_by key ?r = file_by key r"
    and same: "sessions ?r = sessions r" "name_index ?r = name_index r" "reg_config ?r = reg_config r"
    for j key
    by (simp_all add: unregister_turn_def reg_get_def file_by_def [abs_def])
  have none: "file_by session_key r i = None"
    using interleaved_invD(2) [OF inv U] by (simp add: file_by_get)
  have key: "still_keyed U i = Some (session_key m)" and name: "still_named (U(i := None)) = still_named U"
    using U by (auto simp: still_named_def still_keyed_def fun_eq_iff)
  have "tasks_ok strict R (U(i := None)) ?r"
    using inv U unfolding interleaved_inv_parts tasks_ok_def get by auto
  moreover have "maps_ok c ?r"
    using inv unfolding interleaved_inv_parts maps_ok_def get same
    by (auto simp: unregister_turn_def no_empty_drop)
  moreover have "lags strict (index_bucket (connection_index ?r)) (file_by session_key r) (dom R) ((still_keyed U)(i := None))"
    using idx.lags_drop [OF interleaved_invD(4) [OF inv] none key] by (simp add: unregister_turn_def)
  ultimately show ?thesis
    using inv unfolding interleaved_inv_parts files same name by (simp add: still_upd sizes_ok_def same)
qed

lemma interleaved_unregister:
  assumes "interleaved_inv strict k c R U r" and "U i = Some q" and "unregister_turn i q r = (q', r')"
  shows "interleaved_inv strict k c R (U(i := q')) r'"
  using assms interleaved_unname [OF assms(1)] interleaved_unkey [OF assms(1)]
  by (cases q) (auto simp: unregister_turn_def)

text \<open>A change in place that keeps id, name and key.\<close>

lemma interleaved_modify:
  assumes inv: "interleaved_inv strict k c R U r" and r': "reg_modify show_id f r i = Inr r'"
    and keep: "\<And>m. sm_id (f m) = sm_id m \<and> sm_name (f m) = sm_name m \<and> session_key (f m) = session_key m"
  shows "interleaved_inv strict k c R U r'"
proof -
  have get: "reg_get r' j = (if j = i then map_option f (reg_get r i) else reg_get r j)" for j
    by (rule store.lookup_change [OF r'])
  have files: "file_by key r' = file_by key r" if "\<And>m. key (f m) = key m" for key
    using that by (auto simp: file_by_get get fun_eq_iff option.map_comp comp_def)
  have same: "connection_index r' = connection_index r" "name_index r' = name_index r" "reg_config r' = reg_config r"
    "length (sessions r') = length (sessions r)"
    using r' length_modify [OF interleaved_invD(8) [OF inv] r'] by (auto simp: reg_modify_Inr)
  have "hm_ok (sessions r')"
    using r' interleaved_invD(8) [OF inv] by (auto simp: reg_modify_Inr)
  then have "maps_ok c r'"
    using inv keep unfolding interleaved_inv_parts maps_ok_def get same by auto
  moreover have "registration_ok strict j p (map_option f (reg_get r j))"
    if "registration_ok strict j p (reg_get r j)" for j p
    using that keep by (cases p) (auto simp: registration_ok_def)
  then have "tasks_ok strict R U r'"
    using inv unfolding interleaved_inv_parts tasks_ok_def get by simp
  ultimately show ?thesis
    using inv files [of sm_name] files [of session_key] keep
    by (simp add: interleaved_inv_parts same sizes_ok_def)
qed

lemma interleaved_holds: "interleaved strict k c R U r \<Longrightarrow> interleaved_inv strict k c R U r"
proof (induction rule: interleaved.induct)
  case il_new
  show ?case by (rule interleaved_new)
next
  case (il_status R U r show_id now i s r')
  from il_status.IH il_status.hyps(2) [unfolded update_status_def] show ?case
    by (rule interleaved_modify) simp
next
  case (il_used R U r show_id now i r')
  from il_used.IH il_used.hyps(2) [unfolded reg_mark_used_def] show ?case
    by (rule interleaved_modify) simp
next
  case il_check
  then show ?case by (blast intro: interleaved_check)
next
  case il_register
  then show ?case by (blast intro: interleaved_register)
next
  case il_take
  then show ?case by (blast intro: interleaved_take)
next
  case il_unregister
  then show ?case by (blast intro: interleaved_unregister)
qed

section \<open>Properties\<close>

lemma listed_by_bucket:
  "(case hm_get ix n of Some ids \<Rightarrow> lookup_ids r ids | None \<Rightarrow> []) = lookup_ids r (index_bucket ix n)"
  by (simp add: index_bucket_def lookup_ids_def map_filter_def split: option.splits)

text \<open>What a listing through a lagging index answers.\<close>

lemma lagging_listing:
  assumes lags: "lags strict (index_bucket ix) (file_by key r) todo gone"
    and ids: "\<And>i m. reg_get r i = Some m \<Longrightarrow> sm_id m = i"
  shows "distinct (lookup_ids r (index_bucket ix n))"
    and "m \<in> set (lookup_ids r (index_bucket ix n)) \<longleftrightarrow>
      reg_get r (sm_id m) = Some m \<and> key m = n \<and> sm_id m \<notin> todo"
proof -
  show "distinct (lookup_ids r (index_bucket ix n))"
    by (rule distinct_lookup_ids) (use lags ids in \<open>simp_all add: lags_def reg_get_def\<close>)
  show "m \<in> set (lookup_ids r (index_bucket ix n)) \<longleftrightarrow>
      reg_get r (sm_id m) = Some m \<and> key m = n \<and> sm_id m \<notin> todo" (is "_ \<longleftrightarrow> ?right")
  proof
    assume "m \<in> set (lookup_ids r (index_bucket ix n))"
    then obtain i where i: "i \<in> set (index_bucket ix n)" "reg_get r i = Some m"
      by (auto simp: set_lookup_ids reg_get_def)
    then have "i \<notin> todo" and "file_by key r i = None \<or> file_by key r i = Some n"
      using lags by (auto simp: lags_def)
    with i ids [OF i(2)] show ?right
      by (auto simp: file_by_get)
  next
    assume right: ?right
    then have "file_by key r (sm_id m) = Some n"
      by (simp add: file_by_get)
    then have "sm_id m \<in> set (index_bucket ix n)"
      using lags right by (auto simp: lags_def)
    with right show "m \<in> set (lookup_ids r (index_bucket ix n))"
      by (auto simp: set_lookup_ids reg_get_def)
  qed
qed

lemma distinct_values:
  assumes "hm_ok (sessions r)" and ids: "\<And>i m. reg_get r i = Some m \<Longrightarrow> sm_id m = i"
  shows "distinct (hm_values (sessions r))"
proof -
  have got: "reg_get r (fst p) = Some (snd p)" if "p \<in> set (sessions r)" for p
    using that by (simp add: reg_get_def hm_get_in_set [OF assms(1)])
  have "inj_on snd (set (sessions r))"
  proof (rule inj_onI)
    fix p q
    assume pq: "p \<in> set (sessions r)" "q \<in> set (sessions r)" "snd p = snd q"
    with got [OF pq(1)] got [OF pq(2)] ids have "fst p = fst q"
      by metis
    with pq(3) show "p = q"
      by (simp add: prod_eq_iff)
  qed
  then show ?thesis
    using assms(1) by (auto simp: hm_values_def hm_ok_def distinct_map)
qed

text \<open>C9. However registrations, removals and status changes interleave, lock by lock, even when a removal
  overlaps the registration of its session: an indexed listing answers, without duplicates, exactly the sessions
  registered at that moment under the name or key asked for, except those whose registration has not reached the
  index yet; and fewer than \<open>max_sessions + k\<close> sessions are registered, if at no moment so far more than \<open>k\<close>
  registrations were under way.\<close>

theorem concurrent_listing_exact:
  assumes "interleaved strict k c R U r" and "0 < k"
  shows "distinct (list_by_connection_key r key) \<and>
    (m \<in> set (list_by_connection_key r key) \<longleftrightarrow>
      reg_get r (sm_id m) = Some m \<and> session_key m = key \<and> R (sm_id m) = None) \<and>
    distinct (list_by_name r name) \<and>
    (m \<in> set (list_by_name r name) \<longleftrightarrow>
      reg_get r (sm_id m) = Some m \<and> sm_name m = name \<and> \<not> (enable_name_index c \<and> sm_id m \<in> unnamed R)) \<and>
    reg_count r < unat (max_sessions c) + k"
proof -
  have inv: "interleaved_inv strict k c R U r"
    by (rule interleaved_holds [OF assms(1)])
  note ids = interleaved_invD(3) [OF inv] and cfg = interleaved_invD(6) [OF inv]
  have "list_by_connection_key r key = lookup_ids r (index_bucket (connection_index r) key)"
    unfolding list_by_connection_key_def by (rule listed_by_bucket)
  with lagging_listing [OF interleaved_invD(4) [OF inv] ids]
  have keys: "distinct (list_by_connection_key r key)" "m \<in> set (list_by_connection_key r key) \<longleftrightarrow>
      reg_get r (sm_id m) = Some m \<and> session_key m = key \<and> R (sm_id m) = None"
    by (simp_all add: domIff)
  have "distinct (list_by_name r name) \<and> (m \<in> set (list_by_name r name) \<longleftrightarrow>
      reg_get r (sm_id m) = Some m \<and> sm_name m = name \<and> \<not> (enable_name_index c \<and> sm_id m \<in> unnamed R))"
  proof (cases "enable_name_index c")
    case True
    then have "list_by_name r name = lookup_ids r (index_bucket (name_index r) name)"
      unfolding list_by_name_def cfg using listed_by_bucket [where ix = "name_index r" and n = name] by simp
    with lagging_listing [OF interleaved_invD(5) [OF inv True] ids] True show ?thesis
      by simp
  next
    case False
    have "m \<in> set (hm_values (sessions r)) \<longleftrightarrow> reg_get r (sm_id m) = Some m"
      using ids by (auto simp: hm_values_in [OF interleaved_invD(8) [OF inv]] reg_get_def)
    with False distinct_values [OF interleaved_invD(8) [OF inv] ids] show ?thesis
      by (auto simp: list_by_name_def cfg)
  qed
  moreover have "reg_count r < unat (max_sessions c) + k"
    using inv assms(2) by (auto simp: interleaved_inv_def reg_count_def)
  ultimately show ?thesis
    using keys by simp
qed

theorem concurrent_listing_exact_witness:
  "\<exists>R U r m. interleaved True 1 registry_config_default R U r \<and> reg_get r (sm_id m) = Some m \<and>
     m \<notin> set (list_by_name r (sm_name m))"
proof -
  let ?m = "sample_session 1 ''a''" and ?c = registry_config_default
  let ?r = "(registry_new ?c)\<lparr>sessions := hm_insert (sm_id ?m) (started ?m) []\<rparr>"
  have run: "interleaved True 1 ?c [sm_id ?m \<mapsto> Naming (started ?m)] Map.empty ?r"
    by (rule first_registration) (simp add: registry_config_default_def)
  have "started ?m \<notin> set (list_by_name ?r (sm_name (started ?m)))"
    using concurrent_listing_exact [OF run, of "[]" "started ?m" "sm_name (started ?m)"]
    by (auto simp: unnamed_def registry_config_default_def)
  moreover have "reg_get ?r (sm_id (started ?m)) = Some (started ?m)"
    by (simp add: reg_get_def)
  ultimately show ?thesis
    using run by blast
qed

text \<open>C10. When no removal overlaps the registration of its own session, the registry is consistent again as soon
  as nothing is under way: every interleaving that has run to its end leaves it well formed.\<close>

theorem quiescent_registry_well_formed:
  assumes "interleaved True k c Map.empty Map.empty r"
  shows "registry_wf r"
proof -
  have inv: "interleaved_inv True k c Map.empty Map.empty r"
    by (rule interleaved_holds [OF assms])
  have none: "still_named Map.empty = (\<lambda>_. None)" "still_keyed Map.empty = (\<lambda>_. None)" "unnamed Map.empty = {}"
    by (simp_all add: still_named_def still_keyed_def unnamed_def fun_eq_iff)
  from inv show ?thesis
    by (auto simp: interleaved_inv_parts maps_ok_def registry_wf_def none reg_get_def intro!: lags_indexes)
qed

theorem quiescent_registry_well_formed_witness:
  "\<exists>r. interleaved True 1 registry_config_default Map.empty Map.empty r \<and> registry_wf r \<and> reg_count r = 1"
proof -
  let ?c = registry_config_default and ?m = "sample_session 1 ''a''"
  define r1 where "r1 = (registry_new ?c)\<lparr>sessions := hm_insert (sm_id ?m) (started ?m) []\<rparr>"
  have "interleaved True 1 ?c [sm_id ?m \<mapsto> Naming (started ?m)] Map.empty r1"
    unfolding r1_def by (rule first_registration) (simp add: registry_config_default_def)
  then have "interleaved True 1 ?c [sm_id ?m \<mapsto> Keying (started ?m)] Map.empty (snd (register_turn (Naming (started ?m)) r1))"
    by (rule il_registerI [where i = "sm_id ?m" and p = "Naming (started ?m)" and p' = "Some (Keying (started ?m))"])
      (simp_all add: register_turn_def)
  then have run: "interleaved True 1 ?c Map.empty Map.empty
      (snd (register_turn (Keying (started ?m)) (snd (register_turn (Naming (started ?m)) r1))))"
    by (rule il_registerI [where i = "sm_id ?m" and p = "Keying (started ?m)" and p' = None])
      (simp_all add: register_turn_def)
  moreover have "reg_count (snd (register_turn (Keying (started ?m)) (snd (register_turn (Naming (started ?m)) r1)))) = 1"
    by (simp add: reg_count_def register_turn_def r1_def hm_insert_def)
  ultimately show ?thesis
    using quiescent_registry_well_formed [OF run] by blast
qed

text \<open>C11. Names are unique when the configuration says so, but a removal that overlaps the registration of its
  session leaves the name taken for good: nothing is registered and nothing under way, and yet every registration
  under that name is refused as a duplicate.\<close>

theorem overlapping_removal_blocks_name:
  fixes m :: session_metadata
  assumes "enable_name_index c" and "\<not> allow_duplicate_names c" and "max_sessions c \<noteq> 0"
  shows "\<exists>r. interleaved False 1 c Map.empty Map.empty r \<and> reg_count r = 0 \<and>
    (\<forall>m'. sm_name m' = sm_name m \<longrightarrow> register_check r m' = Inl (SessionE (AlreadyExists (sm_name m))))"
proof -
  let ?i = "sm_id m" and ?m = "started m" and ?r0 = "registry_new c"
  define r1 where "r1 = ?r0\<lparr>sessions := hm_insert ?i ?m []\<rparr>"
  define r5 where "r5 = ?r0\<lparr>name_index := index_push [] (sm_name m) ?i\<rparr>"
  define r6 where "r6 = r5\<lparr>connection_index := index_push [] (session_key m) ?i\<rparr>"
  have "interleaved False 1 c [?i \<mapsto> Naming ?m] Map.empty r1"
    unfolding r1_def using assms(3) by (rule first_registration)
  moreover have "reg_get r1 ?i = Some ?m"
    by (simp add: r1_def reg_get_def)
  ultimately have "interleaved False 1 c [?i \<mapsto> Naming ?m] [?i \<mapsto> Unnaming ?m] (take_session ?i r1)"
    by (rule il_take) simp
  moreover have "take_session ?i r1 = ?r0"
    by (simp add: r1_def take_session_def registry_new_def hm_insert_def hm_remove_def)
  ultimately have "interleaved False 1 c [?i \<mapsto> Naming ?m] [?i \<mapsto> Unnaming ?m] ?r0"
    by simp
  then have "interleaved False 1 c [?i \<mapsto> Naming ?m] [?i \<mapsto> Unkeying ?m] ?r0"
    by (rule il_unregisterI [where i = ?i and q = "Unnaming ?m" and q' = "Some (Unkeying ?m)"])
      (simp_all add: unregister_turn_def registry_new_def index_drop_def)
  then have "interleaved False 1 c [?i \<mapsto> Naming ?m] Map.empty ?r0"
    by (rule il_unregisterI [where i = ?i and q = "Unkeying ?m" and q' = None])
      (simp_all add: unregister_turn_def registry_new_def index_drop_def)
  then have "interleaved False 1 c [?i \<mapsto> Keying ?m] Map.empty r5"
    by (rule il_registerI [where i = ?i and p = "Naming ?m" and p' = "Some (Keying ?m)"])
      (use assms in \<open>simp_all add: register_turn_def registry_new_def r5_def\<close>)
  then have "interleaved False 1 c Map.empty Map.empty r6"
    by (rule il_registerI [where i = ?i and p = "Keying ?m" and p' = None])
      (simp_all add: register_turn_def registry_new_def r5_def r6_def)
  moreover have "reg_count r6 = 0"
    by (simp add: r6_def r5_def reg_count_def registry_new_def)
  moreover have "register_check r6 m' = Inl (SessionE (AlreadyExists (sm_name m)))" if "sm_name m' = sm_name m" for m'
    using that assms by (simp add: r6_def r5_def register_check_def registry_new_def index_push_def unat_gt_0)
  ultimately show ?thesis by blast
qed

theorem overlapping_removal_blocks_name_witness:
  "\<exists>r. reg_count r = 0 \<and> register_check r (sample_session 2 ''a'') = Inl (SessionE (AlreadyExists ''a''))"
  using overlapping_removal_blocks_name [of "registry_config_default\<lparr>allow_duplicate_names := False\<rparr>"
      "sample_session 1 ''a''"]
  by (auto simp: registry_config_default_def sample_session_def)

end
