(* ===== verification/Protocol.thy ===== *)
theory Protocol
  imports Hash_Map "HOL-Library.Sublist"
begin

text \<open>
  \<open>crates/core/src/protocol/\<close>: the requests and responses between client and remote server
  (\<open>request_response.rs\<close>) and the buffers that collect response items between two polls
  (\<open>buffer.rs\<close>). The trait \<open>ProtocolBuffer\<close> is a locale, interpreted by its two implementations.
  A panic is the value \<open>None\<close>.
\<close>

section \<open>Messages\<close>

datatype protocol_request =
    PollData
  | StartPortForward (spf_local_port: u16) (spf_remote_host: string) (spf_remote_port: u16)
  | StopPortForward u16
  | PortForwardData u32 bytes
  | GetClipboard
  | SetClipboard string
  | OpenBrowser string

datatype response_item =
    PortForwardItem u32 bytes
  | NewConnection u32 u16
  | CloseConnection u32
  | ClipboardContent string

datatype protocol_response = Data "response_item list" | Success | Error string

section \<open>Response buffer\<close>

record response_buffer =
  rb_items :: "response_item list"
  pending_connections :: "(u32, u16) hashmap"
  closed_connections :: "u32 list"

definition rb_new :: response_buffer where
  "rb_new = \<lparr>rb_items = [], pending_connections = [], closed_connections = []\<rparr>"

definition rb_add_item :: "response_buffer \<Rightarrow> response_item \<Rightarrow> response_buffer" where
  "rb_add_item b x = b\<lparr>rb_items := rb_items b @ [x]\<rparr>"

definition rb_has_data :: "response_buffer \<Rightarrow> bool" where
  "rb_has_data b \<longleftrightarrow> rb_items b \<noteq> []"

definition rb_take_items :: "response_buffer \<Rightarrow> response_item list \<times> response_buffer" where
  "rb_take_items b = (rb_items b, b\<lparr>rb_items := []\<rparr>)"

definition rb_clear :: "response_buffer \<Rightarrow> response_buffer" where
  "rb_clear b = b\<lparr>rb_items := [], pending_connections := [], closed_connections := []\<rparr>"

definition add_new_connection :: "response_buffer \<Rightarrow> u32 \<Rightarrow> u16 \<Rightarrow> response_buffer" where
  "add_new_connection b cid port =
     rb_add_item (b\<lparr>pending_connections := hm_insert cid port (pending_connections b)\<rparr>)
       (NewConnection cid port)"

definition add_close_connection :: "response_buffer \<Rightarrow> u32 \<Rightarrow> response_buffer" where
  "add_close_connection b cid =
     rb_add_item
       (b\<lparr>pending_connections := hm_remove cid (pending_connections b),
          closed_connections := closed_connections b @ [cid]\<rparr>)
       (CloseConnection cid)"

definition add_port_forward_data :: "response_buffer \<Rightarrow> u32 \<Rightarrow> bytes \<Rightarrow> response_buffer" where
  "add_port_forward_data b cid data = rb_add_item b (PortForwardItem cid data)"

definition add_clipboard_content :: "response_buffer \<Rightarrow> string \<Rightarrow> response_buffer" where
  "add_clipboard_content b content = rb_add_item b (ClipboardContent content)"

definition is_connection_active :: "response_buffer \<Rightarrow> u32 \<Rightarrow> bool" where
  "is_connection_active b cid = hm_contains (pending_connections b) cid"

lemmas rb_defs = rb_new_def rb_add_item_def rb_has_data_def rb_take_items_def rb_clear_def
  add_new_connection_def add_close_connection_def add_port_forward_data_def
  add_clipboard_content_def is_connection_active_def

section \<open>Message buffer\<close>

record 'a message_buffer =
  mb_items :: "'a list"
  max_capacity :: "usize option"

definition mb_new :: "'a message_buffer" where
  "mb_new = \<lparr>mb_items = [], max_capacity = None\<rparr>"

definition mb_with_capacity :: "usize \<Rightarrow> 'a message_buffer" where
  "mb_with_capacity c = \<lparr>mb_items = [], max_capacity = Some c\<rparr>"

definition mb_len :: "'a message_buffer \<Rightarrow> usize" where
  "mb_len b = length (mb_items b)"

definition mb_is_empty :: "'a message_buffer \<Rightarrow> bool" where
  "mb_is_empty b \<longleftrightarrow> mb_items b = []"

definition mb_is_full :: "'a message_buffer \<Rightarrow> bool" where
  "mb_is_full b =
     (case max_capacity b of None \<Rightarrow> False | Some c \<Rightarrow> length (mb_items b) \<ge> c)"

text \<open>\<open>Vec::remove(0)\<close> panics on an empty vector.\<close>

definition vec_remove_first :: "'a list \<Rightarrow> 'a list option" where
  "vec_remove_first xs = (case xs of [] \<Rightarrow> None | _ # ys \<Rightarrow> Some ys)"

definition mb_add_item :: "'a message_buffer \<Rightarrow> 'a \<Rightarrow> 'a message_buffer option" where
  "mb_add_item b x =
     (case max_capacity b of
        Some max_cap \<Rightarrow>
          if length (mb_items b) \<ge> max_cap
          then map_option (\<lambda>items. b\<lparr>mb_items := items @ [x]\<rparr>) (vec_remove_first (mb_items b))
          else Some (b\<lparr>mb_items := mb_items b @ [x]\<rparr>)
      | None \<Rightarrow> Some (b\<lparr>mb_items := mb_items b @ [x]\<rparr>))"

definition mb_has_data :: "'a message_buffer \<Rightarrow> bool" where
  "mb_has_data b \<longleftrightarrow> mb_items b \<noteq> []"

definition mb_take_items :: "'a message_buffer \<Rightarrow> 'a list \<times> 'a message_buffer" where
  "mb_take_items b = (mb_items b, b\<lparr>mb_items := []\<rparr>)"

definition mb_clear :: "'a message_buffer \<Rightarrow> 'a message_buffer" where
  "mb_clear b = b\<lparr>mb_items := []\<rparr>"

lemmas mb_defs = mb_new_def mb_with_capacity_def mb_len_def mb_is_empty_def mb_is_full_def
  vec_remove_first_def mb_add_item_def mb_has_data_def mb_take_items_def mb_clear_def

section \<open>The trait \<open>ProtocolBuffer\<close>\<close>

text \<open>Adding a list of items one by one; \<open>None\<close> once an addition panics.\<close>

fun add_items :: "('b \<Rightarrow> 'i \<Rightarrow> 'b option) \<Rightarrow> 'b \<Rightarrow> 'i list \<Rightarrow> 'b option" where
  "add_items add b [] = Some b"
| "add_items add b (x # xs) = (case add b x of None \<Rightarrow> None | Some b' \<Rightarrow> add_items add b' xs)"

locale protocol_buffer =
  fixes contents :: "'b \<Rightarrow> 'i list"
    and add :: "'b \<Rightarrow> 'i \<Rightarrow> 'b option"
    and has_data :: "'b \<Rightarrow> bool"
    and take_items :: "'b \<Rightarrow> 'i list \<times> 'b"
    and clear :: "'b \<Rightarrow> 'b"
  assumes contents_add: "add b x = Some b' \<Longrightarrow> \<exists>old. suffix old (contents b) \<and> contents b' = old @ [x]"
    and has_data_iff: "has_data b \<longleftrightarrow> contents b \<noteq> []"
    and take_items_fst: "fst (take_items b) = contents b"
    and take_items_snd: "contents (snd (take_items b)) = []"
    and contents_clear: "contents (clear b) = []"
begin

lemma add_has_data: "add b x = Some b' \<Longrightarrow> has_data b'"
  using contents_add by (fastforce simp: has_data_iff)

lemma add_items_suffix:
  "add_items add b xs = Some b' \<Longrightarrow> suffix (contents b') (contents b @ xs)"
proof (induction xs arbitrary: b)
  case (Cons x xs)
  then obtain b1 where b1: "add b x = Some b1" and "add_items add b1 xs = Some b'"
    by (auto split: option.splits)
  then have "suffix (contents b') (contents b1 @ xs)"
    using Cons.IH by blast
  moreover have "suffix (contents b1 @ xs) (contents b @ x # xs)"
    using contents_add [OF b1] by (auto simp: suffix_def)
  ultimately show ?case
    by (rule suffix_order.trans)
qed simp

lemma take_after_adds:
  assumes "add_items add (snd (take_items b)) xs = Some b'"
  shows "suffix (fst (take_items b')) xs"
  using add_items_suffix [OF assms] by (simp add: take_items_fst take_items_snd)

end

text \<open>A buffer that never drops an item and never panics.\<close>

locale lossless_buffer = protocol_buffer +
  assumes add_total: "\<exists>b'. add b x = Some b' \<and> contents b' = contents b @ [x]"
begin

lemma add_items_total: "\<exists>b'. add_items add b xs = Some b' \<and> contents b' = contents b @ xs"
proof (induction xs arbitrary: b)
  case (Cons x xs)
  obtain b1 where "add b x = Some b1" and "contents b1 = contents b @ [x]"
    using add_total by blast
  with Cons.IH [of b1] show ?case by auto
qed simp

lemma take_returns_all:
  assumes "add_items add b xs = Some b'" and "\<not> has_data b"
  shows "fst (take_items b') = xs"
  using add_items_total [of b xs] assms by (simp add: take_items_fst has_data_iff)

end

interpretation response: lossless_buffer rb_items "\<lambda>b x. Some (rb_add_item b x)" rb_has_data
    rb_take_items rb_clear
  by unfold_locales (auto simp: rb_defs)

lemma mb_add_contents:
  "mb_add_item b x = Some b' \<Longrightarrow> \<exists>old. suffix old (mb_items b) \<and> mb_items b' = old @ [x]"
  by (auto simp: mb_defs suffix_def split: option.splits list.splits if_splits)

interpretation message: protocol_buffer mb_items mb_add_item mb_has_data mb_take_items mb_clear
  by unfold_locales (auto dest: mb_add_contents simp: mb_has_data_def mb_take_items_def mb_clear_def)

section \<open>Lemmas\<close>

lemma mb_add_capacity: "mb_add_item b x = Some b' \<Longrightarrow> max_capacity b' = max_capacity b"
  by (auto simp: mb_defs split: option.splits if_splits)

text \<open>A bounded buffer is a window over the last items.\<close>

lemma mb_add_window:
  assumes "max_capacity b = Some c" and "0 < c" and "mb_items b = drop (length xs - c) xs"
  shows "\<exists>b'. mb_add_item b x = Some b' \<and> max_capacity b' = Some c \<and>
           mb_items b' = drop (length (xs @ [x]) - c) (xs @ [x])"
proof (cases "length xs < c")
  case True
  with assms show ?thesis by (simp add: mb_add_item_def)
next
  case False
  then obtain y ys where ys: "drop (length xs - c) xs = y # ys"
    using assms(2) by (cases "drop (length xs - c) xs") auto
  then have "ys = drop (Suc (length xs - c)) xs"
    by (simp add: drop_Suc flip: drop_tl) (metis drop_tl list.sel(3) ys)
  with False ys assms show ?thesis
    by (simp add: mb_add_item_def vec_remove_first_def Suc_diff_le)
qed

lemma mb_adds_window:
  assumes "max_capacity b = Some c" and "0 < c" and "mb_items b = drop (length xs - c) xs"
  shows "\<exists>b'. add_items mb_add_item b ys = Some b' \<and>
           mb_items b' = drop (length (xs @ ys) - c) (xs @ ys)"
  using assms
proof (induction ys arbitrary: b xs)
  case (Cons y ys)
  obtain b1 where "mb_add_item b y = Some b1" and "max_capacity b1 = Some c"
    and "mb_items b1 = drop (length (xs @ [y]) - c) (xs @ [y])"
    using mb_add_window [OF Cons.prems] by blast
  with Cons.IH [of b1 "xs @ [y]"] Cons.prems(2) show ?case by simp
qed auto

section \<open>Properties\<close>

text \<open>Nothing put into the response buffer between two polls is lost or reordered: draining it
  after any sequence of additions to a drained buffer returns exactly that sequence, and the buffer
  is then empty.\<close>

theorem response_buffer_lossless:
  "\<exists>b'. add_items (\<lambda>b x. Some (rb_add_item b x)) (snd (rb_take_items b)) xs = Some b' \<and>
     fst (rb_take_items b') = xs \<and> \<not> rb_has_data (snd (rb_take_items b'))"
  using response.add_items_total [of "snd (rb_take_items b)" xs]
  by (auto simp: response.take_items_fst response.take_items_snd response.has_data_iff)

text \<open>A message buffer of capacity \<open>c > 0\<close> never panics, holds at most \<open>c\<close> messages and always
  the most recent ones in order; a buffer created with capacity 0 panics on its first message.\<close>

theorem message_buffer_window:
  "(0 < c \<longrightarrow> (\<exists>b. add_items mb_add_item (mb_with_capacity c) xs = Some b \<and>
      mb_items b = drop (length xs - c) xs \<and> length (mb_items b) \<le> c)) \<and>
   mb_add_item (mb_with_capacity 0) x = None"
proof -
  have "\<exists>b. add_items mb_add_item (mb_with_capacity c) xs = Some b \<and>
      mb_items b = drop (length xs - c) xs" if "0 < c"
    using mb_adds_window [of "mb_with_capacity c" c "[]" xs] that by (simp add: mb_with_capacity_def)
  then show ?thesis
    by (fastforce simp: mb_defs)
qed

theorem message_buffer_window_witness:
  "\<exists>b. add_items mb_add_item (mb_with_capacity 2) [1, 2, 3 :: nat] = Some b \<and> mb_items b = [2, 3]"
  using message_buffer_window [of 2 "[1, 2, 3 :: nat]" 0] by (simp del: add_items.simps) blast

end
