(* ===== verification/Channel.thy ===== *)
theory Channel
  imports Errors "HOL-Library.Sublist"
begin

text \<open>
  \<open>crates/core/src/message_channel.rs\<close>: length-prefixed messages over a byte stream.

  The stream is what the peer's bytes look like from this end: the list of the results of the
  successive \<open>read_buf\<close> calls. A chunk of no bytes is the end of the stream (\<open>read_buf\<close> returned
  0); an exhausted list means the next read has not completed yet, so \<open>receive\<close> is still waiting
  and the model returns \<open>None\<close>. What is written is appended to \<open>outgoing\<close>; a failing write may
  have pushed out a prefix. \<open>serde_json\<close> is not part of the repository: the two conversions are
  arguments of the functions that use them.
\<close>

section \<open>Wire format\<close>

definition u16_max :: nat where
  "u16_max = 65535"

definition be_bytes :: "nat \<Rightarrow> bytes" where
  "be_bytes n = [of_nat (n div 256), of_nat (n mod 256)]"

definition from_be_bytes :: "u8 \<Rightarrow> u8 \<Rightarrow> nat" where
  "from_be_bytes hi lo = unat hi * 256 + unat lo"

definition frame :: "bytes \<Rightarrow> bytes" where
  "frame payload = be_bytes (length payload) @ payload"

text \<open>The body of the loop of \<open>receive_binary\<close>: a complete message at the front of the buffer.\<close>

fun take_frame :: "bytes \<Rightarrow> (bytes \<times> bytes) option" where
  "take_frame (hi # lo # rest) =
     (let payload_len = from_be_bytes hi lo in
      if length (hi # lo # rest) \<ge> 2 + payload_len
      then Some (take payload_len rest, drop payload_len rest)
      else None)"
| "take_frame _ = None"

section \<open>The channel\<close>

datatype read_event = Chunk bytes | ReadFault string

datatype write_outcome = Written | WriteFault string nat

record channel =
  read_buffer :: bytes
  incoming :: "read_event list"
  outgoing :: bytes

definition new_with_stream :: "read_event list \<Rightarrow> channel" where
  "new_with_stream evs = \<lparr>read_buffer = [], incoming = evs, outgoing = []\<rparr>"

definition send :: "write_outcome \<Rightarrow> bytes \<Rightarrow> channel \<Rightarrow> (yuha_error + unit) \<times> channel" where
  "send w payload ch =
     (if length payload > u16_max
      then (Inl (ProtocolE (BufferOverflow (length payload))), ch)
      else case w of
        Written \<Rightarrow> (Inr (), ch\<lparr>outgoing := outgoing ch @ frame payload\<rparr>)
      | WriteFault e n \<Rightarrow> (Inl (IoE e), ch\<lparr>outgoing := outgoing ch @ take n (frame payload)\<rparr>))"

text \<open>
  The loop itself, for any way \<open>deframe\<close> of finding a complete message at the front of a buffer: try the
  buffer; otherwise read more.
\<close>

fun pump ::
    "(bytes \<Rightarrow> ('m \<times> bytes) option) \<Rightarrow> bytes \<Rightarrow> read_event list
     \<Rightarrow> ((yuha_error + 'm) \<times> bytes \<times> read_event list) option" where
  "pump deframe buf evs =
     (case deframe buf of
        Some (m, rest) \<Rightarrow> Some (Inr m, rest, evs)
      | None \<Rightarrow>
          (case evs of
             [] \<Rightarrow> None
           | Chunk bs # evs' \<Rightarrow>
               if bs = [] then Some (Inl (ProtocolE ChannelClosed), buf, evs')
               else pump deframe (buf @ bs) evs'
           | ReadFault e # evs' \<Rightarrow> Some (Inl (IoE e), buf, evs')))"

declare pump.simps [simp del]

definition receive :: "channel \<Rightarrow> ((yuha_error + bytes) \<times> channel) option" where
  "receive ch =
     map_option (\<lambda>(r, buf, evs). (r, ch\<lparr>read_buffer := buf, incoming := evs\<rparr>))
       (pump take_frame (read_buffer ch) (incoming ch))"

text \<open>The typed layer. \<open>what\<close> is \<open>Request\<close> or \<open>Response\<close>.\<close>

definition receive_as ::
    "string \<Rightarrow> (bytes \<Rightarrow> string + 'q) \<Rightarrow> channel \<Rightarrow> ((yuha_error + 'q) \<times> channel) option" where
  "receive_as what from_slice ch =
     map_option (\<lambda>(r, ch').
       (try_bind r (\<lambda>payload.
          map_err (\<lambda>e. ProtocolE (Serialization (what @ '' deserialization failed: '' @ e)))
            (from_slice payload)), ch'))
       (receive ch)"

definition send_as ::
    "string \<Rightarrow> ('q \<Rightarrow> string + bytes) \<Rightarrow> write_outcome \<Rightarrow> 'q \<Rightarrow> channel
     \<Rightarrow> (yuha_error + unit) \<times> channel" where
  "send_as what to_vec w q ch =
     (case to_vec q of
        Inl e \<Rightarrow> (Inl (ProtocolE (Serialization (what @ '' serialization failed: '' @ e))), ch)
      | Inr json \<Rightarrow> send w json ch)"

definition receive_request ::
    "(bytes \<Rightarrow> string + 'q) \<Rightarrow> channel \<Rightarrow> ((yuha_error + 'q) \<times> channel) option" where
  "receive_request from_slice = receive_as ''Request'' from_slice"

definition send_request ::
    "('q \<Rightarrow> string + bytes) \<Rightarrow> write_outcome \<Rightarrow> 'q \<Rightarrow> channel \<Rightarrow> (yuha_error + unit) \<times> channel" where
  "send_request to_vec = send_as ''Request'' to_vec"

definition receive_response ::
    "(bytes \<Rightarrow> string + 'r) \<Rightarrow> channel \<Rightarrow> ((yuha_error + 'r) \<times> channel) option" where
  "receive_response from_slice = receive_as ''Response'' from_slice"

definition send_response ::
    "('r \<Rightarrow> string + bytes) \<Rightarrow> write_outcome \<Rightarrow> 'r \<Rightarrow> channel \<Rightarrow> (yuha_error + unit) \<times> channel" where
  "send_response to_vec = send_as ''Response'' to_vec"

text \<open>Calling \<open>receive\<close> a given number of times; \<open>None\<close> once a call fails or still waits.\<close>

fun receive_n :: "nat \<Rightarrow> channel \<Rightarrow> (bytes list \<times> channel) option" where
  "receive_n 0 ch = Some ([], ch)"
| "receive_n (Suc n) ch =
     (case receive ch of
        Some (Inr p, ch') \<Rightarrow> map_option (\<lambda>(ps, ch''). (p # ps, ch'')) (receive_n n ch')
      | _ \<Rightarrow> None)"

text \<open>Sending a list of payloads, all writes succeeding.\<close>

fun send_all :: "bytes list \<Rightarrow> channel \<Rightarrow> channel" where
  "send_all [] ch = ch"
| "send_all (p # ps) ch = send_all ps (snd (send Written p ch))"

section \<open>The interface of a framing\<close>

text \<open>
  What the receive loop relies on: a complete frame at the front of a buffer is cut off exactly, and
  a buffer that holds only a proper part of one frame yields nothing.
\<close>

locale framing =
  fixes enc :: "'m \<Rightarrow> bytes"
    and deframe :: "bytes \<Rightarrow> ('m \<times> bytes) option"
    and ok :: "'m \<Rightarrow> bool"
  assumes deframe_enc: "ok m \<Longrightarrow> deframe (enc m @ rest) = Some (m, rest)"
    and deframe_partial: "ok m \<Longrightarrow> strict_prefix buf (enc m) \<Longrightarrow> deframe buf = None"
begin

lemma deframe_cases:
  assumes "ok m" and "buf @ tl_bytes = enc m @ rest"
  shows "(\<exists>buf'. buf = enc m @ buf' \<and> deframe buf = Some (m, buf') \<and> buf' @ tl_bytes = rest) \<or>
         (strict_prefix buf (enc m) \<and> deframe buf = None)"
proof -
  consider us where "buf = enc m @ us" "us @ tl_bytes = rest" | us where "buf @ us = enc m" "us \<noteq> []"
    using assms(2) by (fastforce simp: append_eq_append_conv2)
  then show ?thesis
  proof cases
    case 1
    then show ?thesis
      using deframe_enc [OF assms(1)] by simp
  next
    case 2
    then have "prefix buf (enc m)" and "buf \<noteq> enc m"
      by (metis prefixI) (use 2 in auto)
    then have "strict_prefix buf (enc m)"
      by (simp add: strict_prefix_def)
    then show ?thesis
      using deframe_partial [OF assms(1)] by simp
  qed
qed

lemma pump_delivers:
  assumes "ok m" and "buf @ concat cs = enc m @ rest" and "[] \<notin> set cs"
  shows "\<exists>buf' cs'. pump deframe buf (map Chunk cs @ evs) = Some (Inr m, buf', map Chunk cs' @ evs) \<and>
           buf' @ concat cs' = rest \<and> [] \<notin> set cs'"
  using assms
proof (induction cs arbitrary: buf)
  case Nil
  then have "buf = enc m @ rest"
    by simp
  then show ?case
    using deframe_enc [OF Nil.prems(1)]
    by (intro exI [of _ rest] exI [of _ "[]"]) (simp add: pump.simps [of deframe "enc m @ rest"])
next
  case (Cons c cs)
  from deframe_cases [OF Cons.prems(1,2)] show ?case
  proof
    assume "\<exists>buf'. buf = enc m @ buf' \<and> deframe buf = Some (m, buf') \<and> buf' @ concat (c # cs) = rest"
    then obtain buf' where "deframe buf = Some (m, buf')" and "buf' @ concat (c # cs) = rest"
      by blast
    then show ?thesis
      using Cons.prems(3) by (intro exI [of _ buf'] exI [of _ "c # cs"]) (simp add: pump.simps [of deframe buf])
  next
    assume "strict_prefix buf (enc m) \<and> deframe buf = None"
    then have "pump deframe buf (map Chunk (c # cs) @ evs) = pump deframe (buf @ c) (map Chunk cs @ evs)"
      using Cons.prems(3) by (auto simp: pump.simps [of deframe buf])
    then show ?thesis
      using Cons.IH [of "buf @ c"] Cons.prems by simp
  qed
qed

lemma pump_truncated:
  assumes "ok m" and "strict_prefix (buf @ concat cs) (enc m)" and "[] \<notin> set cs"
  shows "pump deframe buf (map Chunk cs @ Chunk [] # evs)
       = Some (Inl (ProtocolE ChannelClosed), buf @ concat cs, evs)"
  using assms
proof (induction cs arbitrary: buf)
  case Nil
  then show ?case
    by (simp add: pump.simps [of deframe buf] deframe_partial)
next
  case (Cons c cs)
  have "strict_prefix buf (enc m)"
    using Cons.prems(2) by (auto simp: strict_prefix_def prefix_def)
  then have "deframe buf = None"
    by (rule deframe_partial [OF Cons.prems(1)])
  then show ?case
    using Cons.IH [of "buf @ c"] Cons.prems by (auto simp: pump.simps [of deframe buf])
qed

lemma pump_waits:
  assumes "ok m" and "strict_prefix (buf @ concat cs) (enc m)" and "[] \<notin> set cs"
  shows "pump deframe buf (map Chunk cs) = None"
  using assms
proof (induction cs arbitrary: buf)
  case Nil
  then show ?case
    by (simp add: pump.simps [of deframe buf] deframe_partial)
next
  case (Cons c cs)
  have "strict_prefix buf (enc m)"
    using Cons.prems(2) by (auto simp: strict_prefix_def prefix_def)
  then have "deframe buf = None"
    by (rule deframe_partial [OF Cons.prems(1)])
  then show ?case
    using Cons.IH [of "buf @ c"] Cons.prems by (auto simp: pump.simps [of deframe buf])
qed

end

lemma from_be_be: "n \<le> u16_max \<Longrightarrow> from_be_bytes (of_nat (n div 256)) (of_nat (n mod 256)) = n"
  by (simp add: from_be_bytes_def u16_max_def unat_of_nat)

lemma take_frame_frame: "length p \<le> u16_max \<Longrightarrow> take_frame (frame p @ rest) = Some (p, rest)"
  by (simp add: frame_def be_bytes_def from_be_be Let_def)

lemma take_frame_partial:
  assumes "length p \<le> u16_max" and "strict_prefix buf (frame p)"
  shows "take_frame buf = None"
proof -
  obtain c tl_bytes where fr: "frame p = buf @ c # tl_bytes"
    using assms(2) by (auto simp: strict_prefix_def prefix_def neq_Nil_conv)
  show ?thesis
  proof (cases buf rule: take_frame.cases)
    case (1 hi lo rest)
    with fr assms(1) have "from_be_bytes hi lo = length p" and "p = rest @ c # tl_bytes"
      by (auto simp: frame_def be_bytes_def from_be_be)
    with 1 show ?thesis by simp
  qed simp_all
qed

interpretation wire: framing frame take_frame "\<lambda>p. length p \<le> u16_max"
  by unfold_locales (simp_all add: take_frame_frame take_frame_partial)

section \<open>Lemmas\<close>

lemma outgoing_send_all:
  "\<forall>p\<in>set ps. length p \<le> u16_max \<Longrightarrow>
   outgoing (send_all ps ch) = outgoing ch @ concat (map frame ps)"
  by (induction ps arbitrary: ch) (simp_all add: send_def)

lemma receive_n_delivers:
  assumes "\<forall>p\<in>set ps. length p \<le> u16_max" and "[] \<notin> set cs"
    and "read_buffer ch @ concat cs = concat (map frame ps) @ rest"
    and "incoming ch = map Chunk cs @ evs"
  shows "\<exists>ch' cs'. receive_n (length ps) ch = Some (ps, ch') \<and> incoming ch' = map Chunk cs' @ evs \<and>
           read_buffer ch' @ concat cs' = rest \<and> outgoing ch' = outgoing ch \<and> [] \<notin> set cs'"
  using assms
proof (induction ps arbitrary: ch cs)
  case Nil
  then show ?case by auto
next
  case (Cons p ps)
  obtain buf' cs' where
    pump: "pump take_frame (read_buffer ch) (incoming ch) = Some (Inr p, buf', map Chunk cs' @ evs)"
    and rest: "buf' @ concat cs' = concat (map frame ps) @ rest" and ne: "[] \<notin> set cs'"
    using wire.pump_delivers [of p "read_buffer ch" cs "concat (map frame ps) @ rest" evs] Cons.prems
    by auto
  let ?ch = "ch\<lparr>read_buffer := buf', incoming := map Chunk cs' @ evs\<rparr>"
  have "receive ch = Some (Inr p, ?ch)"
    by (simp add: receive_def pump)
  moreover obtain ch'' cs'' where "receive_n (length ps) ?ch = Some (ps, ch'')"
    and "incoming ch'' = map Chunk cs'' @ evs" and "read_buffer ch'' @ concat cs'' = rest"
    and "outgoing ch'' = outgoing ch" and "[] \<notin> set cs''"
    using Cons.IH [of cs' ?ch] Cons.prems(1) rest ne by auto
  ultimately show ?case by auto
qed

section \<open>Properties\<close>

text \<open>C15. Messages arrive whole, unchanged and in order: whatever non-empty chunks the transport cuts
  the sender's bytes into, receiving as many times as messages were sent returns exactly them, and
  leaves nothing in the buffer.\<close>

theorem channel_delivers_in_order:
  assumes "\<forall>p\<in>set ps. length p \<le> u16_max"
    and "concat cs = outgoing (send_all ps (new_with_stream []))" and "[] \<notin> set cs"
  shows "\<exists>ch. receive_n (length ps) (new_with_stream (map Chunk cs)) = Some (ps, ch) \<and>
           read_buffer ch = [] \<and> incoming ch = []"
proof -
  have "concat cs = concat (map frame ps)"
    using assms(1,2) by (simp add: outgoing_send_all new_with_stream_def)
  then obtain ch cs' where "receive_n (length ps) (new_with_stream (map Chunk cs)) = Some (ps, ch)"
    and "incoming ch = map Chunk cs'" and "read_buffer ch @ concat cs' = []" and "[] \<notin> set cs'"
    using receive_n_delivers [OF assms(1,3), of "new_with_stream (map Chunk cs)" "[]" "[]"]
    by (auto simp: new_with_stream_def)
  then show ?thesis
    by (cases cs') auto
qed

theorem channel_delivers_in_order_witness:
  "\<exists>ch. receive_n 2 (new_with_stream [Chunk [0], Chunk [2, 7], Chunk [8, 0, 0]]) = Some ([[7, 8], []], ch)"
  using channel_delivers_in_order [of "[[7, 8], []]" "[[0], [2, 7], [8, 0, 0]]"]
  by (auto simp: u16_max_def send_def frame_def be_bytes_def new_with_stream_def numeral_2_eq_2)

text \<open>A stream that ends inside a message is an error, never a shortened message: the receiver
  reports \<open>ChannelClosed\<close> for every proper prefix of a frame, the empty one included.\<close>

theorem truncated_frame_is_channel_closed:
  assumes "length p \<le> u16_max" and "strict_prefix (concat cs) (frame p)" and "[] \<notin> set cs"
  shows "map_option fst (receive (new_with_stream (map Chunk cs @ [Chunk []])))
       = Some (Inl (ProtocolE ChannelClosed))"
  using wire.pump_truncated [of p "[]" cs "[]"] assms
  by (simp add: receive_def new_with_stream_def)

theorem truncated_frame_is_channel_closed_witness:
  "map_option fst (receive (new_with_stream [Chunk [0, 3], Chunk [65], Chunk []]))
     = Some (Inl (ProtocolE ChannelClosed))"
  using truncated_frame_is_channel_closed [of "[65, 66, 67]" "[[0, 3], [65]]"]
  by (simp add: u16_max_def frame_def be_bytes_def strict_prefix_def)

text \<open>Sending and receiving a typed message are inverse, provided the codec is: if the
  serialised message fits in 65535 bytes it arrives equal, for every chunking; if it does not, the
  sender gets \<open>BufferOverflow\<close> with its size and not a byte is written.\<close>

theorem typed_message_roundtrip:
  assumes "\<And>q bs. to_vec q = Inr bs \<Longrightarrow> from_slice bs = Inr q" and "to_vec q = Inr json"
    and "concat cs = outgoing (snd (send_request to_vec Written q (new_with_stream [])))"
    and "[] \<notin> set cs"
  shows "if length json \<le> u16_max
    then map_option fst (receive_request from_slice (new_with_stream (map Chunk cs))) = Some (Inr q)
    else fst (send_request to_vec Written q (new_with_stream []))
           = Inl (ProtocolE (BufferOverflow (length json))) \<and> cs = []"
proof (cases "length json \<le> u16_max")
  case True
  then have "concat cs = frame json"
    using assms(2,3) by (simp add: send_request_def send_as_def send_def new_with_stream_def)
  then obtain buf' cs' where "pump take_frame [] (map Chunk cs) = Some (Inr json, buf', map Chunk cs')"
    using wire.pump_delivers [OF True, of "[]" cs "[]" "[]"] assms(4) by auto
  then show ?thesis
    using True assms(1) [OF assms(2)]
    by (simp add: receive_request_def receive_as_def receive_def new_with_stream_def)
next
  case False
  then have "concat cs = []"
    using assms(2,3) by (simp add: send_request_def send_as_def send_def new_with_stream_def)
  then have "cs = []"
    using assms(4) by (cases cs) auto
  with False show ?thesis
    using assms(2) by (simp add: send_request_def send_as_def send_def)
qed

theorem typed_message_roundtrip_witness:
  "map_option fst (receive_request (\<lambda>bs. if bs = [1] then Inr True else Inl ''bad'')
     (new_with_stream [Chunk [0, 1, 1]])) = Some (Inr True)"
proof -
  let ?to = "\<lambda>q. if q then Inr [1] else Inl ''no'' :: string + bytes"
  let ?from = "\<lambda>bs :: bytes. if bs = [1] then Inr True else Inl ''bad'' :: string + bool"
  have codec: "?from bs = Inr q" if "?to q = Inr bs" for q bs
    using that by (auto split: if_splits)
  have "concat [[0, 1, 1]] = outgoing (snd (send_request ?to Written True (new_with_stream [])))"
    by (simp add: send_request_def send_as_def send_def frame_def be_bytes_def new_with_stream_def
        u16_max_def)
  from typed_message_roundtrip [of ?to ?from, OF codec _ this] show ?thesis
    by (simp add: u16_max_def)
qed

end
