(* ===== verification/Clipboard_Browser.thy ===== *)
theory Clipboard_Browser
  imports Errors
begin

text \<open>
  \<open>crates/core/src/clipboard.rs\<close> and \<open>browser.rs\<close>: the process-wide clipboard text and the check of a
  URL before it is opened (opening itself is a stub in the source that always succeeds). The lock of
  the clipboard is poisoned if a thread panicked while writing it. \<open>Url::parse\<close> of the \<open>url\<close> crate is
  the argument \<open>parse\<close>, which yields the scheme.
\<close>

section \<open>Clipboard\<close>

record clipboard =
  clip_storage :: string
  clip_poisoned :: "string option"

definition clipboard_init :: clipboard where
  "clipboard_init = \<lparr>clip_storage = [], clip_poisoned = None\<rparr>"

definition get_clipboard :: "clipboard \<Rightarrow> yuha_error + string" where
  "get_clipboard cb =
     (case clip_poisoned cb of
        Some e \<Rightarrow> Inl (ClipboardE (LockFailed (''Read lock poisoned: '' @ e)))
      | None \<Rightarrow> Inr (clip_storage cb))"

definition set_clipboard :: "string \<Rightarrow> clipboard \<Rightarrow> (yuha_error + unit) \<times> clipboard" where
  "set_clipboard content cb =
     (case clip_poisoned cb of
        Some e \<Rightarrow> (Inl (ClipboardE (LockFailed (''Write lock poisoned: '' @ e))), cb)
      | None \<Rightarrow> (Inr (), cb\<lparr>clip_storage := content\<rparr>))"

definition clear_clipboard :: "clipboard \<Rightarrow> (yuha_error + unit) \<times> clipboard" where
  "clear_clipboard cb = set_clipboard [] cb"

definition is_clipboard_empty :: "clipboard \<Rightarrow> yuha_error + bool" where
  "is_clipboard_empty cb = try_bind (get_clipboard cb) (\<lambda>content. Inr (content = []))"

section \<open>Browser\<close>

definition supported_schemes :: "string list" where
  "supported_schemes = [''http'', ''https'', ''file'', ''ftp'']"

definition validate_url :: "(string \<Rightarrow> string + string) \<Rightarrow> string \<Rightarrow> yuha_error + unit" where
  "validate_url parse url =
     (case parse url of
        Inr scheme \<Rightarrow>
          if scheme \<in> set supported_schemes then Inr () else Inl (BrowserE (InvalidUrl url))
      | Inl _ \<Rightarrow> Inl (BrowserE (InvalidUrl url)))"

definition open_url :: "(string \<Rightarrow> string + string) \<Rightarrow> string \<Rightarrow> yuha_error + unit" where
  "open_url parse url = try_bind (validate_url parse url) (\<lambda>_. Inr ())"

definition open_urls :: "(string \<Rightarrow> string + string) \<Rightarrow> string list \<Rightarrow> yuha_error + (yuha_error + unit) list" where
  "open_urls parse urls = Inr (map (open_url parse) urls)"

section \<open>Lemmas\<close>

lemma get_after_set:
  "fst (set_clipboard s cb) = Inr () \<Longrightarrow> get_clipboard (snd (set_clipboard s cb)) = Inr s"
  by (simp add: set_clipboard_def get_clipboard_def split: option.splits)

lemma open_url_iff:
  "is_ok (open_url parse url) \<longleftrightarrow> (\<exists>s\<in>set supported_schemes. parse url = Inr s)"
  by (auto simp: open_url_def validate_url_def is_ok_def try_bind_def split: sum.splits)

end
