(* ===== verification/Remote_Server.thy ===== *)
theory Remote_Server
  imports Protocol Channel Clipboard_Browser
begin

text \<open>
  \<open>crates/remote/src/main.rs\<close>: the server that runs on the remote host. It answers the client's
  requests and, for every forwarded port, relays the connections made to that port.

  The requests run one at a time, but the listeners and the relays are tasks of their own. Their code
  is split where it awaits, and each piece is one atomic step: the guards of the shared maps are held
  for no longer. A relay is described by its phase, by the queue of data the client sent it, and by
  what it has written to its two sockets; \<open>io_result\<close> is what a \<open>read\<close> yields.
\<close>

section \<open>State\<close>

datatype phase =
    Notifying   \<comment> \<open>spawned, the client has not been told yet\<close>
  | Dialing     \<comment> \<open>connecting to the target\<close>
  | Relaying    \<comment> \<open>in the loop of \<open>handle_connection\<close>\<close>
  | Holding bytes  \<comment> \<open>the data went to the connecting peer and wait for the lock of the buffer\<close>
  | Leaving     \<comment> \<open>left the loop, still in the map\<close>
  | Reporting   \<comment> \<open>out of the map, the close has not been reported\<close>
  | Finished

record connection =
  cn_port :: u16
  cn_phase :: phase
  cn_queue :: "bytes list"
  cn_to_target :: bytes
  cn_to_client :: bytes

record remote =
  rs_buffer :: response_buffer
  active_connections :: "(u32, unit) hashmap"
  next_connection_id :: u32
  listening :: "u16 list"
  relays :: "u32 \<Rightarrow> connection option"
  rs_clipboard :: clipboard

definition remote_new :: "clipboard \<Rightarrow> remote" where
  "remote_new cb =
     \<lparr>rs_buffer = rb_new, active_connections = [], next_connection_id = 1, listening = [],
      relays = (\<lambda>_. None), rs_clipboard = cb\<rparr>"

section \<open>Tasks\<close>

text \<open>
  A listener accepts a connection: it takes the next id and spawns a relay. When accepting fails the
  listener is dropped.
\<close>

definition listener_fails :: "u16 \<Rightarrow> remote \<Rightarrow> remote" where
  "listener_fails port r = r\<lparr>listening := remove1 port (listening r)\<rparr>"

definition accept_connection :: "u16 \<Rightarrow> remote \<Rightarrow> remote" where
  "accept_connection port r =
     (let connection_id = next_connection_id r
      in r\<lparr>next_connection_id := connection_id + 1,
           relays := (relays r)(connection_id \<mapsto>
             \<lparr>cn_port = port, cn_phase = Notifying, cn_queue = [], cn_to_target = [], cn_to_client = []\<rparr>)\<rparr>)"

datatype io_result = Eof | Got bytes | Fault string

datatype relay_event =
    NotifyClient
  | DialOk
  | DialFailed string
  | ClientRead io_result write_outcome
  | TargetRead io_result write_outcome
  | BufferData
  | QueueRecv write_outcome
  | LeaveMap
  | ReportClosed

definition written :: "write_outcome \<Rightarrow> bytes \<Rightarrow> bytes" where
  "written w data = (case w of Written \<Rightarrow> data | WriteFault _ n \<Rightarrow> take n data)"

definition after_write :: "write_outcome \<Rightarrow> phase" where
  "after_write w = (case w of Written \<Rightarrow> Relaying | WriteFault _ _ \<Rightarrow> Leaving)"

definition set_relay :: "u32 \<Rightarrow> connection \<Rightarrow> remote \<Rightarrow> remote" where
  "set_relay i c r = r\<lparr>relays := (relays r)(i \<mapsto> c)\<rparr>"

text \<open>
  One step of the relay \<open>i\<close>; \<open>None\<close> when the relay is not at the point of the event. The receiving
  end of the queue yields \<open>None\<close>, which ends the loop, once it is empty and the sender is gone from
  the map.
\<close>

definition relay_step :: "relay_event \<Rightarrow> u32 \<Rightarrow> remote \<Rightarrow> remote option" where
  "relay_step ev i r =
     (case relays r i of
        None \<Rightarrow> None
      | Some c \<Rightarrow>
          (case (cn_phase c, ev) of
             (Notifying, NotifyClient) \<Rightarrow>
               Some (set_relay i (c\<lparr>cn_phase := Dialing\<rparr>)
                 (r\<lparr>rs_buffer := add_new_connection (rs_buffer r) i (cn_port c)\<rparr>))
           | (Dialing, DialOk) \<Rightarrow>
               Some (set_relay i (c\<lparr>cn_phase := Relaying\<rparr>)
                 (r\<lparr>active_connections := hm_insert i () (active_connections r)\<rparr>))
           | (Dialing, DialFailed e) \<Rightarrow>
               Some (set_relay i (c\<lparr>cn_phase := Finished\<rparr>)
                 (r\<lparr>rs_buffer := add_close_connection (rs_buffer r) i\<rparr>))
           | (Relaying, ClientRead res w) \<Rightarrow>
               (case res of
                  Got data \<Rightarrow>
                    Some (set_relay i (c\<lparr>cn_phase := after_write w,
                                         cn_to_target := cn_to_target c @ written w data\<rparr>) r)
                | _ \<Rightarrow> Some (set_relay i (c\<lparr>cn_phase := Leaving\<rparr>) r))
           | (Relaying, TargetRead res w) \<Rightarrow>
               (case res of
                  Got data \<Rightarrow>
                    Some (set_relay i (c\<lparr>cn_phase := (if w = Written then Holding data else Leaving),
                                         cn_to_client := cn_to_client c @ written w data\<rparr>) r)
                | _ \<Rightarrow> Some (set_relay i (c\<lparr>cn_phase := Leaving\<rparr>) r))
           | (Holding data, BufferData) \<Rightarrow>
               Some (set_relay i (c\<lparr>cn_phase := Relaying\<rparr>)
                 (r\<lparr>rs_buffer := add_port_forward_data (rs_buffer r) i data\<rparr>))
           | (Relaying, QueueRecv w) \<Rightarrow>
               (case cn_queue c of
                  data # rest \<Rightarrow>
                    Some (set_relay i (c\<lparr>cn_phase := after_write w, cn_queue := rest,
                                         cn_to_target := cn_to_target c @ written w data\<rparr>) r)
                | [] \<Rightarrow>
                    if hm_contains (active_connections r) i then None
                    else Some (set_relay i (c\<lparr>cn_phase := Leaving\<rparr>) r))
           | (Leaving, LeaveMap) \<Rightarrow>
               Some (set_relay i (c\<lparr>cn_phase := Reporting\<rparr>)
                 (r\<lparr>active_connections := hm_remove i (active_connections r)\<rparr>))
           | (Reporting, ReportClosed) \<Rightarrow>
               Some (set_relay i (c\<lparr>cn_phase := Finished\<rparr>)
                 (r\<lparr>rs_buffer := add_close_connection (rs_buffer r) i\<rparr>))
           | _ \<Rightarrow> None))"

section \<open>Requests\<close>

text \<open>\<open>bind\<close> is the outcome of binding the listener.\<close>

definition start_port_forward ::
    "(u16 \<Rightarrow> string option) \<Rightarrow> u16 \<Rightarrow> string \<Rightarrow> u16 \<Rightarrow> remote \<Rightarrow> protocol_response \<times> remote" where
  "start_port_forward bind local_port remote_host remote_port r =
     (case bind local_port of
        None \<Rightarrow> (Success, r\<lparr>listening := local_port # listening r\<rparr>)
      | Some e \<Rightarrow>
          (Error (''Failed to bind to 0.0.0.0:'' @ show_nat (unat local_port) @ '': '' @ e), r))"

definition stop_port_forward :: "u16 \<Rightarrow> remote \<Rightarrow> protocol_response \<times> remote" where
  "stop_port_forward local_port r =
     (let to_remove = hm_keys (active_connections r)
      in (Success,
          fold (\<lambda>i r. r\<lparr>active_connections := hm_remove i (active_connections r),
                        rs_buffer := add_close_connection (rs_buffer r) i\<rparr>)
            to_remove r))"

text \<open>
  Sending to the queue of a relay fails only when its receiver is gone; a relay removes its sender
  from the map before it drops the receiver, so an entry of the map has one.
\<close>

definition forward_data :: "u32 \<Rightarrow> bytes \<Rightarrow> remote \<Rightarrow> protocol_response \<times> remote" where
  "forward_data i data r =
     (if hm_contains (active_connections r) i
      then (case relays r i of
              Some c \<Rightarrow> (Success, set_relay i (c\<lparr>cn_queue := cn_queue c @ [data]\<rparr>) r)
            | None \<Rightarrow> (Error ''Failed to send data: channel closed'', r))
      else (Success, r))"

definition handle_get_clipboard :: "remote \<Rightarrow> protocol_response \<times> remote" where
  "handle_get_clipboard r =
     (case get_clipboard (rs_clipboard r) of
        Inr content \<Rightarrow>
          (let (items, b) = rb_take_items (add_clipboard_content (rs_buffer r) content)
           in (Data items, r\<lparr>rs_buffer := b\<rparr>))
      | Inl e \<Rightarrow> (Error (''Failed to get clipboard: '' @ show_error e), r))"

definition handle_set_clipboard :: "string \<Rightarrow> remote \<Rightarrow> protocol_response \<times> remote" where
  "handle_set_clipboard content r =
     (case set_clipboard content (rs_clipboard r) of
        (Inr _, cb) \<Rightarrow> (Success, r\<lparr>rs_clipboard := cb\<rparr>)
      | (Inl e, cb) \<Rightarrow> (Error (''Failed to set clipboard: '' @ show_error e), r\<lparr>rs_clipboard := cb\<rparr>))"

definition handle_open_browser ::
    "(string \<Rightarrow> string + string) \<Rightarrow> string \<Rightarrow> remote \<Rightarrow> protocol_response \<times> remote" where
  "handle_open_browser parse url r =
     (case open_url parse url of
        Inr _ \<Rightarrow> (Success, r)
      | Inl e \<Rightarrow> (Error (''Failed to open browser: '' @ show_error e), r))"

text \<open>
  A poll of an empty buffer waits. A turn of the wait looks at the clock, then at the buffer, then sleeps; it is
  given by the reading of the clock and by what the other tasks do to the server from the look at the buffer to
  the next turn. The wait returns nothing, so its result is the server it finds at the end; \<open>None\<close> means that it
  is still waiting. \<open>poll_data\<close> has as its argument \<open>meanwhile\<close> what happens to the server from its first look at
  the buffer to its second, the wait included.
\<close>

definition long_poll_timeout :: duration where
  "long_poll_timeout = from_secs 5"

definition poll_interval :: duration where
  "poll_interval = from_millis 10"

fun wait_for_data :: "time \<Rightarrow> (time \<times> (remote \<Rightarrow> remote)) list \<Rightarrow> remote \<Rightarrow> remote option" where
  "wait_for_data deadline [] r = None"
| "wait_for_data deadline ((now, others) # turns) r =
     (if \<not> now < deadline then Some r
      else if rb_has_data (rs_buffer r) then Some r
      else wait_for_data deadline turns (others r))"

definition poll_data :: "(remote \<Rightarrow> remote) \<Rightarrow> remote \<Rightarrow> protocol_response \<times> remote" where
  "poll_data meanwhile r =
     (let (items, b) = rb_take_items (rs_buffer r);
          r1 = r\<lparr>rs_buffer := b\<rparr>
      in if items = []
         then (let r2 = meanwhile r1;
                   (items2, b2) = rb_take_items (rs_buffer r2)
               in (Data items2, r2\<lparr>rs_buffer := b2\<rparr>))
         else (Data items, r1))"

record environment =
  env_bind :: "u16 \<Rightarrow> string option"
  env_parse_url :: "string \<Rightarrow> string + string"

fun remote_handle_request ::
    "environment \<Rightarrow> (remote \<Rightarrow> remote) \<Rightarrow> protocol_request \<Rightarrow> remote \<Rightarrow> protocol_response \<times> remote" where
  "remote_handle_request env meanwhile PollData r = poll_data meanwhile r"
| "remote_handle_request env meanwhile (StartPortForward lp host rp) r =
     start_port_forward (env_bind env) lp host rp r"
| "remote_handle_request env meanwhile (StopPortForward lp) r = stop_port_forward lp r"
| "remote_handle_request env meanwhile (PortForwardData i data) r = forward_data i data r"
| "remote_handle_request env meanwhile GetClipboard r = handle_get_clipboard r"
| "remote_handle_request env meanwhile (SetClipboard content) r = handle_set_clipboard content r"
| "remote_handle_request env meanwhile (OpenBrowser url) r = handle_open_browser (env_parse_url env) url r"

section \<open>The server loop\<close>

text \<open>
  One turn of \<open>run\<close>: the request as \<open>receive_request\<close> delivers it, and how the write of the response
  fares. The result tells whether the loop goes on.
\<close>

definition serve_turn ::
    "environment \<Rightarrow> (protocol_response \<Rightarrow> string + bytes) \<Rightarrow> yuha_error + protocol_request
     \<Rightarrow> (remote \<Rightarrow> remote) \<Rightarrow> write_outcome \<Rightarrow> remote \<times> channel \<Rightarrow> bool \<times> remote \<times> channel" where
  "serve_turn env to_vec request meanwhile w st =
     (let (r, ch) = st
      in case request of
           Inl _ \<Rightarrow> (False, r, ch)
         | Inr req \<Rightarrow>
             (let (response, r1) = remote_handle_request env meanwhile req r
              in case send_response to_vec w response ch of
                   (Inl _, ch1) \<Rightarrow> (False, r1, ch1)
                 | (Inr _, ch1) \<Rightarrow> (True, r1, ch1)))"

section \<open>Runs\<close>

text \<open>Steps of the tasks, without the client. The clipboard is shared with the IPC server.\<close>

inductive task_step :: "remote \<Rightarrow> remote \<Rightarrow> bool" where
  ts_accept: "port \<in> set (listening r) \<Longrightarrow> relays r (next_connection_id r) = None \<Longrightarrow>
    task_step r (accept_connection port r)"
| ts_fail: "port \<in> set (listening r) \<Longrightarrow> task_step r (listener_fails port r)"
| ts_relay: "relay_step ev i r = Some r' \<Longrightarrow> task_step r r'"
| ts_clipboard: "task_step r (r\<lparr>rs_clipboard := cb\<rparr>)"

definition items_of :: "protocol_response \<Rightarrow> response_item list" where
  "items_of resp = (case resp of Data items \<Rightarrow> items | _ \<Rightarrow> [])"

text \<open>
  \<open>remote_run stops r out\<close>: the server can be in state \<open>r\<close> after it has handed out the items \<open>out\<close>.
  While a poll waits, only tasks make steps. Without \<open>stops\<close> the client never sends
  \<open>StopPortForward\<close>. Fewer than \<open>2 ^ 32\<close> connections are accepted, so an id is not used twice.
\<close>

inductive remote_run :: "bool \<Rightarrow> remote \<Rightarrow> response_item list \<Rightarrow> bool" for stops where
  rr_new: "remote_run stops (remote_new cb) []"
| rr_task: "remote_run stops r out \<Longrightarrow> task_step r r' \<Longrightarrow> remote_run stops r' out"
| rr_poll: "remote_run stops r out \<Longrightarrow> task_step\<^sup>*\<^sup>* r (meanwhile r) \<Longrightarrow>
    poll_data meanwhile r = (resp, r') \<Longrightarrow> remote_run stops r' (out @ items_of resp)"
| rr_request: "remote_run stops r out \<Longrightarrow> req \<noteq> PollData \<Longrightarrow>
    (\<And>lp. req = StopPortForward lp \<Longrightarrow> stops) \<Longrightarrow>
    remote_handle_request env meanwhile req r = (resp, r') \<Longrightarrow>
    remote_run stops r' (out @ items_of resp)"

fun item_connection :: "response_item \<Rightarrow> u32 option" where
  "item_connection (PortForwardItem i _) = Some i"
| "item_connection (NewConnection i _) = Some i"
| "item_connection (CloseConnection i) = Some i"
| "item_connection (ClipboardContent _) = None"

definition about :: "u32 \<Rightarrow> response_item list \<Rightarrow> response_item list" where
  "about i items = filter (\<lambda>x. item_connection x = Some i) items"

lemma about_append [simp]: "about i (xs @ ys) = about i xs @ about i ys"
  by (simp add: about_def)

lemma about_simps [simp]:
  "about i [] = []"
  "about i [x] = (if item_connection x = Some i then [x] else [])"
  by (simp_all add: about_def)

definition history :: "remote \<Rightarrow> response_item list \<Rightarrow> response_item list" where
  "history r out = out @ rb_items (rs_buffer r)"

lemma rb_items_add [simp]:
  "rb_items (add_new_connection b i port) = rb_items b @ [NewConnection i port]"
  "rb_items (add_close_connection b i) = rb_items b @ [CloseConnection i]"
  "rb_items (add_port_forward_data b i d) = rb_items b @ [PortForwardItem i d]"
  "rb_items (add_clipboard_content b s) = rb_items b @ [ClipboardContent s]"
  by (simp_all add: rb_defs)

section \<open>What the client learns about a connection\<close>

text \<open>The items about a connection in each phase of its relay, when the client never stops a forward.\<close>

definition relay_log :: "u32 \<Rightarrow> connection \<Rightarrow> response_item list \<Rightarrow> bool" where
  "relay_log i c xs \<longleftrightarrow>
     (case cn_phase c of
        Notifying \<Rightarrow> xs = [] \<and> cn_to_client c = []
      | Dialing \<Rightarrow> xs = [NewConnection i (cn_port c)] \<and> cn_to_client c = []
      | Relaying \<Rightarrow> \<exists>ds. xs = NewConnection i (cn_port c) # map (PortForwardItem i) ds \<and>
          concat ds = cn_to_client c
      | Holding d \<Rightarrow> \<exists>ds. xs = NewConnection i (cn_port c) # map (PortForwardItem i) ds \<and>
          concat ds @ d = cn_to_client c
      | Finished \<Rightarrow> \<exists>ds. xs = NewConnection i (cn_port c) # map (PortForwardItem i) ds @ [CloseConnection i] \<and>
          prefix (concat ds) (cn_to_client c)
      | _ \<Rightarrow> \<exists>ds. xs = NewConnection i (cn_port c) # map (PortForwardItem i) ds \<and>
          prefix (concat ds) (cn_to_client c))"

definition logs_ok :: "remote \<Rightarrow> response_item list \<Rightarrow> bool" where
  "logs_ok r out \<longleftrightarrow>
     (\<forall>i. case relays r i of None \<Rightarrow> about i (history r out) = []
        | Some c \<Rightarrow> relay_log i c (about i (history r out)))"

lemma logs_okD:
  "logs_ok r out \<Longrightarrow> relays r i = Some c \<Longrightarrow> relay_log i c (about i (history r out))"
  "logs_ok r out \<Longrightarrow> relays r i = None \<Longrightarrow> about i (history r out) = []"
  unfolding logs_ok_def by (metis option.simps(5)) (metis option.simps(4))

text \<open>A step that changes one relay and appends items about it only.\<close>

lemma logs_ok_step:
  assumes "logs_ok r out" and "relays r' = (relays r)(i \<mapsto> c)"
    and "rb_items (rs_buffer r') = rb_items (rs_buffer r) @ xs" and "\<And>x. x \<in> set xs \<Longrightarrow> item_connection x = Some i"
    and "relay_log i c (about i (history r out) @ xs)"
  shows "logs_ok r' out"
proof -
  have "about i xs = xs" and "j \<noteq> i \<Longrightarrow> about j xs = []" for j
    using assms(4) by (auto simp: about_def filter_id_conv filter_empty_conv)
  then have "about j (history r' out) = about j (history r out) @ (if j = i then xs else [])" for j
    using assms(3) by (simp add: history_def)
  then have "case relays r' j of None \<Rightarrow> about j (history r' out) = []
      | Some c \<Rightarrow> relay_log j c (about j (history r' out))" for j
    using assms(2,5) spec [OF assms(1) [unfolded logs_ok_def], of j]
    by (cases "j = i") (simp_all split: option.splits)
  then show ?thesis
    unfolding logs_ok_def by blast
qed

lemma logs_ok_relay:
  assumes ok: "logs_ok r out" and step: "relay_step ev i r = Some r'"
  shows "logs_ok r' out"
proof -
  obtain c where c: "relays r i = Some c"
    using step by (auto simp: relay_step_def split: option.splits)
  have log: "relay_log i c (about i (history r out))"
    using logs_okD(1) [OF ok c] .
  show ?thesis
  proof (cases ev)
    case NotifyClient
    with step c log show ?thesis
      by (intro logs_ok_step [OF ok, of r' i "c\<lparr>cn_phase := Dialing\<rparr>" "[NewConnection i (cn_port c)]"])
        (auto simp: relay_step_def set_relay_def relay_log_def split: phase.splits)
  next
    case DialOk
    with step c log show ?thesis
      by (intro logs_ok_step [OF ok, of r' i "c\<lparr>cn_phase := Relaying\<rparr>" "[]"])
        (auto simp: relay_step_def set_relay_def relay_log_def split: phase.splits)
  next
    case (DialFailed e)
    with step c log show ?thesis
      by (intro logs_ok_step [OF ok, of r' i "c\<lparr>cn_phase := Finished\<rparr>" "[CloseConnection i]"])
        (auto simp: relay_step_def set_relay_def relay_log_def split: phase.splits intro!: exI [of _ "[]"])
  next
    case (ClientRead res w)
    with step c log show ?thesis
      by (intro logs_ok_step [OF ok, of r' i "the (relays r' i)" "[]"])
        (auto simp: relay_step_def set_relay_def relay_log_def after_write_def
          split: phase.splits io_result.splits write_outcome.splits)
  next
    case (TargetRead res w)
    with step c log show ?thesis
      by (intro logs_ok_step [OF ok, of r' i "the (relays r' i)" "[]"])
        (auto simp: relay_step_def set_relay_def relay_log_def written_def
          split: phase.splits io_result.splits write_outcome.splits if_splits)
  next
    case BufferData
    with step c obtain data where ph: "cn_phase c = Holding data"
      by (auto simp: relay_step_def split: phase.splits)
    then obtain ds where ds: "about i (history r out) = NewConnection i (cn_port c) # map (PortForwardItem i) ds"
      "concat ds @ data = cn_to_client c"
      using log by (auto simp: relay_log_def)
    show ?thesis
      by (rule logs_ok_step [OF ok, of r' i "c\<lparr>cn_phase := Relaying\<rparr>" "[PortForwardItem i data]"])
        (use step c BufferData ph ds in \<open>auto simp: relay_step_def set_relay_def relay_log_def
          intro!: exI [of _ "ds @ [data]"]\<close>)
  next
    case (QueueRecv w)
    with step c log show ?thesis
      by (intro logs_ok_step [OF ok, of r' i "the (relays r' i)" "[]"])
        (auto simp: relay_step_def set_relay_def relay_log_def after_write_def
          split: phase.splits list.splits write_outcome.splits if_splits)
  next
    case LeaveMap
    with step c log show ?thesis
      by (intro logs_ok_step [OF ok, of r' i "c\<lparr>cn_phase := Reporting\<rparr>" "[]"])
        (auto simp: relay_step_def set_relay_def relay_log_def split: phase.splits)
  next
    case ReportClosed
    with step c log show ?thesis
      by (intro logs_ok_step [OF ok, of r' i "c\<lparr>cn_phase := Finished\<rparr>" "[CloseConnection i]"])
        (auto simp: relay_step_def set_relay_def relay_log_def split: phase.splits)
  qed
qed

text \<open>A step that changes neither a relay nor the buffer.\<close>

lemma logs_ok_same:
  assumes "logs_ok r out" and "relays r' = relays r" and "rs_buffer r' = rs_buffer r"
  shows "logs_ok r' out"
proof -
  have same: "history r' out = history r out"
    using assms(3) by (simp add: history_def)
  show ?thesis
    using assms(1) unfolding logs_ok_def same assms(2) .
qed

lemma logs_ok_task: "task_step r r' \<Longrightarrow> logs_ok r out \<Longrightarrow> logs_ok r' out"
proof (induction rule: task_step.induct)
  case (ts_accept port r)
  let ?c = "\<lparr>cn_port = port, cn_phase = Notifying, cn_queue = [], cn_to_target = [], cn_to_client = []\<rparr>"
  have "about (next_connection_id r) (history r out) = []"
    using logs_okD(2) [OF ts_accept.prems ts_accept.hyps(2)] .
  then have "relay_log (next_connection_id r) ?c (about (next_connection_id r) (history r out) @ [])"
    by (simp add: relay_log_def)
  then show ?case
    by (rule logs_ok_step [OF ts_accept.prems, rotated 3]) (simp_all add: accept_connection_def Let_def)
next
  case (ts_fail port r)
  then show ?case
    by (auto elim: logs_ok_same simp: listener_fails_def)
next
  case (ts_relay ev i r r')
  then show ?case
    using logs_ok_relay by blast
next
  case (ts_clipboard r cb)
  then show ?case
    by (auto elim: logs_ok_same)
qed

lemma logs_ok_tasks: "task_step\<^sup>*\<^sup>* r r' \<Longrightarrow> logs_ok r out \<Longrightarrow> logs_ok r' out"
  by (induction rule: rtranclp_induct) (auto intro: logs_ok_task)

lemma relay_log_cong:
  "cn_phase a = cn_phase b \<Longrightarrow> cn_port a = cn_port b \<Longrightarrow> cn_to_client a = cn_to_client b \<Longrightarrow>
   relay_log i a xs = relay_log i b xs"
  by (simp only: relay_log_def)

lemma relay_log_cases:
  assumes "relay_log i c xs"
  obtains ds where "prefix (concat ds) (cn_to_client c)"
    and "cn_phase c = Notifying \<and> xs = [] \<or>
      cn_phase c \<noteq> Notifying \<and> xs = NewConnection i (cn_port c) # map (PortForwardItem i) ds @
        (if cn_phase c = Finished then [CloseConnection i] else [])"
proof (cases "cn_phase c")
  case Relaying
  then obtain ds where "xs = NewConnection i (cn_port c) # map (PortForwardItem i) ds"
    and "concat ds = cn_to_client c"
    using assms by (auto simp: relay_log_def)
  with Relaying that [of ds] show ?thesis by simp
next
  case (Holding d)
  then obtain ds where "xs = NewConnection i (cn_port c) # map (PortForwardItem i) ds"
    and "concat ds @ d = cn_to_client c"
    using assms by (auto simp: relay_log_def)
  with Holding that [of ds] show ?thesis by (metis append.right_neutral phase.distinct prefixI)
qed (use assms that [of "[]"] that in \<open>auto simp: relay_log_def\<close>)

lemma logs_ok_cong:
  "logs_ok r out \<Longrightarrow> (\<And>i. map_option (\<lambda>c. (cn_phase c, cn_port c, cn_to_client c)) (relays r' i) =
     map_option (\<lambda>c. (cn_phase c, cn_port c, cn_to_client c)) (relays r i)) \<Longrightarrow>
   (\<And>i. about i (history r' out') = about i (history r out)) \<Longrightarrow> logs_ok r' out'"
  unfolding logs_ok_def
proof (intro allI)
  fix i
  assume ok: "\<forall>i. case relays r i of None \<Rightarrow> about i (history r out) = []
      | Some c \<Rightarrow> relay_log i c (about i (history r out))"
    and same: "\<And>i. map_option (\<lambda>c. (cn_phase c, cn_port c, cn_to_client c)) (relays r' i) =
      map_option (\<lambda>c. (cn_phase c, cn_port c, cn_to_client c)) (relays r i)"
    and log: "\<And>i. about i (history r' out') = about i (history r out)"
  have "case relays r i of None \<Rightarrow> about i (history r out) = []
      | Some c \<Rightarrow> relay_log i c (about i (history r out))"
    using ok by blast
  then show "case relays r' i of None \<Rightarrow> about i (history r' out') = []
      | Some c \<Rightarrow> relay_log i c (about i (history r' out'))"
    using same [of i] log [of i]
      relay_log_cong [of "the (relays r' i)" "the (relays r i)" i "about i (history r out)"]
    by (cases "relays r i"; cases "relays r' i") simp_all
qed

text \<open>Requests leave what was said about a connection as it is, unless they stop a forward.\<close>

lemma history_taken:
  "fst (rb_take_items b) = rb_items b" "rb_items (snd (rb_take_items b)) = []"
  by (simp_all add: rb_take_items_def)

lemma logs_ok_request:
  assumes ok: "logs_ok r out" and req: "req \<noteq> PollData" "\<And>lp. req \<noteq> StopPortForward lp"
    and h: "remote_handle_request env meanwhile req r = (resp, r')"
  shows "logs_ok r' (out @ items_of resp)"
proof (rule logs_ok_cong [OF ok])
  show "map_option (\<lambda>c. (cn_phase c, cn_port c, cn_to_client c)) (relays r' i) =
      map_option (\<lambda>c. (cn_phase c, cn_port c, cn_to_client c)) (relays r i)" for i
    using h req by (cases req)
      (auto simp: start_port_forward_def forward_data_def set_relay_def handle_get_clipboard_def
        handle_set_clipboard_def handle_open_browser_def case_prod_unfold Let_def
        split: option.splits sum.splits if_splits)
  show "about i (history r' (out @ items_of resp)) = about i (history r out)" for i
    using h req by (cases req)
      (auto simp: start_port_forward_def forward_data_def set_relay_def handle_get_clipboard_def
        handle_set_clipboard_def handle_open_browser_def case_prod_unfold history_def items_of_def history_taken Let_def
        split: option.splits sum.splits if_splits)
qed

lemma buffer_emptied:
  "rb_items (rs_buffer r) = [] \<Longrightarrow> r\<lparr>rs_buffer := (rs_buffer r)\<lparr>rb_items := []\<rparr>\<rparr> = r"
  by (cases r; cases "rs_buffer r") simp

lemma poll_data_eq:
  "poll_data meanwhile r =
   (let r1 = (if rb_items (rs_buffer r) = [] then meanwhile r else r)
    in (Data (rb_items (rs_buffer r1)), r1\<lparr>rs_buffer := (rs_buffer r1)\<lparr>rb_items := []\<rparr>\<rparr>))"
proof (cases "rb_items (rs_buffer r) = []")
  case True
  have "meanwhile (r\<lparr>rs_buffer := (rs_buffer r)\<lparr>rb_items := []\<rparr>\<rparr>) = meanwhile r"
    by (rule arg_cong [OF buffer_emptied [OF True]])
  with True show ?thesis
    by (simp add: poll_data_def rb_take_items_def Let_def)
qed (simp add: poll_data_def rb_take_items_def Let_def)

lemma logs_ok_take:
  "logs_ok r out \<Longrightarrow>
   logs_ok (r\<lparr>rs_buffer := (rs_buffer r)\<lparr>rb_items := []\<rparr>\<rparr>) (out @ rb_items (rs_buffer r))"
  by (rule logs_ok_cong) (simp_all add: history_def)

lemma remote_run_logs: "remote_run stops r out \<Longrightarrow> \<not> stops \<Longrightarrow> logs_ok r out"
proof (induction rule: remote_run.induct)
  case (rr_new cb)
  show ?case by (simp add: logs_ok_def remote_new_def history_def rb_new_def)
next
  case (rr_task r out r')
  then show ?case using logs_ok_task by blast
next
  case (rr_poll r out meanwhile resp r')
  let ?r1 = "if rb_items (rs_buffer r) = [] then meanwhile r else r"
  have "logs_ok ?r1 out"
    using rr_poll logs_ok_tasks by simp
  then show ?case
    using logs_ok_take [of ?r1 out] rr_poll.hyps(3) by (auto simp: poll_data_eq Let_def items_of_def)
next
  case (rr_request r out req env meanwhile resp r')
  then show ?case using logs_ok_request by blast
qed

section \<open>Stopping a forward\<close>

definition close_one :: "u32 \<Rightarrow> remote \<Rightarrow> remote" where
  "close_one i r = r\<lparr>active_connections := hm_remove i (active_connections r),
     rs_buffer := add_close_connection (rs_buffer r) i\<rparr>"

lemma stop_port_forward_eq:
  "stop_port_forward lp r = (Success, fold close_one (hm_keys (active_connections r)) r)"
  by (simp add: stop_port_forward_def close_one_def [abs_def])

lemma close_one_simps [simp]:
  "relays (close_one i r) = relays r" "listening (close_one i r) = listening r"
  "active_connections (close_one i r) = hm_remove i (active_connections r)"
  "rb_items (rs_buffer (close_one i r)) = rb_items (rs_buffer r) @ [CloseConnection i]"
  by (simp_all add: close_one_def)

lemma close_all_simps [simp]:
  "relays (fold close_one ids r) = relays r" "listening (fold close_one ids r) = listening r"
  "rb_items (rs_buffer (fold close_one ids r)) = rb_items (rs_buffer r) @ map CloseConnection ids"
  by (induction ids arbitrary: r) simp_all

lemma close_all_active:
  "hm_get (active_connections (fold close_one ids r)) j =
   (if j \<in> set ids then None else hm_get (active_connections r) j)"
  by (induction ids arbitrary: r) auto

section \<open>Waiting for data\<close>

text \<open>The server at the start of the \<open>k\<close>th turn of a wait that has not ended before.\<close>

definition at_turn :: "(time \<times> (remote \<Rightarrow> remote)) list \<Rightarrow> nat \<Rightarrow> remote \<Rightarrow> remote" where
  "at_turn turns k r = fold snd (take k turns) r"

lemma at_turn_simps [simp]:
  "at_turn turns 0 r = r" "at_turn (t # turns) (Suc k) r = at_turn turns k (snd t r)"
  by (simp_all add: at_turn_def)

definition wait_over :: "time \<Rightarrow> (time \<times> (remote \<Rightarrow> remote)) list \<Rightarrow> nat \<Rightarrow> remote \<Rightarrow> bool" where
  "wait_over deadline turns k r \<longleftrightarrow> deadline \<le> fst (turns ! k) \<or> rb_has_data (rs_buffer (at_turn turns k r))"

text \<open>The wait ends at the first turn that meets the deadline or data.\<close>

lemma wait_for_data_first:
  assumes "n < length turns" and "deadline \<le> fst (turns ! n)"
  shows "\<exists>k\<le>n. wait_for_data deadline turns r = Some (at_turn turns k r) \<and> wait_over deadline turns k r \<and>
    (\<forall>j<k. \<not> wait_over deadline turns j r)"
  using assms
proof (induction turns arbitrary: n r)
  case (Cons t turns)
  obtain now others where t: "t = (now, others)"
    by (cases t)
  show ?case
  proof (cases "now < deadline \<and> \<not> rb_has_data (rs_buffer r)")
    case False
    then show ?thesis
      by (intro exI [of _ 0]) (auto simp: t wait_over_def)
  next
    case True
    then obtain n' where n: "n = Suc n'"
      using Cons.prems(2) by (cases n) (auto simp: t)
    then obtain k where k: "k \<le> n'" "wait_for_data deadline turns (others r) = Some (at_turn turns k (others r))"
      "wait_over deadline turns k (others r)" "\<forall>j<k. \<not> wait_over deadline turns j (others r)"
      using Cons.IH [of n' "others r"] Cons.prems by auto
    have "\<not> wait_over deadline (t # turns) j r" if "j < Suc k" for j
      using that k(4) True by (cases j) (auto simp: t wait_over_def)
    then show ?thesis
      using k(1-3) True n by (intro exI [of _ "Suc k"]) (auto simp: t wait_over_def)
  qed
qed simp

section \<open>Properties\<close>

text \<open>C16. What the client learns about a forwarded connection is in order: as long as it never stops a
  forward, then in every interleaving of listeners, relays and requests the items handed out and
  still buffered about a connection are first its announcement, then its data, then one report of
  its end, and nothing after it; the reported data are bytes the relay has delivered, in order, with
  none missing before the last.\<close>

theorem relay_reports_in_order:
  assumes "remote_run False r out" and "relays r i = Some c"
  shows "\<exists>ds. prefix (concat ds) (cn_to_client c) \<and>
    about i (out @ rb_items (rs_buffer r)) =
      (if cn_phase c = Notifying then []
       else NewConnection i (cn_port c) # map (PortForwardItem i) ds @
         (if cn_phase c = Finished then [CloseConnection i] else []))"
proof -
  have "relay_log i c (about i (out @ rb_items (rs_buffer r)))"
    using logs_okD(1) [OF remote_run_logs [OF assms(1)] assms(2)] by (simp add: history_def)
  then obtain ds where "prefix (concat ds) (cn_to_client c)"
    and "cn_phase c = Notifying \<and> about i (out @ rb_items (rs_buffer r)) = [] \<or>
      cn_phase c \<noteq> Notifying \<and> about i (out @ rb_items (rs_buffer r)) =
        NewConnection i (cn_port c) # map (PortForwardItem i) ds @
          (if cn_phase c = Finished then [CloseConnection i] else [])"
    by (rule relay_log_cases)
  then show ?thesis
    by (intro exI [of _ ds]) (elim disjE conjE; simp)
qed

text \<open>An environment in which every port can be bound and no text is a URL.\<close>

definition quiet_env :: environment where
  "quiet_env = \<lparr>env_bind = \<lambda>_. None, env_parse_url = Inl\<rparr>"

definition first_accepted :: remote where
  "first_accepted = accept_connection 80
     (snd (remote_handle_request quiet_env (\<lambda>r. r)
        (StartPortForward 80 ''h'' 8080) (remote_new clipboard_init)))"

lemma first_accepted_run: "remote_run stops first_accepted []"
proof -
  let ?r = "snd (remote_handle_request quiet_env (\<lambda>r. r)
        (StartPortForward 80 ''h'' 8080) (remote_new clipboard_init))"
  have "remote_run stops ?r ([] @ items_of Success)"
    by (rule rr_request [OF rr_new [of stops clipboard_init], where req = "StartPortForward 80 ''h'' 8080"
          and env = quiet_env and meanwhile = "\<lambda>r. r"])
      (simp_all add: start_port_forward_def quiet_env_def)
  then have "remote_run stops ?r []"
    by (simp add: items_of_def)
  then show ?thesis
    unfolding first_accepted_def
    by (rule rr_task) (rule ts_accept, simp_all add: start_port_forward_def remote_new_def quiet_env_def)
qed

theorem relay_reports_in_order_witness:
  "about 1 (rb_items (rs_buffer (the (relay_step NotifyClient 1 first_accepted)))) = [NewConnection 1 80]"
proof -
  obtain r where r: "relay_step NotifyClient 1 first_accepted = Some r"
    by (simp add: first_accepted_def start_port_forward_def remote_new_def accept_connection_def relay_step_def
        quiet_env_def Let_def)
  then have run: "remote_run False r []"
    using rr_task [OF first_accepted_run ts_relay] by blast
  have c: "relays r 1 = Some \<lparr>cn_port = 80, cn_phase = Dialing, cn_queue = [], cn_to_target = [], cn_to_client = []\<rparr>"
    and b: "rb_items (rs_buffer r) = [NewConnection 1 80]"
    using r by (auto simp: first_accepted_def start_port_forward_def remote_new_def accept_connection_def
        relay_step_def set_relay_def rb_new_def quiet_env_def Let_def)
  show ?thesis
    using relay_reports_in_order [OF run c] b by (auto simp: r)
qed

text \<open>C26. Stopping one forward closes them all: whatever port it names, the request drops the sender of every
  connection and reports every one as closed, and it closes no listener. A relay in its loop ends only later: it
  can first report data of a connection already reported closed, and when it finds its queue empty it leaves and
  reports the connection as closed again.\<close>

theorem stop_port_forward_hits_all:
  assumes "relays r i = Some c" and "cn_phase c = Relaying"
  shows "stop_port_forward lp r = stop_port_forward lp' r \<and> fst (stop_port_forward lp r) = Success \<and>
    hm_get (active_connections (snd (stop_port_forward lp r))) j = None \<and>
    rb_items (rs_buffer (snd (stop_port_forward lp r))) =
      rb_items (rs_buffer r) @ map CloseConnection (hm_keys (active_connections r)) \<and>
    listening (snd (stop_port_forward lp r)) = listening r \<and>
    (\<exists>r1 r2. relay_step (TargetRead (Got d) Written) i (snd (stop_port_forward lp r)) = Some r1 \<and>
       relay_step BufferData i r1 = Some r2 \<and>
       rb_items (rs_buffer r2) =
         rb_items (rs_buffer r) @ map CloseConnection (hm_keys (active_connections r)) @ [PortForwardItem i d] \<and>
       (cn_queue c = [] \<longrightarrow>
         (\<exists>r3 r4 r5. relay_step (QueueRecv Written) i r2 = Some r3 \<and> relay_step LeaveMap i r3 = Some r4 \<and>
            relay_step ReportClosed i r4 = Some r5 \<and> map_option cn_phase (relays r5 i) = Some Finished \<and>
            rb_items (rs_buffer r5) = rb_items (rs_buffer r2) @ [CloseConnection i])))"
proof -
  have none: "hm_get (active_connections (fold close_one (hm_keys (active_connections r)) r)) j = None" for j
    by (cases "hm_get (active_connections r) j") (auto simp: close_all_active hm_keys_in)
  then show ?thesis
    using assms
    by (simp add: stop_port_forward_eq) (simp add: relay_step_def set_relay_def Let_def)
qed

definition one_relay :: remote where
  "one_relay = (remote_new clipboard_init)
     \<lparr>active_connections := [(1, ())], listening := [80],
      relays := [1 \<mapsto> \<lparr>cn_port = 80, cn_phase = Relaying, cn_queue = [], cn_to_target = [], cn_to_client = []\<rparr>]\<rparr>"

theorem stop_port_forward_hits_all_witness:
  "rb_items (rs_buffer (snd (stop_port_forward 9999 one_relay))) = [CloseConnection 1] \<and>
   listening (snd (stop_port_forward 9999 one_relay)) = [80]"
proof -
  have relay: "relays one_relay 1 = Some
      \<lparr>cn_port = 80, cn_phase = Relaying, cn_queue = [], cn_to_target = [], cn_to_client = []\<rparr>"
    by (simp add: one_relay_def)
  have relaying: "cn_phase \<lparr>cn_port = 80, cn_phase = Relaying, cn_queue = [], cn_to_target = [], cn_to_client = []\<rparr> = Relaying"
    by simp
  have "rb_items (rs_buffer (snd (stop_port_forward 9999 one_relay))) =
      rb_items (rs_buffer one_relay) @ map CloseConnection (hm_keys (active_connections one_relay)) \<and>
    listening (snd (stop_port_forward 9999 one_relay)) = listening one_relay"
    using stop_port_forward_hits_all [OF relay relaying, of 9999 80 0 "[]"] by (elim conjE) (intro conjI; assumption)
  then show ?thesis
    by (simp add: one_relay_def remote_new_def rb_new_def hm_keys_def)
qed

text \<open>C28. A response too large for a frame ends the server: when the serialised items of a poll exceed
  65535 bytes, the loop stops, not a byte is sent, and the items are gone from the buffer.\<close>

theorem oversized_poll_loses_items:
  assumes "rb_items (rs_buffer r) \<noteq> []" and "to_vec (Data (rb_items (rs_buffer r))) = Inr json"
    and "u16_max < length json"
  shows "serve_turn env to_vec (Inr PollData) meanwhile w (r, ch) =
      (False, r\<lparr>rs_buffer := (rs_buffer r)\<lparr>rb_items := []\<rparr>\<rparr>, ch)"
  using assms
  by (simp add: serve_turn_def poll_data_eq Let_def send_response_def send_as_def send_def)

theorem oversized_poll_loses_items_witness:
  "fst (serve_turn quiet_env (\<lambda>_. Inr (replicate 70000 0)) (Inr PollData) (\<lambda>r. r) Written
     ((remote_new clipboard_init)\<lparr>rs_buffer := add_clipboard_content rb_new ''x''\<rparr>, new_with_stream [])) = False"
  using oversized_poll_loses_items [of
      "(remote_new clipboard_init)\<lparr>rs_buffer := add_clipboard_content rb_new ''x''\<rparr>"
      "\<lambda>_. Inr (replicate 70000 0)" "replicate 70000 0" quiet_env "\<lambda>r. r" Written "new_with_stream []"]
  by (simp add: u16_max_def)

text \<open>C29. A poll of an empty buffer returns. If each turn of its wait comes at least the poll interval after the
  one before, the wait ends within 501 turns: at the first one that finds data or is past the five seconds,
  whichever comes first. The answer is what the buffer holds when it is taken then, so data that arrive during
  the last sleep or right after the wait are part of it.\<close>

theorem long_poll_returns:
  assumes "\<And>k. k < length turns \<Longrightarrow> start + k * poll_interval \<le> fst (turns ! k)"
    and "501 \<le> length turns" and "rb_items (rs_buffer r) = []"
  shows "\<exists>k\<le>500. wait_for_data (start + long_poll_timeout) turns r = Some (at_turn turns k r) \<and>
    (start + long_poll_timeout \<le> fst (turns ! k) \<or> rb_has_data (rs_buffer (at_turn turns k r))) \<and>
    (\<forall>j<k. fst (turns ! j) < start + long_poll_timeout \<and> \<not> rb_has_data (rs_buffer (at_turn turns j r))) \<and>
    fst (poll_data (\<lambda>r. after (the (wait_for_data (start + long_poll_timeout) turns r))) r) =
      Data (rb_items (rs_buffer (after (at_turn turns k r))))"
proof -
  have "long_poll_timeout = 500 * poll_interval"
    by (simp add: long_poll_timeout_def poll_interval_def from_secs_def from_millis_def nanos_per_sec_def
        nanos_per_milli_def)
  then have "start + long_poll_timeout \<le> fst (turns ! 500)"
    using assms(1) [of 500] assms(2) by simp
  then obtain k where "k \<le> 500" and k: "wait_for_data (start + long_poll_timeout) turns r = Some (at_turn turns k r)"
    and "wait_over (start + long_poll_timeout) turns k r" "\<forall>j<k. \<not> wait_over (start + long_poll_timeout) turns j r"
    using wait_for_data_first [of 500 turns "start + long_poll_timeout" r] assms(2) by auto
  then show ?thesis
    using assms(3) by (intro exI [of _ k]) (auto simp: wait_over_def poll_data_eq Let_def not_le)
qed

text \<open>Nothing arrives until, in the third sleep, the clipboard is offered.\<close>

definition slow_turns :: "(time \<times> (remote \<Rightarrow> remote)) list" where
  "slow_turns = map (\<lambda>k. (k * poll_interval,
     if k = 2 then (\<lambda>r. r\<lparr>rs_buffer := add_clipboard_content (rs_buffer r) ''x''\<rparr>) else (\<lambda>r. r))) [0..<600]"

theorem long_poll_returns_witness:
  "\<exists>k\<le>500. wait_for_data long_poll_timeout slow_turns (remote_new clipboard_init) =
     Some (at_turn slow_turns k (remote_new clipboard_init))"
proof -
  have "0 + k * poll_interval \<le> fst (slow_turns ! k)" if "k < length slow_turns" for k
    using that by (simp add: slow_turns_def)
  moreover have "501 \<le> length slow_turns"
    by (simp add: slow_turns_def)
  moreover have "rb_items (rs_buffer (remote_new clipboard_init)) = []"
    by (simp add: remote_new_def rb_new_def)
  ultimately have "\<exists>k\<le>500. wait_for_data (0 + long_poll_timeout) slow_turns (remote_new clipboard_init) =
      Some (at_turn slow_turns k (remote_new clipboard_init))"
    using long_poll_returns [of slow_turns 0 "remote_new clipboard_init"] by blast
  then show ?thesis by simp
qed

end
