(* ===== verification/Ipc.thy ===== *)
theory Ipc
  imports Remote_Server
begin

text \<open>
  \<open>crates/remote/src/ipc.rs\<close>: shell commands talk to the running remote server over a local socket, one
  JSON text per line, and the loop \<open>run_with_ipc\<close> and the shell commands of \<open>remote/src/main.rs\<close>.

  A connection is given by the text its peer will send until it closes (the input), by the text
  written back so far, and by the state it shares with the server. \<open>serde_json\<close> is the argument
  \<open>ipc_codec\<close>. The sender the server got from \<open>main\<close> is the queue of an unbounded channel and whether
  its receiver still exists.
\<close>

section \<open>Messages\<close>

datatype ipc_command =
    IpcGetClipboard
  | IpcSetClipboard string
  | IpcOpenBrowser string
  | SendToClient string
  | Status
  | IpcPing

datatype ipc_response =
    IpcSuccess "string option"
  | IpcError string
  | IpcStatus u64 u32 u32
  | IpcPong

record ipc_codec =
  enc_command :: "ipc_command \<Rightarrow> string + string"
  dec_command :: "string \<Rightarrow> string + ipc_command"
  enc_reply :: "ipc_response \<Rightarrow> string + string"
  dec_reply :: "string \<Rightarrow> string + ipc_response"

section \<open>The server\<close>

record client_sender =
  unread :: "string list"
  receiver_open :: bool

record ipc_server =
  ipc_sender :: "client_sender option"
  uptime_start :: time

definition ipc_server_new :: "time \<Rightarrow> ipc_server" where
  "ipc_server_new now = \<lparr>ipc_sender = None, uptime_start = now\<rparr>"

definition set_client_sender :: "client_sender \<Rightarrow> ipc_server \<Rightarrow> ipc_server" where
  "set_client_sender tx sv = sv\<lparr>ipc_sender := Some tx\<rparr>"

text \<open>What \<open>main\<close> starts the server with: the receiving half of the channel lives as long as \<open>main\<close>, and
  nothing reads from it.\<close>

definition ipc_server_started :: "time \<Rightarrow> ipc_server" where
  "ipc_server_started now =
     set_client_sender \<lparr>unread = [], receiver_open = True\<rparr> (ipc_server_new now)"

fun ipc_handle_command ::
    "(string \<Rightarrow> string + string) \<Rightarrow> time \<Rightarrow> ipc_command \<Rightarrow> ipc_server \<times> clipboard
     \<Rightarrow> ipc_response \<times> ipc_server \<times> clipboard" where
  "ipc_handle_command parse now IpcGetClipboard (sv, cb) =
     ((case get_clipboard cb of
         Inr content \<Rightarrow> IpcSuccess (Some content)
       | Inl e \<Rightarrow> IpcError (''Failed to get clipboard: '' @ show_error e)), sv, cb)"
| "ipc_handle_command parse now (IpcSetClipboard content) (sv, cb) =
     (case set_clipboard content cb of
        (Inr _, cb1) \<Rightarrow> (IpcSuccess None, sv, cb1)
      | (Inl e, cb1) \<Rightarrow> (IpcError (''Failed to set clipboard: '' @ show_error e), sv, cb1))"
| "ipc_handle_command parse now (IpcOpenBrowser url) (sv, cb) =
     ((case open_url parse url of
         Inr _ \<Rightarrow> IpcSuccess None
       | Inl e \<Rightarrow> IpcError (''Failed to open browser: '' @ show_error e)), sv, cb)"
| "ipc_handle_command parse now (SendToClient message) (sv, cb) =
     (case ipc_sender sv of
        Some tx \<Rightarrow>
          if receiver_open tx
          then (IpcSuccess None, sv\<lparr>ipc_sender := Some (tx\<lparr>unread := unread tx @ [message]\<rparr>)\<rparr>, cb)
          else (IpcError ''Failed to send to client: channel closed'', sv, cb)
      | None \<Rightarrow> (IpcError ''No client connected'', sv, cb))"
| "ipc_handle_command parse now Status (sv, cb) =
     (IpcStatus (of_nat ((now - uptime_start sv) div nanos_per_sec))
        (if ipc_sender sv \<noteq> None then 1 else 0) 0, sv, cb)"
| "ipc_handle_command parse now IpcPing (sv, cb) = (IpcPong, sv, cb)"

section \<open>A connection\<close>

text \<open>\<open>read_line\<close>: up to and including the next newline, or what is left before the end.\<close>

fun read_line :: "string \<Rightarrow> string \<times> string" where
  "read_line [] = ([], [])"
| "read_line (c # cs) =
     (if c = newline then ([c], cs) else (let (l, rest) = read_line cs in (c # l, rest)))"

record ipc_connection =
  ic_input :: string
  ic_output :: string
  ic_server :: ipc_server
  ic_clipboard :: clipboard

definition ipc_send_response ::
    "ipc_codec \<Rightarrow> write_outcome \<Rightarrow> ipc_response \<Rightarrow> ipc_connection \<Rightarrow> (string + unit) \<times> ipc_connection" where
  "ipc_send_response cd w response c =
     (case enc_reply cd response of
        Inl e \<Rightarrow> (Inl e, c)
      | Inr json \<Rightarrow>
          (case w of
             Written \<Rightarrow> (Inr (), c\<lparr>ic_output := ic_output c @ json @ [newline]\<rparr>)
           | WriteFault e n \<Rightarrow> (Inl e, c\<lparr>ic_output := ic_output c @ take n (json @ [newline])\<rparr>)))"

text \<open>
  One turn of the loop of \<open>handle_connection\<close>: a possible fault of the read, the time, and how the write
  fares. The first component is the result of the call if the turn ends it.
\<close>

definition ipc_turn ::
    "ipc_codec \<Rightarrow> (string \<Rightarrow> string + string) \<Rightarrow> string option \<times> time \<times> write_outcome \<Rightarrow> ipc_connection
     \<Rightarrow> (string + unit) option \<times> ipc_connection" where
  "ipc_turn cd parse ev c =
     (let (fault, now, w) = ev;
          reply = (\<lambda>response c. case ipc_send_response cd w response c of
                     (Inr _, c1) \<Rightarrow> (None, c1) | (Inl e, c1) \<Rightarrow> (Some (Inl e), c1))
      in case fault of
           Some _ \<Rightarrow> (Some (Inr ()), c)
         | None \<Rightarrow>
             (let (line, rest) = read_line (ic_input c);
                  c1 = c\<lparr>ic_input := rest\<rparr>
              in if line = [] then (Some (Inr ()), c1)
                 else case dec_command cd (trim line) of
                        Inl e \<Rightarrow> reply (IpcError (''Invalid command format: '' @ e)) c1
                      | Inr command \<Rightarrow>
                          (let (response, sv, cb) =
                                 ipc_handle_command parse now command (ic_server c1, ic_clipboard c1)
                           in reply response (c1\<lparr>ic_server := sv, ic_clipboard := cb\<rparr>))))"

fun ipc_handle_connection ::
    "ipc_codec \<Rightarrow> (string \<Rightarrow> string + string) \<Rightarrow> (string option \<times> time \<times> write_outcome) list \<Rightarrow> ipc_connection
     \<Rightarrow> (string + unit) option \<times> ipc_connection" where
  "ipc_handle_connection cd parse [] c = (None, c)"
| "ipc_handle_connection cd parse (ev # evs) c =
     (case ipc_turn cd parse ev c of
        (None, c1) \<Rightarrow> ipc_handle_connection cd parse evs c1
      | (Some r, c1) \<Rightarrow> (Some r, c1))"

section \<open>The client\<close>

text \<open>
  \<open>dial\<close> is a failure of the connection, \<open>reply\<close> the line the server sends back (empty if it closes
  first) or a failure to read it. The second result is what was written to the socket.
\<close>

definition ipc_send_command ::
    "ipc_codec \<Rightarrow> string option \<Rightarrow> write_outcome \<Rightarrow> string + string \<Rightarrow> ipc_command
     \<Rightarrow> (string + ipc_response) \<times> string" where
  "ipc_send_command cd dial w reply command =
     (case dial of
        Some e \<Rightarrow> (Inl e, [])
      | None \<Rightarrow>
          (case enc_command cd command of
             Inl e \<Rightarrow> (Inl e, [])
           | Inr json \<Rightarrow>
               (case w of
                  WriteFault e n \<Rightarrow> (Inl e, take n (json @ [newline]))
                | Written \<Rightarrow> (try_bind reply (\<lambda>line. dec_reply cd (trim line)), json @ [newline]))))"

definition ipc_ping :: "string + ipc_response \<Rightarrow> bool" where
  "ipc_ping r \<longleftrightarrow> r = Inr IpcPong"

definition ipc_get_clipboard :: "string + ipc_response \<Rightarrow> string + string" where
  "ipc_get_clipboard r = try_bind r (\<lambda>resp. case resp of
       IpcSuccess (Some content) \<Rightarrow> Inr content
     | IpcError message \<Rightarrow> Inl message
     | _ \<Rightarrow> Inl ''Unexpected response'')"

text \<open>\<open>set_clipboard\<close>, \<open>open_browser\<close> and \<open>send_to_client\<close> read the response alike.\<close>

definition ipc_expect_success :: "string + ipc_response \<Rightarrow> string + unit" where
  "ipc_expect_success r = try_bind r (\<lambda>resp. case resp of
       IpcSuccess _ \<Rightarrow> Inr ()
     | IpcError message \<Rightarrow> Inl message
     | _ \<Rightarrow> Inl ''Unexpected response'')"

definition ipc_status :: "string + ipc_response \<Rightarrow> string + u64 \<times> u32 \<times> u32" where
  "ipc_status r = try_bind r (\<lambda>resp. case resp of
       IpcStatus uptime connected_clients active_port_forwards \<Rightarrow>
         Inr (uptime, connected_clients, active_port_forwards)
     | IpcError message \<Rightarrow> Inl message
     | _ \<Rightarrow> Inl ''Unexpected response'')"

definition default_ipc_socket_path :: path_buf where
  "default_ipc_socket_path = ''/tmp/yuha-remote.sock''"

text \<open>A shell command of the remote binary: what it prints, or its message on the error stream and the
  exit code 1.\<close>

datatype shell_outcome = Printed "string list" | ExitedWithError string

definition handle_shell_command :: "string + ipc_response \<Rightarrow> shell_outcome" where
  "handle_shell_command r =
     (case r of
        Inr (IpcSuccess (Some d)) \<Rightarrow> Printed [d]
      | Inr (IpcSuccess None) \<Rightarrow> Printed [''Success'']
      | Inr (IpcError message) \<Rightarrow> ExitedWithError (''Error: '' @ message)
      | Inr (IpcStatus uptime clients forwards) \<Rightarrow>
          Printed [''Remote process status:'', ''  Uptime: '' @ show_nat (unat uptime) @ '' seconds'',
                   ''  Connected clients: '' @ show_nat (unat clients),
                   ''  Active port forwards: '' @ show_nat (unat forwards)]
      | Inr IpcPong \<Rightarrow> Printed [''Pong'']
      | Inl e \<Rightarrow> ExitedWithError (''Failed to communicate with remote process: '' @ e))"

section \<open>The request loop with ticks\<close>

text \<open>
  \<open>run_with_ipc\<close> waits in a \<open>select!\<close> for a request or for 100 milliseconds, whichever comes first. A
  \<open>Tick n\<close> is a turn the sleep wins: the pending receive, which has read up to \<open>n\<close> chunks by then, is
  dropped where it waits, and what it has read stays in the channel's buffer. \<open>Tasks\<close> is what the other
  tasks do to the server between two requests. Without ticks this is the loop of \<open>run\<close>. The \<open>IPC\<close>
  handler that \<open>run_with_ipc\<close> spawns listens to a channel nothing is ever sent to.
\<close>

datatype loop_event =
    Tick nat
  | Tasks "remote \<Rightarrow> remote"
  | Turn "remote \<Rightarrow> remote" write_outcome

fun absorb :: "nat \<Rightarrow> channel \<Rightarrow> channel" where
  "absorb 0 ch = ch"
| "absorb (Suc n) ch =
     (case (take_frame (read_buffer ch), incoming ch) of
        (None, Chunk bs # evs) \<Rightarrow>
          if bs = [] then ch
          else absorb n (ch\<lparr>read_buffer := read_buffer ch @ bs, incoming := evs\<rparr>)
      | _ \<Rightarrow> ch)"

fun serve_loop ::
    "environment \<Rightarrow> (bytes \<Rightarrow> string + protocol_request) \<Rightarrow> (protocol_response \<Rightarrow> string + bytes)
     \<Rightarrow> loop_event list \<Rightarrow> remote \<times> channel \<Rightarrow> bool \<times> remote \<times> channel" where
  "serve_loop env from_slice to_vec [] st = (True, st)"
| "serve_loop env from_slice to_vec (Tick n # evs) (r, ch) =
     serve_loop env from_slice to_vec evs (r, absorb n ch)"
| "serve_loop env from_slice to_vec (Tasks f # evs) (r, ch) =
     serve_loop env from_slice to_vec evs (f r, ch)"
| "serve_loop env from_slice to_vec (Turn meanwhile w # evs) (r, ch) =
     (case receive_request from_slice ch of
        None \<Rightarrow> serve_loop env from_slice to_vec evs (r, ch)
      | Some (request, ch1) \<Rightarrow>
          (case serve_turn env to_vec request meanwhile w (r, ch1) of
             (True, st) \<Rightarrow> serve_loop env from_slice to_vec evs st
           | (False, st) \<Rightarrow> (False, st)))"

definition is_tick :: "loop_event \<Rightarrow> bool" where
  "is_tick ev = (case ev of Tick _ \<Rightarrow> True | _ \<Rightarrow> False)"

lemma is_tick_simps [simp]: "is_tick (Tick n)" "\<not> is_tick (Tasks f)" "\<not> is_tick (Turn m w)"
  by (simp_all add: is_tick_def)

lemma receive_absorb: "receive (absorb n ch) = receive ch"
proof (induction n ch rule: absorb.induct)
  case (2 n ch)
  show ?case
  proof (cases "\<exists>bs evs. take_frame (read_buffer ch) = None \<and> incoming ch = Chunk bs # evs \<and> bs \<noteq> []")
    case True
    then obtain bs evs where c: "take_frame (read_buffer ch) = None" "incoming ch = Chunk bs # evs" "bs \<noteq> []"
      by blast
    then have "receive (absorb (Suc n) ch)
        = receive (ch\<lparr>read_buffer := read_buffer ch @ bs, incoming := evs\<rparr>)"
      using 2 by simp
    also have "\<dots> = receive ch"
      using c by (simp add: receive_def pump.simps [of take_frame "read_buffer ch"] option.map_comp comp_def
          case_prod_unfold)
    finally show ?thesis .
  next
    case False
    then have "absorb (Suc n) ch = ch"
      by (auto split: option.split list.split read_event.split)
    then show ?thesis by simp
  qed
qed simp

lemma absorb_absorb: "\<exists>k. absorb m (absorb n ch) = absorb k ch"
proof (induction n ch rule: absorb.induct)
  case (2 n ch)
  show ?case
  proof (cases "\<exists>bs evs. take_frame (read_buffer ch) = None \<and> incoming ch = Chunk bs # evs \<and> bs \<noteq> []")
    case True
    then obtain bs evs where c: "take_frame (read_buffer ch) = None" "incoming ch = Chunk bs # evs" "bs \<noteq> []"
      by blast
    then have "\<exists>k. absorb m (absorb n (ch\<lparr>read_buffer := read_buffer ch @ bs, incoming := evs\<rparr>))
        = absorb k (ch\<lparr>read_buffer := read_buffer ch @ bs, incoming := evs\<rparr>)"
      using 2 by simp
    with c obtain k where "absorb m (absorb (Suc n) ch)
        = absorb k (ch\<lparr>read_buffer := read_buffer ch @ bs, incoming := evs\<rparr>)"
      by auto
    with c have "absorb m (absorb (Suc n) ch) = absorb (Suc k) ch"
      by simp
    then show ?thesis by blast
  next
    case False
    then have "absorb (Suc n) ch = ch"
      by (auto split: option.split list.split read_event.split)
    then show ?thesis by auto
  qed
qed auto

lemma outgoing_absorb [simp]: "outgoing (absorb n ch) = outgoing ch"
  by (induction n ch rule: absorb.induct) (auto split: option.split list.split read_event.split)

text \<open>The loops with and without the ticks go through the same states; only how much of the stream is
  already buffered can differ.\<close>

lemma serve_loop_ticks:
  "\<exists>b r' ch' k. serve_loop env from_slice to_vec (filter (\<lambda>ev. \<not> is_tick ev) evs) (r, ch) = (b, r', ch') \<and>
     serve_loop env from_slice to_vec evs (r, absorb n ch) = (b, r', absorb k ch')"
proof (induction evs arbitrary: r ch n)
  case Nil
  then show ?case by auto
next
  case (Cons ev evs)
  show ?case
  proof (cases ev)
    case (Tick m)
    obtain k where "absorb m (absorb n ch) = absorb k ch"
      using absorb_absorb by blast
    then show ?thesis
      using Cons.IH [of r ch k] Tick by simp
  next
    case (Tasks f)
    then show ?thesis
      using Cons.IH [of "f r" ch n] by simp
  next
    case (Turn meanwhile w)
    have same: "receive_request from_slice (absorb n ch) = receive_request from_slice ch"
      by (simp add: receive_request_def receive_as_def receive_absorb)
    show ?thesis
    proof (cases "receive_request from_slice ch")
      case None
      then show ?thesis
        using Cons.IH [of r ch n] Turn same by simp
    next
      case (Some p)
      obtain request ch1 where p: "p = (request, ch1)"
        by (cases p)
      obtain b r2 ch2 where turn: "serve_turn env to_vec request meanwhile w (r, ch1) = (b, r2, ch2)"
        by (cases "serve_turn env to_vec request meanwhile w (r, ch1)") auto
      show ?thesis
      proof (cases b)
        case True
        then show ?thesis
          using Cons.IH [of r2 ch2 0] Turn same Some p turn by simp
      next
        case False
        then show ?thesis
          using Turn same Some p turn by (auto intro: exI [of _ 0])
      qed
    qed
  qed
qed

section \<open>Lines\<close>

lemma read_line_line: "newline \<notin> set s \<Longrightarrow> read_line (s @ newline # rest) = (s @ [newline], rest)"
  by (induction s) auto

text \<open>What the exchange relies on in \<open>serde_json\<close>: a rendering parses back, has no line break, and
  neither starts nor ends with white space.\<close>

definition renders :: "('a \<Rightarrow> string + string) \<Rightarrow> (string \<Rightarrow> string + 'a) \<Rightarrow> 'a \<Rightarrow> bool" where
  "renders enc dec a \<longleftrightarrow>
     (\<exists>json. enc a = Inr json \<and> dec json = Inr a \<and> newline \<notin> set json \<and> solid json)"

definition line_of :: "('a \<Rightarrow> string + string) \<Rightarrow> 'a \<Rightarrow> string" where
  "line_of enc a = (case enc a of Inr json \<Rightarrow> json @ [newline] | Inl _ \<Rightarrow> [])"

lemma renders_line:
  assumes "renders enc dec a"
  shows "read_line (line_of enc a @ rest) = (line_of enc a, rest)"
    and "dec (trim (line_of enc a)) = Inr a" and "line_of enc a \<noteq> []"
  using assms by (auto simp: renders_def line_of_def read_line_line trim_line)

text \<open>The commands of a list answered one after another.\<close>

fun handle_all ::
    "(string \<Rightarrow> string + string) \<Rightarrow> (ipc_command \<times> time) list \<Rightarrow> ipc_server \<times> clipboard
     \<Rightarrow> ipc_response list \<times> ipc_server \<times> clipboard" where
  "handle_all parse [] st = ([], st)"
| "handle_all parse ((command, now) # rest) st =
     (let (response, st1) = ipc_handle_command parse now command st;
          (responses, st2) = handle_all parse rest st1
      in (response # responses, st2))"

lemma ipc_turn_command:
  assumes "renders (enc_command cd) (dec_command cd) command"
    and "renders (enc_reply cd) (dec_reply cd) response"
    and "ic_input c = line_of (enc_command cd) command @ rest"
    and "ipc_handle_command parse now command (ic_server c, ic_clipboard c) = (response, sv, cb)"
  shows "ipc_turn cd parse (None, now, Written) c =
    (None, c\<lparr>ic_input := rest, ic_server := sv, ic_clipboard := cb,
             ic_output := ic_output c @ line_of (enc_reply cd) response\<rparr>)"
proof -
  obtain json where "enc_reply cd response = Inr json"
    using assms(2) by (auto simp: renders_def)
  then show ?thesis
    using renders_line [OF assms(1)] assms(3,4)
    by (simp add: ipc_turn_def ipc_send_response_def line_of_def)
qed

lemma handle_all_length: "length (fst (handle_all parse cmds st)) = length cmds"
proof (induction cmds arbitrary: st)
  case (Cons p cmds)
  then show ?case
    by (cases p) (simp add: Let_def case_prod_unfold)
qed simp

lemma ipc_send_command_line:
  assumes "renders (enc_command cd) (dec_command cd) command" and "renders (enc_reply cd) (dec_reply cd) resp"
  shows "ipc_send_command cd None Written (Inr (line_of (enc_reply cd) resp)) command =
    (Inr resp, line_of (enc_command cd) command)"
  using assms(1) renders_line(2) [OF assms(2)]
  by (auto simp: ipc_send_command_def renders_def [of "enc_command cd"] line_of_def [of "enc_command cd"])

lemma ipc_connection_answers:
  assumes "\<And>command now. (command, now) \<in> set cmds \<Longrightarrow> renders (enc_command cd) (dec_command cd) command"
    and "\<And>resp. resp \<in> set responses \<Longrightarrow> renders (enc_reply cd) (dec_reply cd) resp"
    and "ic_input c = concat (map (\<lambda>(command, _). line_of (enc_command cd) command) cmds)"
    and "handle_all parse cmds (ic_server c, ic_clipboard c) = (responses, sv, cb)"
  shows "ipc_handle_connection cd parse (map (\<lambda>(_, now). (None, now, Written)) cmds @ [(None, t, w)]) c =
    (Some (Inr ()), c\<lparr>ic_input := [], ic_server := sv, ic_clipboard := cb,
       ic_output := ic_output c @ concat (map (line_of (enc_reply cd)) responses)\<rparr>)"
  using assms
proof (induction cmds arbitrary: c responses)
  case Nil
  then show ?case
    by (cases c) (simp add: ipc_turn_def)
next
  case (Cons p cmds)
  obtain command now where p: "p = (command, now)"
    by (cases p)
  obtain response sv1 cb1 where h: "ipc_handle_command parse now command (ic_server c, ic_clipboard c) = (response, sv1, cb1)"
    by (metis prod_cases3)
  obtain responses' where rs: "handle_all parse cmds (sv1, cb1) = (responses', sv, cb)" "responses = response # responses'"
    using Cons.prems(4) by (auto simp: p h Let_def split: prod.splits)
  let ?c = "c\<lparr>ic_input := concat (map (\<lambda>(command, _). line_of (enc_command cd) command) cmds),
      ic_server := sv1, ic_clipboard := cb1, ic_output := ic_output c @ line_of (enc_reply cd) response\<rparr>"
  have "ipc_turn cd parse (None, now, Written) c = (None, ?c)"
    using Cons.prems by (intro ipc_turn_command [OF _ _ _ h]) (auto simp: p rs(2))
  moreover have "ipc_handle_connection cd parse (map (\<lambda>(_, now). (None, now, Written)) cmds @ [(None, t, w)]) ?c =
      (Some (Inr ()), ?c\<lparr>ic_input := [], ic_server := sv, ic_clipboard := cb,
         ic_output := ic_output ?c @ concat (map (line_of (enc_reply cd)) responses')\<rparr>)"
    by (rule Cons.IH) (use Cons.prems rs in \<open>auto\<close>)
  ultimately show ?case
    by (simp add: p rs(2))
qed

lemma ipc_lines_read_back:
  assumes "\<And>command now. (command, now) \<in> set cmds \<Longrightarrow> renders (enc_command cd) (dec_command cd) command"
    and "\<And>resp. resp \<in> set responses \<Longrightarrow> renders (enc_reply cd) (dec_reply cd) resp"
    and "length cmds = length responses"
  shows "list_all2 (\<lambda>(command, _) resp.
      ipc_send_command cd None Written (Inr (line_of (enc_reply cd) resp)) command =
        (Inr resp, line_of (enc_command cd) command)) cmds responses"
proof (rule list_all2_all_nthI)
  show len: "length cmds = length responses"
    by (rule assms(3))
  show "(\<lambda>(command, _) resp.
      ipc_send_command cd None Written (Inr (line_of (enc_reply cd) resp)) command =
        (Inr resp, line_of (enc_command cd) command)) (cmds ! i) (responses ! i)"
    if "i < length cmds" for i
  proof (cases "cmds ! i")
    case (Pair command now)
    then have "(command, now) \<in> set cmds" and "responses ! i \<in> set responses"
      using that len nth_mem [of i cmds] by simp_all
    then show ?thesis
      using ipc_send_command_line [OF assms(1) assms(2)] Pair by simp
  qed
qed

section \<open>Properties\<close>

text \<open>C17. The ticks of the loop with IPC lose nothing: a receive that is dropped when the sleep wins keeps
  what it has read, so with any number of ticks at any places the loop answers the same requests with the
  same bytes, goes through the same server states and stops at the same turn as without them.\<close>

theorem ticks_lose_nothing:
  "fst (serve_loop env from_slice to_vec evs (r, ch))
     = fst (serve_loop env from_slice to_vec (filter (\<lambda>ev. \<not> is_tick ev) evs) (r, ch)) \<and>
   fst (snd (serve_loop env from_slice to_vec evs (r, ch)))
     = fst (snd (serve_loop env from_slice to_vec (filter (\<lambda>ev. \<not> is_tick ev) evs) (r, ch))) \<and>
   outgoing (snd (snd (serve_loop env from_slice to_vec evs (r, ch))))
     = outgoing (snd (snd (serve_loop env from_slice to_vec (filter (\<lambda>ev. \<not> is_tick ev) evs) (r, ch)))) \<and>
   receive (snd (snd (serve_loop env from_slice to_vec evs (r, ch))))
     = receive (snd (snd (serve_loop env from_slice to_vec (filter (\<lambda>ev. \<not> is_tick ev) evs) (r, ch))))"
proof -
  obtain b r' ch' k where
    "serve_loop env from_slice to_vec (filter (\<lambda>ev. \<not> is_tick ev) evs) (r, ch) = (b, r', ch')"
    and "serve_loop env from_slice to_vec evs (r, absorb 0 ch) = (b, r', absorb k ch')"
    using serve_loop_ticks by blast
  then show ?thesis
    by (simp add: receive_absorb)
qed

text \<open>Shell commands are answered one for one: on a connection whose peer sends a list of commands and
  then closes, the server writes exactly one line per command, in order, the rendering of what the command
  yields in the state the commands before it left; then the connection ends without an error. Each line
  parses back to the response at the client, provided the JSON renderings are faithful single lines.\<close>

theorem ipc_answers_in_order:
  assumes "\<And>command now. (command, now) \<in> set cmds \<Longrightarrow> renders (enc_command cd) (dec_command cd) command"
    and "\<And>resp. resp \<in> set responses \<Longrightarrow> renders (enc_reply cd) (dec_reply cd) resp"
    and "ic_input c = concat (map (\<lambda>(command, _). line_of (enc_command cd) command) cmds)"
    and "handle_all parse cmds (ic_server c, ic_clipboard c) = (responses, sv, cb)"
  shows "ipc_handle_connection cd parse (map (\<lambda>(_, now). (None, now, Written)) cmds @ [(None, t, w)]) c =
      (Some (Inr ()), c\<lparr>ic_input := [], ic_server := sv, ic_clipboard := cb,
         ic_output := ic_output c @ concat (map (line_of (enc_reply cd)) responses)\<rparr>) \<and>
    list_all2 (\<lambda>(command, _) resp.
        ipc_send_command cd None Written (Inr (line_of (enc_reply cd) resp)) command =
          (Inr resp, line_of (enc_command cd) command)) cmds responses"
proof -
  have "length cmds = length responses"
    using handle_all_length [of parse cmds "(ic_server c, ic_clipboard c)"] assms(4) by simp
  from ipc_lines_read_back [OF assms(1,2) this] ipc_connection_answers [OF assms] show ?thesis
    by simp
qed

definition toy_codec :: ipc_codec where
  "toy_codec =
     \<lparr>enc_command = (\<lambda>c. case c of SendToClient s \<Rightarrow> Inr (''{'' @ s @ ''}'') | _ \<Rightarrow> Inr ''[Ping]''),
      dec_command = (\<lambda>s. if s = ''[Ping]'' then Inr IpcPing else Inr (SendToClient (butlast (tl s)))),
      enc_reply = (\<lambda>r. if r = IpcPong then Inr ''[Pong]'' else Inr ''[Success]''),
      dec_reply = (\<lambda>s. if s = ''[Pong]'' then Inr IpcPong else Inr (IpcSuccess None))\<rparr>"

theorem ipc_answers_in_order_witness:
  "ic_output (snd (ipc_handle_connection toy_codec Inl [(None, 5, Written), (None, 6, Written), (None, 7, Written)]
     \<lparr>ic_input = ''{hi}'' @ newline # ''[Ping]'' @ [newline], ic_output = [],
      ic_server = set_client_sender \<lparr>unread = [], receiver_open = True\<rparr> (ipc_server_new 0),
      ic_clipboard = clipboard_init\<rparr>)) = ''[Success]'' @ newline # ''[Pong]'' @ [newline]"
proof -
  let ?c = "\<lparr>ic_input = ''{hi}'' @ newline # ''[Ping]'' @ [newline], ic_output = [],
      ic_server = set_client_sender \<lparr>unread = [], receiver_open = True\<rparr> (ipc_server_new 0),
      ic_clipboard = clipboard_init\<rparr>"
  let ?cmds = "[(SendToClient ''hi'', 5), (IpcPing, 6)] :: (ipc_command \<times> time) list"
  have lines: "line_of (enc_reply toy_codec) (IpcSuccess None) = ''[Success]'' @ [newline]"
    "line_of (enc_reply toy_codec) IpcPong = ''[Pong]'' @ [newline]"
    by (simp_all add: line_of_def toy_codec_def)
  have cmds: "renders (enc_command toy_codec) (dec_command toy_codec) IpcPing"
    "renders (enc_command toy_codec) (dec_command toy_codec) (SendToClient ''hi'')"
    unfolding renders_def
    by (rule exI [of _ "''[Ping]''"], simp add: toy_codec_def newline_def solidI,
        rule exI [of _ "''{hi}''"], simp add: toy_codec_def newline_def solidI)
  have replies: "renders (enc_reply toy_codec) (dec_reply toy_codec) (IpcSuccess None)"
    "renders (enc_reply toy_codec) (dec_reply toy_codec) IpcPong"
    unfolding renders_def
    by (rule exI [of _ "''[Success]''"], simp add: toy_codec_def newline_def solidI,
        rule exI [of _ "''[Pong]''"], simp add: toy_codec_def newline_def solidI)
  have input: "ic_input ?c = concat (map (\<lambda>(command, _). line_of (enc_command toy_codec) command) ?cmds)"
    by (simp add: line_of_def toy_codec_def)
  have run: "handle_all Inl ?cmds (ic_server ?c, ic_clipboard ?c) =
      ([IpcSuccess None, IpcPong], set_client_sender \<lparr>unread = [''hi''], receiver_open = True\<rparr> (ipc_server_new 0),
       clipboard_init)"
    by (simp add: set_client_sender_def)
  have all_cmds: "renders (enc_command toy_codec) (dec_command toy_codec) command"
    if "(command, now) \<in> set ?cmds" for command now
    using that cmds by auto
  have all_replies: "renders (enc_reply toy_codec) (dec_reply toy_codec) resp"
    if "resp \<in> set [IpcSuccess None, IpcPong]" for resp
    using that replies by auto
  show ?thesis
    using conjunct1 [OF ipc_answers_in_order [OF all_cmds all_replies input run, where t = 7 and w = Written]]
    by (simp del: ipc_handle_connection.simps add: lines)
qed

text \<open>Every message for the client is accepted and then stays where it is: however many are sent to a
  server as \<open>main\<close> starts it, each is answered with success, and all of them are still unread.\<close>

fun send_messages :: "string list \<Rightarrow> ipc_server \<times> clipboard \<Rightarrow> ipc_response list \<times> ipc_server \<times> clipboard" where
  "send_messages [] st = ([], st)"
| "send_messages (m # ms) st =
     (let (r, st1) = ipc_handle_command (\<lambda>_. Inl []) 0 (SendToClient m) st;
          (rs, st2) = send_messages ms st1
      in (r # rs, st2))"

lemma messages_stay_unread:
  "ipc_sender sv = Some tx \<Longrightarrow> receiver_open tx \<Longrightarrow>
   send_messages ms (sv, cb) =
     (replicate (length ms) (IpcSuccess None), sv\<lparr>ipc_sender := Some (tx\<lparr>unread := unread tx @ ms\<rparr>)\<rparr>, cb)"
  by (induction ms arbitrary: sv tx) simp_all

lemma started_server_keeps_messages:
  "send_messages ms (ipc_server_started now, cb) =
     (replicate (length ms) (IpcSuccess None),
      set_client_sender \<lparr>unread = ms, receiver_open = True\<rparr> (ipc_server_new now), cb)"
  by (simp add: ipc_server_started_def set_client_sender_def messages_stay_unread)

end
