(* ===== verification/Daemon_Protocol.thy ===== *)
theory Daemon_Protocol
  imports Session Hash_Map
begin

text \<open>
  \<open>crates/client/src/daemon_protocol.rs\<close> and \<open>constants.rs\<close>: the messages between a client program and
  the daemon, and the daemon's configuration. \<open>crates/core/src/protocol/daemon.rs\<close> declares the same
  types a second time with a different default socket path.
\<close>

datatype daemon_command =
    DcGetClipboard
  | DcSetClipboard string
  | DcOpenBrowser string
  | DcStartPortForward u16 string u16
  | DcStopPortForward u16
  | DcPortForwardData u32 bytes

datatype daemon_request =
    Ping
  | CreateSession string transport_config "string list" "string option"
  | ConnectSession string transport_config
  | DisconnectSession session_id
  | ListSessions
  | GetSessionInfo session_id
  | ExecuteCommand session_id daemon_command
  | Shutdown

record session_summary =
  sum_id :: session_id
  sum_name :: string
  sum_connection_key :: string
  sum_status :: string
  sum_created_at :: string
  sum_last_used :: string
  sum_use_count :: u64

record port_forward_info =
  pfi_local_port :: u16
  pfi_remote_host :: string
  pfi_remote_port :: u16
  pfi_active_connections :: u32

record session_details =
  det_id :: session_id
  det_name :: string
  det_transport_config :: transport_config
  det_status :: string
  det_created_at :: string
  det_last_used :: string
  det_use_count :: u64
  det_tags :: "string list"
  det_description :: "string option"
  det_active_port_forwards :: "port_forward_info list"

datatype command_result =
    CmdClipboardContent string
  | CmdClipboardSet
  | CmdBrowserOpened
  | CmdPortForwardStarted
  | CmdPortForwardStopped
  | CmdPortForwardDataSent

datatype error_code =
    CodeSessionNotFound
  | CodeSessionAlreadyExists
  | CodeConnectionFailed
  | CodeCommandFailed
  | CodeInvalidRequest
  | CodeShuttingDown
  | CodeInternalError
  | CodeMaxSessionsReached
  | CodeAuthenticationFailed

datatype daemon_response =
    Pong
  | SessionCreated session_id bool
  | SessionDisconnected
  | SessionList "session_summary list"
  | SessionInfo session_details
  | CommandSuccess command_result
  | ShuttingDown
  | DaemonError error_code string

record daemon_config =
  socket_path :: string
  max_clients :: u32
  enable_session_pooling :: bool
  session_idle_timeout :: u64
  dm_log_file :: "string option"
  dm_pid_file :: "string option"
  dm_options :: "(string, string) hashmap"

text \<open>\<open>unix\<close> tells the platform the program is built for.\<close>

definition default_socket_path :: "bool \<Rightarrow> path_buf" where
  "default_socket_path unix =
     (if unix then ''/tmp/yuha-daemon.sock''
      else [CHR 0x5C, CHR 0x5C] @ ''.'' @ [CHR 0x5C] @ ''pipe'' @ [CHR 0x5C] @ ''yuha-daemon'')"

definition daemon_config_default :: "bool \<Rightarrow> daemon_config" where
  "daemon_config_default unix =
     \<lparr>socket_path = default_socket_path unix, max_clients = 10, enable_session_pooling = True,
      session_idle_timeout = 300, dm_log_file = None, dm_pid_file = None, dm_options = []\<rparr>"

text \<open>The default of the copy in the core crate.\<close>

definition core_daemon_config_default :: daemon_config where
  "core_daemon_config_default =
     \<lparr>socket_path = ''/tmp/yuha.sock'', max_clients = 10, enable_session_pooling = True,
      session_idle_timeout = 300, dm_log_file = None, dm_pid_file = None, dm_options = []\<rparr>"

text \<open>The two defaults agree on everything but the socket.\<close>

lemma default_configs_differ:
  "core_daemon_config_default \<noteq> daemon_config_default unix \<and>
   core_daemon_config_default = (daemon_config_default unix)\<lparr>socket_path := ''/tmp/yuha.sock''\<rparr>"
  by (simp add: core_daemon_config_default_def daemon_config_default_def default_socket_path_def)

end
