(* ===== verification/Remote_Client.thy ===== *)
theory Remote_Client
  imports Remote_Server Daemon_Protocol
begin

text \<open>
  \<open>crates/client/src/client_transport.rs\<close>: the client of a remote server, and the error type of the
  client crate (\<open>lib.rs\<close>). A call that has not returned yet is \<open>None\<close>; otherwise it yields its result
  and the client it leaves. The errors of the SSH libraries are texts.
\<close>

section \<open>Errors\<close>

datatype client_error =
    ClientSsh string
  | ClientIo string
  | ClientConnection string
  | RemoteExecution string
  | ClientChannel string
  | ClientKey string
  | BinaryTransfer string
  | ClientDaemon error_code string

fun show_code :: "error_code \<Rightarrow> string" where
  "show_code CodeSessionNotFound = ''SessionNotFound''"
| "show_code CodeSessionAlreadyExists = ''SessionAlreadyExists''"
| "show_code CodeConnectionFailed = ''ConnectionFailed''"
| "show_code CodeCommandFailed = ''CommandFailed''"
| "show_code CodeInvalidRequest = ''InvalidRequest''"
| "show_code CodeShuttingDown = ''ShuttingDown''"
| "show_code CodeInternalError = ''InternalError''"
| "show_code CodeMaxSessionsReached = ''MaxSessionsReached''"
| "show_code CodeAuthenticationFailed = ''AuthenticationFailed''"

fun show_client_error :: "client_error \<Rightarrow> string" where
  "show_client_error (ClientSsh e) = ''SSH error: '' @ e"
| "show_client_error (ClientIo e) = ''I/O error: '' @ e"
| "show_client_error (ClientConnection e) = ''Connection error: '' @ e"
| "show_client_error (RemoteExecution e) = ''Remote execution error: '' @ e"
| "show_client_error (ClientChannel e) = ''Channel error: '' @ e"
| "show_client_error (ClientKey e) = ''Key error: '' @ e"
| "show_client_error (BinaryTransfer e) = ''Binary transfer error: '' @ e"
| "show_client_error (ClientDaemon code message) =
     ''Daemon error: '' @ message @ '' (code: '' @ show_code code @ '')''"

section \<open>The client\<close>

record client =
  message_channel :: "channel option"

definition client_new :: client where
  "client_new = \<lparr>message_channel = None\<rparr>"

text \<open>\<open>dial\<close> is the result of the transport: an error or the stream it opened.\<close>

definition client_connect :: "string + read_event list \<Rightarrow> client \<Rightarrow> (client_error + unit) \<times> client" where
  "client_connect dial c =
     (case dial of
        Inl e \<Rightarrow> (Inl (ClientConnection (''Transport connection failed: '' @ e)), c)
      | Inr stream \<Rightarrow> (Inr (), c\<lparr>message_channel := Some (new_with_stream stream)\<rparr>))"

record codec =
  enc_request :: "protocol_request \<Rightarrow> string + bytes"
  dec_response :: "bytes \<Rightarrow> string + protocol_response"

definition client_send_request ::
    "codec \<Rightarrow> write_outcome \<Rightarrow> protocol_request \<Rightarrow> client
     \<Rightarrow> ((client_error + protocol_response) \<times> client) option" where
  "client_send_request cd w request c =
     (case message_channel c of
        None \<Rightarrow> Some (Inl (ClientConnection ''Not connected''), c)
      | Some ch \<Rightarrow>
          (case send_request (enc_request cd) w request ch of
             (Inl e, ch1) \<Rightarrow>
               Some (Inl (ClientChannel (''Failed to send request: '' @ show_error e)),
                     c\<lparr>message_channel := Some ch1\<rparr>)
           | (Inr _, ch1) \<Rightarrow>
               map_option (\<lambda>(r, ch2).
                   (map_err (\<lambda>e. ClientChannel (''Failed to receive response: '' @ show_error e)) r,
                    c\<lparr>message_channel := Some ch2\<rparr>))
                 (receive_response (dec_response cd) ch1)))"

text \<open>What the operations make of a response.\<close>

definition unexpected :: client_error where
  "unexpected = ClientChannel ''Unexpected response type''"

definition expect_success :: "protocol_response \<Rightarrow> client_error + unit" where
  "expect_success resp =
     (case resp of Success \<Rightarrow> Inr () | Error message \<Rightarrow> Inl (RemoteExecution message) | _ \<Rightarrow> Inl unexpected)"

fun first_clipboard :: "response_item list \<Rightarrow> string option" where
  "first_clipboard [] = None"
| "first_clipboard (ClipboardContent content # items) = Some content"
| "first_clipboard (_ # items) = first_clipboard items"

definition expect_clipboard :: "protocol_response \<Rightarrow> client_error + string" where
  "expect_clipboard resp =
     (case resp of
        Data items \<Rightarrow>
          (case first_clipboard items of
             Some content \<Rightarrow> Inr content
           | None \<Rightarrow> Inl (ClientChannel ''No clipboard content in response''))
      | Error message \<Rightarrow> Inl (RemoteExecution message)
      | _ \<Rightarrow> Inl unexpected)"

definition expect_items :: "protocol_response \<Rightarrow> client_error + response_item list" where
  "expect_items resp =
     (case resp of Data items \<Rightarrow> Inr items | Error message \<Rightarrow> Inl (RemoteExecution message)
      | _ \<Rightarrow> Inl unexpected)"

definition client_call ::
    "(protocol_response \<Rightarrow> client_error + 'a) \<Rightarrow> codec \<Rightarrow> write_outcome \<Rightarrow> protocol_request \<Rightarrow> client
     \<Rightarrow> ((client_error + 'a) \<times> client) option" where
  "client_call expect cd w request c =
     map_option (\<lambda>(r, c'). (try_bind r expect, c')) (client_send_request cd w request c)"

definition client_start_port_forward ::
    "codec \<Rightarrow> write_outcome \<Rightarrow> u16 \<Rightarrow> string \<Rightarrow> u16 \<Rightarrow> client \<Rightarrow> ((client_error + unit) \<times> client) option" where
  "client_start_port_forward cd w lp host rp = client_call expect_success cd w (StartPortForward lp host rp)"

definition client_stop_port_forward ::
    "codec \<Rightarrow> write_outcome \<Rightarrow> u16 \<Rightarrow> client \<Rightarrow> ((client_error + unit) \<times> client) option" where
  "client_stop_port_forward cd w lp = client_call expect_success cd w (StopPortForward lp)"

definition client_send_port_forward_data ::
    "codec \<Rightarrow> write_outcome \<Rightarrow> u32 \<Rightarrow> bytes \<Rightarrow> client \<Rightarrow> ((client_error + unit) \<times> client) option" where
  "client_send_port_forward_data cd w i data = client_call expect_success cd w (PortForwardData i data)"

definition client_get_clipboard ::
    "codec \<Rightarrow> write_outcome \<Rightarrow> client \<Rightarrow> ((client_error + string) \<times> client) option" where
  "client_get_clipboard cd w = client_call expect_clipboard cd w GetClipboard"

definition client_set_clipboard ::
    "codec \<Rightarrow> write_outcome \<Rightarrow> string \<Rightarrow> client \<Rightarrow> ((client_error + unit) \<times> client) option" where
  "client_set_clipboard cd w content = client_call expect_success cd w (SetClipboard content)"

definition client_open_browser ::
    "codec \<Rightarrow> write_outcome \<Rightarrow> string \<Rightarrow> client \<Rightarrow> ((client_error + unit) \<times> client) option" where
  "client_open_browser cd w url = client_call expect_success cd w (OpenBrowser url)"

definition client_poll_data ::
    "codec \<Rightarrow> write_outcome \<Rightarrow> client \<Rightarrow> ((client_error + response_item list) \<times> client) option" where
  "client_poll_data cd w = client_call expect_items cd w PollData"

text \<open>The polling loop over the results of its polls; \<open>None\<close>: still polling. The handler tells whether
  to go on.\<close>

fun feed :: "('s \<Rightarrow> response_item \<Rightarrow> bool \<times> 's) \<Rightarrow> response_item list \<Rightarrow> 's \<Rightarrow> bool \<times> 's" where
  "feed handler [] s = (True, s)"
| "feed handler (item # items) s =
     (case handler s item of (True, s') \<Rightarrow> feed handler items s' | (False, s') \<Rightarrow> (False, s'))"

fun polling_loop ::
    "('s \<Rightarrow> response_item \<Rightarrow> bool \<times> 's) \<Rightarrow> (client_error + response_item list) list \<Rightarrow> 's
     \<Rightarrow> 's option" where
  "polling_loop handler [] s = None"
| "polling_loop handler (Inr items # polls) s =
     (case feed handler items s of
        (True, s') \<Rightarrow> polling_loop handler polls s'
      | (False, s') \<Rightarrow> Some s')"
| "polling_loop handler (Inl e # polls) s = polling_loop handler polls s"

section \<open>Lemmas\<close>

lemma first_clipboard_append:
  "first_clipboard (xs @ ys) = (case first_clipboard xs of Some s \<Rightarrow> Some s | None \<Rightarrow> first_clipboard ys)"
  by (induction xs rule: first_clipboard.induct) auto

lemma feed_append:
  "feed handler (xs @ ys) s =
   (case feed handler xs s of (True, s') \<Rightarrow> feed handler ys s' | (False, s') \<Rightarrow> (False, s'))"
  by (induction xs arbitrary: s) (auto split: prod.splits bool.splits)

section \<open>Properties\<close>

text \<open>C27. Reading the clipboard discards whatever was pending: the server answers with everything in
  its buffer followed by the clipboard and empties the buffer, and the client keeps only the first
  clipboard item. Connection events and data not yet polled are lost, and if an earlier clipboard item
  was pending the caller gets that one instead of the current content.\<close>

theorem clipboard_read_discards_pending:
  assumes "get_clipboard (rs_clipboard r) = Inr content"
  shows "rb_items (rs_buffer (snd (remote_handle_request env meanwhile GetClipboard r))) = [] \<and>
    expect_clipboard (fst (remote_handle_request env meanwhile GetClipboard r)) =
      Inr (case first_clipboard (rb_items (rs_buffer r)) of Some older \<Rightarrow> older | None \<Rightarrow> content)"
  using assms
  by (simp add: handle_get_clipboard_def rb_take_items_def expect_clipboard_def first_clipboard_append Let_def
      split: option.split)

theorem clipboard_read_discards_pending_witness:
  "expect_clipboard (fst (remote_handle_request quiet_env (\<lambda>r. r) GetClipboard
     ((remote_new \<lparr>clip_storage = ''new'', clip_poisoned = None\<rparr>)
        \<lparr>rs_buffer := add_port_forward_data (add_clipboard_content rb_new ''old'') 1 [7]\<rparr>))) = Inr ''old''"
proof -
  let ?r = "(remote_new \<lparr>clip_storage = ''new'', clip_poisoned = None\<rparr>)
        \<lparr>rs_buffer := add_port_forward_data (add_clipboard_content rb_new ''old'') 1 [7]\<rparr>"
  have "get_clipboard (rs_clipboard ?r) = Inr ''new''"
    by (simp add: get_clipboard_def remote_new_def)
  from clipboard_read_discards_pending [OF this, of quiet_env "\<lambda>r. r"] show ?thesis
    by (simp add: rb_new_def)
qed

text \<open>The polling loop returns only when the handler asks it to, and never because of an error: with
  polls that all fail it goes on for ever, and in general its result is that of feeding the handler
  the items of the successful polls, the failed ones being skipped.\<close>

theorem polling_loop_skips_errors:
  "polling_loop handler polls s =
     (case feed handler (concat (map (case_sum (\<lambda>_. []) id) polls)) s of
        (True, _) \<Rightarrow> None
      | (False, s') \<Rightarrow> Some s')"
proof (induction polls arbitrary: s)
  case (Cons p polls)
  then show ?case
    by (cases p) (auto simp: feed_append split: prod.splits bool.splits)
qed simp

end
