(* ===== verification/Daemon.thy ===== *)
theory Daemon
  imports Manager Daemon_Protocol Channel
begin

text \<open>
  \<open>crates/client/src/daemon/handler.rs\<close> and \<open>server.rs\<close>: the request handler of the daemon over the
  session manager, the loop that serves one client and the loop that accepts clients.

  A client connection is a placeholder object in the source (\<open>Box<dyn Any>\<close> of unit), so the map of
  active clients holds units. \<open>show_id\<close> renders an id and \<open>show_time\<close> is the \<open>Debug\<close> rendering of a
  \<open>SystemTime\<close>; \<open>now\<close> and \<open>fresh\<close> are the clock reading and the generated id of the request.
\<close>

section \<open>Handler\<close>

record handler =
  session_manager :: manager
  active_clients :: "(session_id, unit) hashmap"

definition handler_new :: "manager \<Rightarrow> handler" where
  "handler_new mg = \<lparr>session_manager = mg, active_clients = []\<rparr>"

text \<open>An operation of the manager run by the handler.\<close>

definition via_manager :: "(manager \<Rightarrow> 'a \<times> manager) \<Rightarrow> handler \<Rightarrow> 'a \<times> handler" where
  "via_manager f h = (let (a, mg) = f (session_manager h) in (a, h\<lparr>session_manager := mg\<rparr>))"

definition connect_client ::
    "(session_id \<Rightarrow> string) \<Rightarrow> time \<Rightarrow> session_id \<Rightarrow> handler \<Rightarrow> (yuha_error + unit) \<times> handler" where
  "connect_client show_id now i h =
     (case via_manager (update_session_status show_id now i Connecting) h of
        (Inl e, h1) \<Rightarrow> (Inl e, h1)
      | (Inr _, h1) \<Rightarrow>
          via_manager (update_session_status show_id now i Active)
            (h1\<lparr>active_clients := hm_insert i () (active_clients h1)\<rparr>))"

text \<open>The session a pool offers, once it has been marked as used.\<close>

definition try_reuse ::
    "(session_id \<Rightarrow> string) \<Rightarrow> time \<Rightarrow> string \<Rightarrow> manager \<Rightarrow> session_id option \<times> manager" where
  "try_reuse show_id now key mg =
     (case find_reusable_session now key mg of
        None \<Rightarrow> (None, mg)
      | Some i \<Rightarrow>
          (case use_session show_id now i mg of
             (Inr _, mg1) \<Rightarrow> (Some i, mg1)
           | (Inl _, mg1) \<Rightarrow> (None, mg1)))"

definition handle_create_session ::
    "(session_id \<Rightarrow> string) \<Rightarrow> time \<Rightarrow> session_id \<Rightarrow> string \<Rightarrow> transport_config \<Rightarrow> string list
     \<Rightarrow> string option \<Rightarrow> handler \<Rightarrow> daemon_response \<times> handler" where
  "handle_create_session show_id now fresh name tc tags description h =
     (case via_manager (try_reuse show_id now (connection_key tc)) h of
        (Some i, h1) \<Rightarrow> (SessionCreated i True, h1)
      | (None, h1) \<Rightarrow>
          (case via_manager (create_session now fresh name tc tags description) h1 of
             (Inl e, h2) \<Rightarrow> (DaemonError CodeMaxSessionsReached (show_error e), h2)
           | (Inr i, h2) \<Rightarrow>
               (case connect_client show_id now i h2 of
                  (Inl e, h3) \<Rightarrow>
                    (DaemonError CodeConnectionFailed (''Failed to establish connection: '' @ show_error e),
                     snd (via_manager (close_session show_id now i) h3))
                | (Inr _, h3) \<Rightarrow> (SessionCreated i False, h3))))"

text \<open>The loop of \<open>handle_connect_session\<close> over the listing.\<close>

fun connect_by_name ::
    "(session_id \<Rightarrow> string) \<Rightarrow> time \<Rightarrow> string \<Rightarrow> session_metadata list \<Rightarrow> manager
     \<Rightarrow> session_id option \<times> manager" where
  "connect_by_name show_id now name [] mg = (None, mg)"
| "connect_by_name show_id now name (s # ss) mg =
     (if sm_name s = name \<and> sm_status s = Active
      then (case use_session show_id now (sm_id s) mg of
              (Inr _, mg1) \<Rightarrow> (Some (sm_id s), mg1)
            | (Inl _, mg1) \<Rightarrow> connect_by_name show_id now name ss mg1)
      else connect_by_name show_id now name ss mg)"

definition handle_connect_session ::
    "(session_id \<Rightarrow> string) \<Rightarrow> time \<Rightarrow> session_id \<Rightarrow> string \<Rightarrow> transport_config \<Rightarrow> handler
     \<Rightarrow> daemon_response \<times> handler" where
  "handle_connect_session show_id now fresh name tc h =
     (case via_manager (connect_by_name show_id now name (list_sessions (session_manager h))) h of
        (Some i, h1) \<Rightarrow> (SessionCreated i True, h1)
      | (None, h1) \<Rightarrow> handle_create_session show_id now fresh name tc [] None h1)"

definition handle_disconnect_session ::
    "(session_id \<Rightarrow> string) \<Rightarrow> time \<Rightarrow> session_id \<Rightarrow> handler \<Rightarrow> daemon_response \<times> handler" where
  "handle_disconnect_session show_id now i h =
     (case via_manager (update_session_status show_id now i Idle)
             (h\<lparr>active_clients := hm_remove i (active_clients h)\<rparr>) of
        (Inr _, h1) \<Rightarrow> (SessionDisconnected, h1)
      | (Inl e, h1) \<Rightarrow> (DaemonError CodeSessionNotFound (show_error e), h1))"

definition summary_of :: "(time \<Rightarrow> string) \<Rightarrow> session_metadata \<Rightarrow> session_summary" where
  "summary_of show_time m =
     \<lparr>sum_id = sm_id m, sum_name = sm_name m, sum_connection_key = session_key m,
      sum_status = debug_status (sm_status m), sum_created_at = show_time (sm_created_at m),
      sum_last_used = show_time (sm_last_used m), sum_use_count = sm_use_count m\<rparr>"

definition handle_list_sessions :: "(time \<Rightarrow> string) \<Rightarrow> handler \<Rightarrow> daemon_response" where
  "handle_list_sessions show_time h =
     SessionList (map (summary_of show_time) (list_sessions (session_manager h)))"

definition details_of :: "(time \<Rightarrow> string) \<Rightarrow> session_metadata \<Rightarrow> session_details" where
  "details_of show_time m =
     \<lparr>det_id = sm_id m, det_name = sm_name m, det_transport_config = sm_transport_config m,
      det_status = debug_status (sm_status m), det_created_at = show_time (sm_created_at m),
      det_last_used = show_time (sm_last_used m), det_use_count = sm_use_count m,
      det_tags = sm_tags m, det_description = sm_description m, det_active_port_forwards = []\<rparr>"

definition handle_get_session_info ::
    "(session_id \<Rightarrow> string) \<Rightarrow> (time \<Rightarrow> string) \<Rightarrow> session_id \<Rightarrow> handler \<Rightarrow> daemon_response" where
  "handle_get_session_info show_id show_time i h =
     (case get_session i (session_manager h) of
        Some m \<Rightarrow> SessionInfo (details_of show_time m)
      | None \<Rightarrow> DaemonError CodeSessionNotFound (''Session '' @ show_id i @ '' not found''))"

fun execute_command_on_client :: "daemon_command \<Rightarrow> yuha_error + command_result" where
  "execute_command_on_client DcGetClipboard =
     Inr (CmdClipboardContent ''Clipboard content placeholder'')"
| "execute_command_on_client (DcSetClipboard _) = Inr CmdClipboardSet"
| "execute_command_on_client (DcOpenBrowser _) = Inr CmdBrowserOpened"
| "execute_command_on_client (DcStartPortForward _ _ _) = Inr CmdPortForwardStarted"
| "execute_command_on_client (DcStopPortForward _) = Inr CmdPortForwardStopped"
| "execute_command_on_client (DcPortForwardData _ _) = Inr CmdPortForwardDataSent"

definition handle_execute_command ::
    "(session_id \<Rightarrow> string) \<Rightarrow> time \<Rightarrow> session_id \<Rightarrow> daemon_command \<Rightarrow> handler
     \<Rightarrow> daemon_response \<times> handler" where
  "handle_execute_command show_id now i command h =
     (case hm_get (active_clients h) i of
        None \<Rightarrow> (DaemonError CodeSessionNotFound (''Session '' @ show_id i @ '' not connected''), h)
      | Some _ \<Rightarrow>
          let h1 = snd (via_manager (use_session show_id now i) h)
          in case execute_command_on_client command of
               Inr result \<Rightarrow> (CommandSuccess result, h1)
             | Inl e \<Rightarrow> (DaemonError CodeCommandFailed (show_error e), h1))"

fun handle_request ::
    "(session_id \<Rightarrow> string) \<Rightarrow> (time \<Rightarrow> string) \<Rightarrow> time \<Rightarrow> session_id \<Rightarrow> daemon_request \<Rightarrow> handler
     \<Rightarrow> daemon_response \<times> handler" where
  "handle_request show_id show_time now fresh Ping h = (Pong, h)"
| "handle_request show_id show_time now fresh (CreateSession name tc tags description) h =
     handle_create_session show_id now fresh name tc tags description h"
| "handle_request show_id show_time now fresh (ConnectSession name tc) h =
     handle_connect_session show_id now fresh name tc h"
| "handle_request show_id show_time now fresh (DisconnectSession i) h =
     handle_disconnect_session show_id now i h"
| "handle_request show_id show_time now fresh ListSessions h = (handle_list_sessions show_time h, h)"
| "handle_request show_id show_time now fresh (GetSessionInfo i) h =
     (handle_get_session_info show_id show_time i h, h)"
| "handle_request show_id show_time now fresh (ExecuteCommand i command) h =
     handle_execute_command show_id now i command h"
| "handle_request show_id show_time now fresh Shutdown h = (ShuttingDown, h)"

section \<open>Server\<close>

definition server_session_config :: "daemon_config \<Rightarrow> manager_config" where
  "server_session_config c = manager_config_default
     \<lparr>cfg_pool := pool_config_default
        \<lparr>pool_enabled := enable_session_pooling c, max_sessions_per_connection := 5,
         max_total_sessions := 50, min_idle_time := session_idle_timeout c\<rparr>,
      cfg_lifecycle := lifecycle_config_default\<lparr>max_idle_time := from_secs (session_idle_timeout c)\<rparr>\<rparr>"

record server =
  sv_config :: daemon_config
  sv_handler :: handler
  sv_shutdown :: bool

definition server_new :: "daemon_config \<Rightarrow> server" where
  "server_new c =
     \<lparr>sv_config = c, sv_handler = handler_new (manager_new (server_session_config c)),
      sv_shutdown = False\<rparr>"

text \<open>
  The loop that serves one client. An event is what one turn of it meets: the result of
  \<open>channel.receive\<close>, the clock and id of the request, and how the write of the answer fares. The
  result lists the answers written, and tells whether the loop is over.
\<close>

record client_event =
  ev_received :: "yuha_error + bytes"
  ev_now :: time
  ev_fresh :: session_id
  ev_write :: write_outcome

datatype turn = Continue | Break

definition answer :: "write_outcome \<Rightarrow> bytes \<Rightarrow> channel \<Rightarrow> turn \<times> channel" where
  "answer w json ch = (case send w json ch of (Inr _, ch') \<Rightarrow> (Continue, ch') | (Inl _, ch') \<Rightarrow> (Break, ch'))"

definition client_turn ::
    "(session_id \<Rightarrow> string) \<Rightarrow> (time \<Rightarrow> string) \<Rightarrow> (bytes \<Rightarrow> string + daemon_request)
     \<Rightarrow> (daemon_response \<Rightarrow> string + bytes) \<Rightarrow> client_event \<Rightarrow> server \<times> channel
     \<Rightarrow> turn \<times> server \<times> channel" where
  "client_turn show_id show_time from_slice to_vec ev st =
     (let (sv, ch) = st
      in case ev_received ev of
           Inl _ \<Rightarrow> (Break, sv, ch)
         | Inr request_bytes \<Rightarrow>
             (case from_slice request_bytes of
                Inl _ \<Rightarrow> (Continue, sv, ch)
              | Inr request \<Rightarrow>
                  if request = Shutdown
                  then (case to_vec ShuttingDown of
                          Inr json \<Rightarrow> (Break, sv\<lparr>sv_shutdown := True\<rparr>, snd (answer (ev_write ev) json ch))
                        | Inl _ \<Rightarrow> (Break, sv\<lparr>sv_shutdown := True\<rparr>, ch))
                  else
                    let (response, h) =
                          handle_request show_id show_time (ev_now ev) (ev_fresh ev) request (sv_handler sv);
                        sv1 = sv\<lparr>sv_handler := h\<rparr>
                    in case to_vec response of
                         Inl _ \<Rightarrow> (Continue, sv1, ch)
                       | Inr json \<Rightarrow>
                           (let (t, ch1) = answer (ev_write ev) json ch in (t, sv1, ch1))))"

fun handle_client ::
    "(session_id \<Rightarrow> string) \<Rightarrow> (time \<Rightarrow> string) \<Rightarrow> (bytes \<Rightarrow> string + daemon_request)
     \<Rightarrow> (daemon_response \<Rightarrow> string + bytes) \<Rightarrow> client_event list \<Rightarrow> server \<times> channel
     \<Rightarrow> server \<times> channel" where
  "handle_client show_id show_time from_slice to_vec [] st = st"
| "handle_client show_id show_time from_slice to_vec (ev # evs) st =
     (case client_turn show_id show_time from_slice to_vec ev st of
        (Continue, st1) \<Rightarrow> handle_client show_id show_time from_slice to_vec evs st1
      | (Break, st1) \<Rightarrow> st1)"

text \<open>
  The accept loop: each event is the value of the shutdown flag at the top of the turn and whether
  \<open>accept\<close> succeeds. The result lists the ids of the clients that get a task. The source counts the
  connections in a \<open>u32\<close> that it never decrements.
\<close>

fun accept_loop :: "u32 \<Rightarrow> (bool \<times> bool) list \<Rightarrow> u32 \<Rightarrow> u32 list" where
  "accept_loop limit [] client_count = []"
| "accept_loop limit ((shutdown, accepted) # evs) client_count =
     (if shutdown then []
      else if \<not> accepted then accept_loop limit evs client_count
      else let client_count' = client_count + 1
           in if client_count' > limit then accept_loop limit evs client_count'
              else client_count' # accept_loop limit evs client_count')"

text \<open>
  \<open>DaemonServer::run\<close> on Unix around that loop: whether the socket file exists at the start, whether it
  can be removed, whether the bind succeeds, and whether the file exists at the end are answers of the
  system. \<open>None\<close> while the loop has not seen the shutdown flag. A failure before the loop leaves the
  cleanup task running.
\<close>

datatype run_error = RemoveFailed string | BindFailed string

record run_outcome =
  ro_result :: "(run_error + u32 list) option"
  ro_removed :: nat
  ro_server :: server

definition with_cleanup :: "(manager \<Rightarrow> manager) \<Rightarrow> server \<Rightarrow> server" where
  "with_cleanup f sv =
     sv\<lparr>sv_handler := (sv_handler sv)\<lparr>session_manager := f (session_manager (sv_handler sv))\<rparr>\<rparr>"

definition server_run :: "bool \<Rightarrow> bool \<Rightarrow> bool \<Rightarrow> (bool \<times> bool) list \<Rightarrow> bool \<Rightarrow> server \<Rightarrow> run_outcome" where
  "server_run exists removable bindable evs remains sv =
     (let path = socket_path (sv_config sv);
          sv1 = with_cleanup (\<lambda>mg. snd (mgr_start_cleanup_task mg)) sv;
          removals = (if exists then 1 else 0)
      in if exists \<and> \<not> removable
         then \<lparr>ro_result = Some (Inl (RemoveFailed path)), ro_removed = 0, ro_server = sv1\<rparr>
         else if \<not> bindable
         then \<lparr>ro_result = Some (Inl (BindFailed path)), ro_removed = removals, ro_server = sv1\<rparr>
         else if \<not> list_ex fst evs
         then \<lparr>ro_result = None, ro_removed = removals, ro_server = sv1\<rparr>
         else \<lparr>ro_result = Some (Inr (accept_loop (max_clients (sv_config sv1)) evs 0)),
                ro_removed = removals + (if remains then 1 else 0),
                ro_server = with_cleanup mgr_stop_cleanup_task sv1\<rparr>)"

lemma server_run_cleanup_task:
  "cleanup_running (mgr_lifecycle (session_manager (sv_handler (ro_server
      (server_run exists removable bindable evs remains sv))))) \<longleftrightarrow>
   (\<forall>served. ro_result (server_run exists removable bindable evs remains sv) \<noteq> Some (Inr served))"
  by (simp add: server_run_def with_cleanup_def mgr_start_cleanup_task_def mgr_stop_cleanup_task_def
      lc_start_cleanup_def lc_stop_cleanup_def Let_def)

section \<open>The daemon drives the manager\<close>

text \<open>
  Requests of any clients and passes of the cleanup task, each run to its end before the next one starts. The
  source gives every client a task of its own over the one shared handler; this is what it does as long as no
  two of these tasks are inside a request at the same time. What overlapping operations of the manager do is the
  subject of \<open>Manager_Race\<close> and \<open>Registry_Race\<close>.
\<close>

inductive serial_run :: "daemon_config \<Rightarrow> handler \<Rightarrow> bool" for c where
  dr_start: "serial_run c (sv_handler (server_new c))"
| dr_request: "serial_run c h \<Longrightarrow> \<not> session_exists fresh (session_manager h) \<Longrightarrow>
    serial_run c (snd (handle_request show_id show_time now fresh req h))"
| dr_cleanup: "serial_run c h \<Longrightarrow>
    serial_run c (h\<lparr>session_manager := snd (cleanup_pass now (session_manager h))\<rparr>)"

lemma via_manager_simps [simp]:
  "fst (via_manager f h) = fst (f (session_manager h))"
  "session_manager (snd (via_manager f h)) = snd (f (session_manager h))"
  "active_clients (snd (via_manager f h)) = active_clients h"
  by (simp_all add: via_manager_def split: prod.splits)

lemma via_manager_eq:
  "via_manager f h = (fst (f (session_manager h)), h\<lparr>session_manager := snd (f (session_manager h))\<rparr>)"
  by (simp add: via_manager_def split: prod.splits)

text \<open>Ids that are not registered stay so under the operations used before a session is created.\<close>

lemma exists_status [simp]:
  "session_exists j (snd (update_session_status show_id now i s mg)) = session_exists j mg"
  by (auto simp: session_exists_get get_session_status)

lemma get_session_reg [simp]: "get_session j (mg\<lparr>mgr_registry := r\<rparr>) = reg_get r j"
  by (simp add: get_session_def)

lemma exists_use [simp]: "session_exists j (snd (use_session show_id now i mg)) = session_exists j mg"
proof (cases "reg_mark_used show_id now (mgr_registry mg) i")
  case (Inr r)
  then have "reg_get r j = None \<longleftrightarrow> get_session j mg = None"
    using registered_modify [of show_id "mark_used now" _ i r] by (simp add: reg_mark_used_def get_session_def)
  with Inr show ?thesis
    by (auto simp: use_session_def Let_def session_exists_get get_session_status split: option.splits)
qed (simp add: use_session_def)

lemma exists_reuse [simp]: "session_exists j (snd (try_reuse show_id now key mg)) = session_exists j mg"
  by (simp add: try_reuse_def case_prod_unfold split: option.split sum.split)

lemma exists_by_name [simp]:
  "session_exists j (snd (connect_by_name show_id now name ss mg)) = session_exists j mg"
  by (induction ss arbitrary: mg) (simp_all add: case_prod_unfold split: sum.split)

text \<open>Every operation of the handler is a sequence of operations of the manager.\<close>

lemma run_reuse: "manager_run kept c mg \<Longrightarrow> manager_run kept c (snd (try_reuse show_id now key mg))"
  by (simp add: try_reuse_def case_prod_unfold mr_use split: option.split sum.split)

lemma run_by_name: "manager_run kept c mg \<Longrightarrow> manager_run kept c (snd (connect_by_name show_id now name ss mg))"
  by (induction ss arbitrary: mg) (simp_all add: case_prod_unfold mr_use split: sum.split)

lemma run_connect:
  "manager_run kept c (session_manager h) \<Longrightarrow> manager_run kept c (session_manager (snd (connect_client show_id now i h)))"
  by (simp add: connect_client_def case_prod_unfold mr_status split: sum.split)

lemma run_create_request:
  assumes run: "manager_run kept c (session_manager h)" and fresh: "\<not> session_exists fresh (session_manager h)"
  shows "manager_run kept c (session_manager (snd (handle_create_session show_id now fresh name tc tags d h)))"
  using run_reuse [OF run] fresh
  by (simp add: handle_create_session_def case_prod_unfold mr_create mr_close run_connect
      split: option.split sum.split)

lemma run_request:
  assumes "manager_run kept c (session_manager h)" and "\<not> session_exists fresh (session_manager h)"
  shows "manager_run kept c (session_manager (snd (handle_request show_id show_time now fresh req h)))"
proof (cases req)
  case (CreateSession name tc tags d)
  then show ?thesis
    using run_create_request [OF assms] by simp
next
  case (ConnectSession name tc)
  then show ?thesis
    using assms
    by (simp add: handle_connect_session_def case_prod_unfold run_by_name run_create_request split: option.split)
next
  case (DisconnectSession i)
  then show ?thesis
    using assms(1) by (simp add: handle_disconnect_session_def case_prod_unfold mr_status split: sum.split)
next
  case (ExecuteCommand i command)
  then show ?thesis
    using assms(1) by (simp add: handle_execute_command_def Let_def mr_use split: option.split sum.split)
qed (use assms(1) in simp_all)

lemma serial_run_manager: "serial_run c h \<Longrightarrow> manager_run True (server_session_config c) (session_manager h)"
proof (induction rule: serial_run.induct)
  case dr_start
  show ?case by (simp add: server_new_def handler_new_def mr_new)
qed (simp_all add: run_request mr_cleanup)

section \<open>Pooled sessions have no client\<close>

definition connected :: "handler \<Rightarrow> session_id set" where
  "connected h = {i. hm_get (active_clients h) i \<noteq> None}"

definition pooled :: "handler \<Rightarrow> session_id set" where
  "pooled h = pooled_ids (mgr_pool (session_manager h))"

lemma pool_status:
  assumes "manager_run kept c mg"
  shows "pooled_ids (mgr_pool (snd (update_session_status show_id now i s mg)))
    \<subseteq> (if s = Idle then insert i (pooled_ids (mgr_pool mg))
       else if s = Active then pooled_ids (mgr_pool mg) - {i} else pooled_ids (mgr_pool mg)) \<or>
    get_session i mg = None"
proof (cases "get_session i mg")
  case (Some m)
  then obtain r where r: "update_status show_id now (mgr_registry mg) i s = Inr r"
    using update_status_total [of "mgr_registry mg" i m] unfolding get_session_def by blast
  have id: "sm_id m' = i" if "reg_get r i = Some m'" for m'
    using that r Some registry_wfD(2) [OF registry_soundD(1) [OF manager_invD(1) [OF manager_run_inv [OF assms]]]]
    by (auto simp: update_status_def reg_modify_Inr reg_get_def get_session_def)
  show ?thesis
    using status_step [OF Some [unfolded get_session_def] r] id reuse.pooled_add reuse.pooled_remove
    by (auto simp: repool_def split: session_status.splits option.splits if_splits)
qed simp

lemma pool_status_absent:
  "get_session i mg = None \<Longrightarrow> snd (update_session_status show_id now i s mg) = mg"
  by (simp add: update_session_status_def get_session_def)

lemma pool_status_le:
  "manager_run kept c mg \<Longrightarrow> s \<noteq> Idle \<Longrightarrow>
   pooled_ids (mgr_pool (snd (update_session_status show_id now i s mg))) \<subseteq> pooled_ids (mgr_pool mg)"
  using pool_status [of kept c mg show_id now i s] pool_status_absent [of i mg show_id now s]
  by (auto split: if_splits)

lemma pool_use_le:
  assumes "manager_run kept c mg"
  shows "pooled_ids (mgr_pool (snd (use_session show_id now i mg))) \<subseteq> pooled_ids (mgr_pool mg)"
  using reuse.pooled_remove
  by (auto simp: use_session_def update_session_status_def repool_def Let_def split: sum.splits option.splits)

lemma pool_create:
  "mgr_pool (snd (create_session now i name tc tags d mg)) = mgr_pool mg"
  by (auto simp: create_session_def Let_def split: sum.splits prod.splits)

lemma pool_expires_le:
  "pooled_ids (mgr_pool (snd (fold (expire_one now) ss acc))) \<subseteq> pooled_ids (mgr_pool (snd acc))"
proof (induction ss arbitrary: acc)
  case (Cons s ss)
  have "pooled_ids (mgr_pool (snd (expire_one now s acc))) \<subseteq> pooled_ids (mgr_pool (snd acc))"
    by (auto simp: expire_one_eq reuse.pooled_remove)
  with Cons.IH [of "expire_one now s acc"] show ?case
    by auto
qed simp

lemma pool_cleanup_le: "pooled_ids (mgr_pool (snd (cleanup_pass now mg))) \<subseteq> pooled_ids (mgr_pool mg)"
proof -
  let ?mg1 = "snd (fold (expire_one now) (list_all_sessions (mgr_registry mg)) ([], mg))"
  have "pooled_ids (mgr_pool (snd (cleanup_pass now mg))) \<subseteq> pooled_ids (mgr_pool ?mg1)"
    by (auto simp: cleanup_pass_def Let_def case_prod_unfold reuse.pooled_expire)
  with pool_expires_le show ?thesis
    by fastforce
qed

text \<open>The ids of the pool are registered ids, so a fresh id is not pooled.\<close>

lemma pooled_exists:
  "manager_run kept c mg \<Longrightarrow> i \<in> pooled_ids (mgr_pool mg) \<Longrightarrow> session_exists i mg"
  using manager_invD(2) [OF manager_run_inv, of kept c mg]
  by (auto simp: reuse.within_def registered_def session_exists_iff)

definition apart :: "handler \<Rightarrow> bool" where
  "apart h \<longleftrightarrow> pooled h \<inter> connected h = {}"

lemma apartI:
  "apart h \<Longrightarrow> pooled h' \<subseteq> pooled h \<Longrightarrow> connected h' \<subseteq> connected h \<Longrightarrow> apart h'"
  by (auto simp: apart_def)

lemma via_manager_sets [simp]:
  "pooled (snd (via_manager f h)) = pooled_ids (mgr_pool (snd (f (session_manager h))))"
  "connected (snd (via_manager f h)) = connected h"
  by (simp_all add: pooled_def connected_def)

lemma apart_via:
  "apart h \<Longrightarrow> pooled_ids (mgr_pool (snd (f (session_manager h)))) \<subseteq> pooled_ids (mgr_pool (session_manager h)) \<Longrightarrow>
   apart (snd (via_manager f h))"
  by (rule apartI [of h]) (simp_all add: pooled_def)

lemma pool_reuse_le:
  "manager_run kept c mg \<Longrightarrow> pooled_ids (mgr_pool (snd (try_reuse show_id now key mg))) \<subseteq> pooled_ids (mgr_pool mg)"
  by (simp add: try_reuse_def case_prod_unfold pool_use_le split: option.split sum.split)

lemma pool_by_name_le:
  "manager_run kept c mg \<Longrightarrow>
   pooled_ids (mgr_pool (snd (connect_by_name show_id now name ss mg))) \<subseteq> pooled_ids (mgr_pool mg)"
proof (induction ss arbitrary: mg)
  case (Cons s ss)
  have "manager_run kept c (snd (use_session show_id now (sm_id s) mg))"
    using Cons.prems by (rule mr_use)
  from Cons.IH [OF this] Cons.IH [OF Cons.prems] pool_use_le [OF Cons.prems, of show_id now "sm_id s"]
  show ?case
    by (simp add: case_prod_unfold split: sum.split) blast
qed simp

lemma pool_close_le:
  assumes "manager_run kept c mg"
  shows "pooled_ids (mgr_pool (snd (close_session show_id now i mg))) \<subseteq> pooled_ids (mgr_pool mg)"
  using pool_status_le [OF assms, of Closing show_id now i]
  by (auto simp: close_session_def case_prod_unfold reuse.pooled_remove split: sum.splits)

lemma apart_connect:
  assumes run: "manager_run kept c (session_manager h)" and "apart h" and new: "i \<notin> pooled h"
  shows "apart (snd (connect_client show_id now i h))"
proof -
  let ?mg1 = "snd (update_session_status show_id now i Connecting (session_manager h))"
  have run1: "manager_run kept c ?mg1"
    using run by (rule mr_status)
  have le: "pooled_ids (mgr_pool ?mg1) \<subseteq> pooled h"
    unfolding pooled_def using run by (rule pool_status_le) simp
  have le2: "pooled_ids (mgr_pool (snd (update_session_status show_id now i Active ?mg1))) \<subseteq> pooled_ids (mgr_pool ?mg1)"
    using run1 by (rule pool_status_le) simp
  show ?thesis
    using le le2 assms(2) new
    by (auto simp: connect_client_def case_prod_unfold apart_def split: sum.split)
      (auto simp: connected_def split: if_splits)
qed

lemma apart_create:
  assumes run: "manager_run kept c (session_manager h)" and "apart h"
    and fresh: "\<not> session_exists fresh (session_manager h)"
  shows "apart (snd (handle_create_session show_id now fresh name tc tags d h))"
proof -
  let ?h1 = "snd (via_manager (try_reuse show_id now (connection_key tc)) h)"
  let ?h2 = "snd (via_manager (create_session now fresh name tc tags d) ?h1)"
  have run1: "manager_run kept c (session_manager ?h1)" and f1: "\<not> session_exists fresh (session_manager ?h1)"
    using run_reuse [OF run] fresh by simp_all
  then have run2: "manager_run kept c (session_manager ?h2)"
    using mr_create by simp
  have a1: "apart ?h1"
    by (rule apart_via [OF assms(2)]) (rule pool_reuse_le [OF run])
  have p2: "pooled ?h2 = pooled ?h1"
    by (simp add: pool_create)
  then have a2: "apart ?h2"
    using apartI [OF a1, of ?h2] by simp
  have "fresh \<notin> pooled ?h2"
    unfolding p2 using pooled_exists [OF run1, of fresh] f1 by (auto simp: pooled_def)
  from apart_connect [OF run2 a2 this] have a3: "apart (snd (connect_client show_id now fresh ?h2))" for show_id now .
  have "apart (snd (via_manager (close_session show_id now fresh) (snd (connect_client show_id now fresh ?h2))))"
    by (rule apart_via [OF a3]) (rule pool_close_le [OF run_connect [OF run2]])
  moreover have "i = fresh" if "fst (create_session now fresh name tc tags d mg) = Inr i" for i mg
    using that by (auto simp: create_session_def Let_def split: sum.splits prod.splits)
  ultimately show ?thesis
    using a1 a2 a3 by (auto simp: handle_create_session_def case_prod_unfold split: option.split sum.split)
qed

lemma apart_request:
  assumes run: "manager_run kept c (session_manager h)" and apart: "apart h"
    and fresh: "\<not> session_exists fresh (session_manager h)"
  shows "apart (snd (handle_request show_id show_time now fresh req h))"
proof (cases req)
  case (CreateSession name tc tags d)
  then show ?thesis
    using apart_create [OF assms] by simp
next
  case (ConnectSession name tc)
  let ?h1 = "snd (via_manager (connect_by_name show_id now name (list_sessions (session_manager h))) h)"
  have "apart ?h1"
    by (rule apart_via [OF apart]) (rule pool_by_name_le [OF run])
  moreover have "manager_run kept c (session_manager ?h1)" and "\<not> session_exists fresh (session_manager ?h1)"
    using run_by_name [OF run] fresh by simp_all
  ultimately show ?thesis
    using apart_create ConnectSession
    by (simp add: handle_connect_session_def case_prod_unfold split: option.split)
next
  case (DisconnectSession i)
  let ?h1 = "h\<lparr>active_clients := hm_remove i (active_clients h)\<rparr>"
  let ?mg = "snd (update_session_status show_id now i Idle (session_manager h))"
  have "snd (handle_request show_id show_time now fresh req h) = ?h1\<lparr>session_manager := ?mg\<rparr>"
    using DisconnectSession
    by (simp add: handle_disconnect_session_def case_prod_unfold via_manager_eq split: sum.split)
  moreover have "pooled_ids (mgr_pool ?mg) \<subseteq> insert i (pooled h)"
    using pool_status [OF run, of show_id now i Idle] pool_status_absent [of i "session_manager h" show_id now Idle]
    by (auto simp: pooled_def)
  ultimately show ?thesis
    using apart by (auto simp: apart_def pooled_def connected_def)
next
  case (ExecuteCommand i command)
  have "apart (snd (via_manager (use_session show_id now i) h))"
    by (rule apart_via [OF apart]) (rule pool_use_le [OF run])
  with ExecuteCommand apart show ?thesis
    by (simp add: handle_execute_command_def Let_def split: option.split sum.split)
qed (use apart in simp_all)

lemma serial_run_apart: "serial_run c h \<Longrightarrow> apart h"
proof (induction rule: serial_run.induct)
  case dr_start
  show ?case
    by (simp add: server_new_def handler_new_def apart_def connected_def)
next
  case (dr_request h fresh show_id show_time now req)
  then show ?case
    using apart_request [OF serial_run_manager] by blast
next
  case (dr_cleanup h now)
  show ?case
    by (rule apartI [OF dr_cleanup.IH]) (use pool_cleanup_le in \<open>simp_all add: pooled_def connected_def\<close>)
qed

section \<open>Serving a client\<close>

text \<open>The specification of the loop: well-formed requests are handled one after another.\<close>

fun replies ::
    "(session_id \<Rightarrow> string) \<Rightarrow> (time \<Rightarrow> string) \<Rightarrow> (bytes \<Rightarrow> string + daemon_request)
     \<Rightarrow> (bytes \<times> time \<times> session_id) list \<Rightarrow> handler \<Rightarrow> daemon_response list \<times> handler" where
  "replies show_id show_time from_slice [] h = ([], h)"
| "replies show_id show_time from_slice ((payload, now, fresh) # evs) h =
     (case from_slice payload of
        Inl _ \<Rightarrow> replies show_id show_time from_slice evs h
      | Inr request \<Rightarrow>
          let (r, h1) = handle_request show_id show_time now fresh request h;
              (rs, h2) = replies show_id show_time from_slice evs h1
          in (r # rs, h2))"

definition arrival :: "bytes \<times> time \<times> session_id \<Rightarrow> client_event" where
  "arrival e = \<lparr>ev_received = Inr (fst e), ev_now = fst (snd e), ev_fresh = snd (snd e), ev_write = Written\<rparr>"

lemma answer_written:
  "length json \<le> u16_max \<Longrightarrow> answer Written json ch = (Continue, ch\<lparr>outgoing := outgoing ch @ frame json\<rparr>)"
  by (simp add: answer_def send_def)

lemma client_loop_replies:
  assumes "\<And>e. e \<in> set evs \<Longrightarrow> from_slice (fst e) \<noteq> Inr Shutdown"
    and "list_all2 (\<lambda>r json. to_vec r = Inr json \<and> length json \<le> u16_max)
      (fst (replies show_id show_time from_slice evs (sv_handler sv))) jsons"
  shows "handle_client show_id show_time from_slice to_vec (map arrival evs) (sv, ch) =
    (sv\<lparr>sv_handler := snd (replies show_id show_time from_slice evs (sv_handler sv))\<rparr>,
     ch\<lparr>outgoing := outgoing ch @ concat (map frame jsons)\<rparr>)"
  using assms
proof (induction evs arbitrary: sv ch jsons)
  case (Cons e evs)
  obtain payload now fresh where e: "e = (payload, now, fresh)"
    by (cases e)
  show ?case
  proof (cases "from_slice payload")
    case (Inl err)
    with Cons.IH [of sv jsons ch] Cons.prems show ?thesis
      by (simp add: e arrival_def client_turn_def)
  next
    case (Inr request)
    let ?r = "handle_request show_id show_time now fresh request (sv_handler sv)"
    have no: "request \<noteq> Shutdown"
      using Cons.prems(1) [of e] Inr by (auto simp: e)
    obtain json rest where j: "jsons = json # rest" "to_vec (fst ?r) = Inr json" "length json \<le> u16_max"
      and rest: "list_all2 (\<lambda>r json. to_vec r = Inr json \<and> length json \<le> u16_max)
        (fst (replies show_id show_time from_slice evs (snd ?r))) rest"
      using Cons.prems(2) Inr by (cases jsons) (auto simp: e case_prod_unfold Let_def)
    show ?thesis
      using Cons.IH [of "sv\<lparr>sv_handler := snd ?r\<rparr>" rest "ch\<lparr>outgoing := outgoing ch @ frame json\<rparr>"]
        Cons.prems(1) rest j no Inr
      by (simp add: e arrival_def client_turn_def answer_written case_prod_unfold Let_def)
  qed
qed simp

section \<open>Accepting clients\<close>

text \<open>The connections accepted before the shutdown flag is seen.\<close>

definition accepted :: "(bool \<times> bool) list \<Rightarrow> nat" where
  "accepted evs = length (filter snd (takeWhile (\<lambda>ev. \<not> fst ev) evs))"

lemma accept_loop_length:
  "length evs + unat n < 2 ^ 32 \<Longrightarrow>
   length (accept_loop limit evs n) = min (accepted evs) (unat limit - unat n)"
proof (induction evs arbitrary: n)
  case (Cons ev evs)
  have n1: "unat (n + 1) = Suc (unat n)"
    using Cons.prems by (intro unat_inc) simp
  show ?case
    using Cons.IH [of n] Cons.IH [of "n + 1"] Cons.prems
    by (cases ev) (auto simp: accepted_def Let_def n1 word_less_nat_alt)
qed (simp add: accepted_def)

section \<open>Properties\<close>

text \<open>C1. Handling requests one after another, the daemon refines the session manager: whatever the requests
  and however often the cleanup task runs between two of them, the state of its manager is one that the
  manager's own operations reach, so every guarantee of the manager holds in the daemon; and no session is at
  the same time offered for reuse and held by a client. Requests that overlap are not covered: two status
  updates inside one another can leave both guarantees broken (\<open>Manager_Race\<close>).\<close>

theorem serial_daemon_refines_manager:
  assumes "serial_run c h"
  shows "manager_run True (server_session_config c) (session_manager h) \<and>
    (is_pooled i (mgr_pool (session_manager h)) \<longrightarrow> hm_get (active_clients h) i = None)"
  using serial_run_manager [OF assms] serial_run_apart [OF assms]
  by (auto simp: apart_def pooled_def connected_def is_pooled_def pooled_ids_def)

theorem serial_daemon_refines_manager_witness:
  "manager_run True (server_session_config (daemon_config_default True))
     (session_manager (snd (handle_request (\<lambda>_. []) (\<lambda>_. []) 0 7
        (CreateSession ''s'' (sample_ssh ''bob'' ''h'') [] None)
        (sv_handler (server_new (daemon_config_default True))))))"
proof -
  have "serial_run (daemon_config_default True) (snd (handle_request (\<lambda>_. []) (\<lambda>_. []) 0 7
      (CreateSession ''s'' (sample_ssh ''bob'' ''h'') [] None)
      (sv_handler (server_new (daemon_config_default True)))))"
    by (rule dr_request [OF dr_start])
      (simp add: server_new_def handler_new_def manager_new_def session_exists_def reg_exists_def registry_new_def)
  from serial_daemon_refines_manager [OF this] show ?thesis
    by blast
qed

text \<open>C23. With requests handled one after another, a request to create a session has three outcomes. A pooled
  session is handed out as reused; or a new session is created, and it is active and a command on it succeeds;
  or the limit is reached, the state is unchanged and the code is \<open>MaxSessionsReached\<close>. The error
  \<open>ConnectionFailed\<close> never occurs.\<close>

theorem create_session_outcomes:
  assumes "serial_run c h" and "\<not> session_exists fresh (session_manager h)"
  shows "case fst (handle_create_session show_id now fresh name tc tags d h) of
      SessionCreated i True \<Rightarrow>
        find_reusable_session now (connection_key tc) (session_manager h) = Some i
    | SessionCreated i False \<Rightarrow> i = fresh \<and>
        (let h' = snd (handle_create_session show_id now fresh name tc tags d h) in
          map_option sm_status (get_session i (session_manager h')) = Some Active \<and>
          fst (handle_execute_command show_id later i DcGetClipboard h')
            = CommandSuccess (CmdClipboardContent ''Clipboard content placeholder''))
    | DaemonError code _ \<Rightarrow> code = CodeMaxSessionsReached \<and>
        snd (handle_create_session show_id now fresh name tc tags d h) = h
    | _ \<Rightarrow> False"
proof (cases "find_reusable_session now (connection_key tc) (session_manager h)")
  case (Some i)
  have "i \<in> registered (session_manager h)"
    using reuse.offered_is_known [OF manager_invD(2) [OF manager_run_inv [OF serial_run_manager [OF assms(1)]]]] Some
    by (simp add: find_reusable_session_def)
  then have "is_ok (fst (use_session show_id now i (session_manager h)))"
    by (auto simp: registered_def use_session_def reg_mark_used_def reg_modify_def reg_get_def Let_def
        update_session_status_def update_status_def with_metrics_def)
  then obtain u where "fst (use_session show_id now i (session_manager h)) = Inr u"
    by (cases "fst (use_session show_id now i (session_manager h))") simp_all
  then have "try_reuse show_id now (connection_key tc) (session_manager h)
      = (Some i, snd (use_session show_id now i (session_manager h)))"
    using Some by (simp add: try_reuse_def case_prod_unfold)
  with Some show ?thesis
    by (simp add: handle_create_session_def via_manager_eq)
next
  case None
  let ?mg = "session_manager h" and ?m = "metadata_new now fresh name tc tags d"
  have r: "try_reuse show_id now (connection_key tc) ?mg = (None, ?mg)"
    using None by (simp add: try_reuse_def)
  show ?thesis
  proof (cases "register_check (mgr_registry ?mg) ?m")
    case (Inl e)
    then show ?thesis
      by (simp add: handle_create_session_def r via_manager_eq create_session_def register_def Let_def)
  next
    case (Inr u)
    let ?mg2 = "snd (create_session now fresh name tc tags d ?mg)"
    have c: "fst (create_session now fresh name tc tags d ?mg) = Inr fresh"
      using Inr by (simp add: create_session_def register_def Let_def)
    have g: "get_session fresh ?mg2 \<noteq> None"
      using Inr by (simp add: get_session_created)
    then have "session_exists fresh ?mg2"
      by (simp add: session_exists_get)
    with g c show ?thesis
      by (auto simp: handle_create_session_def r via_manager_eq connect_client_def case_prod_unfold
          status_result get_session_status handle_execute_command_def Let_def)
  qed
qed

theorem create_session_outcomes_witness:
  "fst (handle_create_session (\<lambda>_. []) 0 7 ''s'' (sample_ssh ''bob'' ''h'') [] None
     (sv_handler (server_new (daemon_config_default True)))) \<noteq> DaemonError CodeConnectionFailed []"
proof -
  have "\<not> session_exists 7 (session_manager (sv_handler (server_new (daemon_config_default True))))"
    by (simp add: server_new_def handler_new_def manager_new_def session_exists_def reg_exists_def registry_new_def)
  from create_session_outcomes [OF dr_start this, where show_id = "\<lambda>_. []" and now = 0 and name = "''s''"
      and tc = "sample_ssh ''bob'' ''h''" and tags = "[]" and d = None]
  show ?thesis
    by (auto split: daemon_response.splits)
qed

text \<open>C22. With requests handled one after another, a session reused from the pool cannot execute anything: the
  disconnect that put it into the pool dropped its client, and reuse does not connect a new one, so the next
  command on it is answered with \<open>SessionNotFound\<close>.\<close>

theorem reused_session_cannot_execute:
  assumes "serial_run c h"
    and "fst (handle_create_session show_id now fresh name tc tags d h) = SessionCreated i True"
  shows "fst (handle_execute_command show_id later i command
      (snd (handle_create_session show_id now fresh name tc tags d h)))
    = DaemonError CodeSessionNotFound (''Session '' @ show_id i @ '' not connected'')"
proof -
  have t: "fst (try_reuse show_id now (connection_key tc) (session_manager h)) = Some i"
    using assms(2) by (auto simp: handle_create_session_def case_prod_unfold split: option.splits sum.splits)
  then have "find_reusable_session now (connection_key tc) (session_manager h) = Some i"
    by (auto simp: try_reuse_def case_prod_unfold split: option.splits sum.splits)
  then have "i \<in> pooled h"
    using reuse.find_pooled by (simp add: find_reusable_session_def pooled_def)
  then have "hm_get (active_clients h) i = None"
    using serial_run_apart [OF assms(1)] by (auto simp: apart_def connected_def)
  with t show ?thesis
    by (simp add: handle_create_session_def case_prod_unfold handle_execute_command_def)
qed

text \<open>A session created, disconnected, and asked for again when it is old enough for reuse.\<close>

definition reconnecting :: handler where
  "reconnecting =
     (let c = (daemon_config_default True)\<lparr>session_idle_timeout := 0\<rparr>;
          step = (\<lambda>req. handle_request (\<lambda>_. []) (\<lambda>_. []) 0 7 req);
          h1 = snd (step (CreateSession ''s'' (sample_ssh ''bob'' ''h'') [] None) (sv_handler (server_new c)))
      in snd (handle_request (\<lambda>_. []) (\<lambda>_. []) 0 8 (DisconnectSession 7) h1))"

lemmas session_run_defs =
  server_new_def handler_new_def manager_new_def server_session_config_def manager_config_default_def
  handle_create_session_def via_manager_eq try_reuse_def daemon_config_default_def pool_config_default_def
  find_reusable_session_def find_session_def pool_new_def create_session_def register_def register_check_def
  registry_new_def registry_config_default_def connect_client_def update_session_status_def
  register_commit_def reg_get_def update_status_def reg_modify_def Let_def repool_def with_metrics_def
  pool_remove_def remove_session_def handle_disconnect_session_def hm_insert_def hm_get_def started_def
  set_status_def metadata_new_def session_exists_def reg_exists_def

lemma reconnecting_run: "serial_run ((daemon_config_default True)\<lparr>session_idle_timeout := 0\<rparr>) reconnecting"
proof -
  let ?c = "(daemon_config_default True)\<lparr>session_idle_timeout := 0\<rparr>"
  let ?h1 = "snd (handle_request (\<lambda>_. []) (\<lambda>_. []) 0 7 (CreateSession ''s'' (sample_ssh ''bob'' ''h'') [] None)
      (sv_handler (server_new ?c)))"
  have "serial_run ?c ?h1"
    by (rule dr_request [OF dr_start]) (simp add: session_run_defs)
  moreover have "\<not> session_exists 8 (session_manager ?h1)"
    by (simp add: session_run_defs)
  ultimately have "serial_run ?c (snd (handle_request (\<lambda>_. []) (\<lambda>_. []) 0 8 (DisconnectSession 7) ?h1))"
    by (rule dr_request)
  then show ?thesis
    by (simp only: reconnecting_def Let_def)
qed

lemma reconnecting_offers:
  "find_reusable_session 0 (connection_key (sample_ssh ''bob'' ''h'')) (session_manager reconnecting) = Some 7"
  by (simp add: reconnecting_def session_run_defs add_session_def has_room_def index_push_def weigh_def
      pool_entry_def reuse_score_def hm_upsert_def session_key_def from_secs_def default_priority_def
      nanos_per_sec_def)

lemma reconnecting_reuses:
  "fst (handle_create_session (\<lambda>_. []) 0 8 ''s'' (sample_ssh ''bob'' ''h'') [] None reconnecting)
     = SessionCreated 7 True"
proof -
  have "7 \<in> registered (session_manager reconnecting)"
    using reuse.offered_is_known [OF manager_invD(2) [OF manager_run_inv [OF serial_run_manager [OF reconnecting_run]]]]
      reconnecting_offers by (simp add: find_reusable_session_def)
  then have "is_ok (fst (use_session (\<lambda>_. []) 0 7 (session_manager reconnecting)))"
    by (auto simp: registered_def use_session_def reg_mark_used_def reg_modify_def reg_get_def Let_def
        update_session_status_def update_status_def with_metrics_def)
  then obtain u where "fst (use_session (\<lambda>_. []) 0 7 (session_manager reconnecting)) = Inr u"
    by (cases "fst (use_session (\<lambda>_. []) 0 7 (session_manager reconnecting))") simp_all
  then have "fst (try_reuse (\<lambda>_. []) 0 (connection_key (sample_ssh ''bob'' ''h'')) (session_manager reconnecting)) = Some 7"
    by (simp add: try_reuse_def case_prod_unfold reconnecting_offers)
  then show ?thesis
    by (simp add: handle_create_session_def case_prod_unfold)
qed

theorem reused_session_cannot_execute_witness:
  "fst (handle_execute_command (\<lambda>_. []) 9 7 DcGetClipboard
      (snd (handle_create_session (\<lambda>_. []) 0 8 ''s'' (sample_ssh ''bob'' ''h'') [] None reconnecting)))
    = DaemonError CodeSessionNotFound ''Session  not connected''"
  using reused_session_cannot_execute [OF reconnecting_run reconnecting_reuses, of 9 DcGetClipboard]
  by simp

text \<open>Connecting by name does not look at the configuration: as soon as some active session has the
  name, the answer and the new state are the same for every transport configuration, and the session
  handed out is a registered one of that name, whatever host it is connected to.\<close>

theorem connect_by_name_ignores_config:
  assumes "serial_run c h"
    and "list_ex (\<lambda>m. sm_name m = name \<and> sm_status m = Active) (list_sessions (session_manager h))"
  shows "handle_connect_session show_id now fresh name tc h = handle_connect_session show_id now fresh' name tc' h \<and>
    (\<exists>m. sm_name m = name \<and> sm_status m = Active \<and> get_session (sm_id m) (session_manager h) = Some m \<and>
       fst (handle_connect_session show_id now fresh name tc h) = SessionCreated (sm_id m) True)"
proof -
  let ?mg = "session_manager h"
  note wf = registry_soundD [OF manager_invD(1) [OF manager_run_inv [OF serial_run_manager [OF assms(1)]]]]
  have get: "get_session (sm_id m) ?mg = Some m" if "m \<in> set (list_sessions ?mg)" for m
    using that registry_wfD(2) [OF wf(1)]
    unfolding list_sessions_def list_all_sessions_def hm_values_in [OF wf(2)]
    by (auto simp: get_session_def reg_get_def)
  have use: "\<exists>u. fst (use_session show_id now (sm_id m) ?mg) = Inr u" if "m \<in> set (list_sessions ?mg)" for m
    using get [OF that]
    by (auto simp: get_session_def use_session_def reg_mark_used_def reg_modify_def reg_get_def Let_def
        update_session_status_def update_status_def with_metrics_def)
  have "\<exists>m\<in>set ss. sm_name m = name \<and> sm_status m = Active \<and>
      fst (connect_by_name show_id now name ss ?mg) = Some (sm_id m)"
    if "list_ex (\<lambda>m. sm_name m = name \<and> sm_status m = Active) ss" "set ss \<subseteq> set (list_sessions ?mg)" for ss
    using that
  proof (induction ss)
    case (Cons s ss)
    then show ?case
      using use [of s] by (auto simp: case_prod_unfold)
  qed simp
  then obtain m where m: "m \<in> set (list_sessions ?mg)" "sm_name m = name" "sm_status m = Active"
    and r: "fst (connect_by_name show_id now name (list_sessions ?mg) ?mg) = Some (sm_id m)"
    using assms(2) by blast
  then show ?thesis
    using get [OF m(1)] by (auto simp: handle_connect_session_def case_prod_unfold)
qed

theorem connect_by_name_ignores_config_witness:
  "fst (handle_connect_session (\<lambda>_. []) 0 8 ''s'' (sample_ssh ''eve'' ''elsewhere'')
     (snd (handle_create_session (\<lambda>_. []) 0 7 ''s'' (sample_ssh ''bob'' ''h'') [] None
        (sv_handler (server_new (daemon_config_default True))))))
   = fst (handle_connect_session (\<lambda>_. []) 0 8 ''s'' (sample_ssh ''bob'' ''h'')
     (snd (handle_create_session (\<lambda>_. []) 0 7 ''s'' (sample_ssh ''bob'' ''h'') [] None
        (sv_handler (server_new (daemon_config_default True))))))"
proof -
  let ?h = "snd (handle_create_session (\<lambda>_. []) 0 7 ''s'' (sample_ssh ''bob'' ''h'') [] None
        (sv_handler (server_new (daemon_config_default True))))"
  have "serial_run (daemon_config_default True) (snd (handle_request (\<lambda>_. []) (\<lambda>_. []) 0 7
      (CreateSession ''s'' (sample_ssh ''bob'' ''h'') [] None) (sv_handler (server_new (daemon_config_default True)))))"
    by (rule dr_request [OF dr_start]) (simp add: session_run_defs)
  then have run: "serial_run (daemon_config_default True) ?h"
    by simp
  have "list_ex (\<lambda>m. sm_name m = ''s'' \<and> sm_status m = Active) (list_sessions (session_manager ?h))"
    by (simp add: session_run_defs list_sessions_def list_all_sessions_def hm_values_def)
  from connect_by_name_ignores_config [OF run this, where show_id = "\<lambda>_. []" and now = 0 and fresh = 8
      and fresh' = 8 and tc = "sample_ssh ''eve'' ''elsewhere''" and tc' = "sample_ssh ''bob'' ''h''"]
  show ?thesis
    by simp
qed

text \<open>C24. One answer per well-formed request: as long as the client's messages arrive, are not
  \<open>Shutdown\<close> and the answers fit a frame, the loop writes exactly the framed answers to the
  well-formed requests, in order, and its state is that of handling these requests in order. A
  malformed request gets no answer at all, and the loop goes on.\<close>

theorem client_loop_answers_in_order:
  assumes "\<And>e. e \<in> set evs \<Longrightarrow> from_slice (fst e) \<noteq> Inr Shutdown"
    and "list_all2 (\<lambda>r json. to_vec r = Inr json \<and> length json \<le> u16_max)
      (fst (replies show_id show_time from_slice evs (sv_handler sv))) jsons"
  shows "handle_client show_id show_time from_slice to_vec (map arrival evs) (sv, ch) =
      (sv\<lparr>sv_handler := snd (replies show_id show_time from_slice evs (sv_handler sv))\<rparr>,
       ch\<lparr>outgoing := outgoing ch @ concat (map frame jsons)\<rparr>) \<and>
    length jsons = length (filter (\<lambda>e. is_ok (from_slice (fst e))) evs)"
proof -
  have "length (fst (replies show_id show_time from_slice evs h))
      = length (filter (\<lambda>e. is_ok (from_slice (fst e))) evs)" for h
    by (induction evs arbitrary: h) (auto simp: case_prod_unfold Let_def split: sum.split)
  then show ?thesis
    using client_loop_replies [OF assms, of ch] list_all2_lengthD [OF assms(2)] by simp
qed

theorem client_loop_answers_in_order_witness:
  "outgoing (snd (handle_client (\<lambda>_. []) (\<lambda>_. []) (\<lambda>bs. if bs = [1] then Inr Ping else Inl ''bad'') (\<lambda>_. Inr [9])
     (map arrival [([1], 0, 1), ([2], 0, 2), ([1], 0, 3)])
     (server_new (daemon_config_default True), new_with_stream []))) = [0, 1, 9, 0, 1, 9]"
proof -
  let ?from = "\<lambda>bs :: bytes. if bs = [1] then Inr Ping else Inl ''bad''"
  let ?evs = "[([1], 0, 1), ([2], 0, 2), ([1], 0, 3)] :: (bytes \<times> time \<times> session_id) list"
  have "?from (fst e) \<noteq> Inr Shutdown" for e
    by simp
  moreover have "list_all2 (\<lambda>r json. (\<lambda>_. Inr [9]) r = Inr json \<and> length json \<le> u16_max)
      (fst (replies (\<lambda>_. []) (\<lambda>_. []) ?from ?evs (sv_handler (server_new (daemon_config_default True)))))
      [[9], [9]]"
    by (simp add: u16_max_def)
  ultimately show ?thesis
    using client_loop_answers_in_order [of ?evs ?from "\<lambda>_. Inr [9]" "\<lambda>_. []" "\<lambda>_. []"
        "server_new (daemon_config_default True)" "[[9], [9]]" "new_with_stream []"]
    by (simp add: new_with_stream_def frame_def be_bytes_def)
qed

text \<open>C25. The client limit is a lifetime budget: since the count of clients is never decremented, the
  number of connections that are ever served is the smaller of \<open>max_clients\<close> and the number of
  connections accepted before the shutdown, no matter how many clients have left in the meantime.\<close>

theorem accept_loop_lifetime_limit:
  assumes "length evs < 2 ^ 32"
  shows "length (accept_loop limit evs 0) = min (accepted evs) (unat limit)"
  using accept_loop_length [of evs 0 limit] assms by simp

theorem accept_loop_lifetime_limit_witness:
  "length (accept_loop 2 [(False, True), (False, True), (False, False), (False, True)] 0) = 2"
  using accept_loop_lifetime_limit [of "[(False, True), (False, True), (False, False), (False, True)]" 2]
  by (simp add: accepted_def)

text \<open>C31. The daemon configures the pool so that it is empty when it matters: the minimum time before a pooled
  session is offered is the time after which the cleanup expires it. With requests and cleanup passes run one
  after another, right after a pass a session is offered only if it was pooled exactly \<open>session_idle_timeout\<close>
  seconds ago, to the nanosecond.\<close>

theorem daemon_pool_reuse_window:
  assumes "serial_run c h"
    and "find_reusable_session now key (snd (cleanup_pass now (session_manager h))) = Some i"
  shows "\<exists>e. get_pool_metadata i (mgr_pool (snd (cleanup_pass now (session_manager h)))) = Some e \<and>
    now - ps_pooled_at e = from_secs (session_idle_timeout c)"
proof -
  let ?mg = "snd (cleanup_pass now (session_manager h))"
  let ?c = "server_session_config c"
  have run: "manager_run True ?c (session_manager h)"
    using assms(1) by (rule serial_run_manager)
  have conf: "pool_conf (mgr_pool ?mg) = cfg_pool ?c"
    using manager_run_pool_conf [OF mr_cleanup [OF run]] .
  obtain e where e: "hm_get (pool_metadata (mgr_pool ?mg)) i = Some e"
    and old: "from_secs (min_idle_time (pool_conf (mgr_pool ?mg))) \<le> now - ps_pooled_at e"
    using find_session_best [OF assms(2) [unfolded find_reusable_session_def]]
    by (auto simp: best_of_def eligible_def)
  have "now \<le> ps_pooled_at e + max_idle_time (cfg_lifecycle ?c)"
    using cleanup_pass_fresh [OF run e] .
  then have "now - ps_pooled_at e \<le> from_secs (session_idle_timeout c)"
    by (simp add: server_session_config_def)
  moreover have "from_secs (session_idle_timeout c) \<le> now - ps_pooled_at e"
    using old by (simp add: conf) (simp add: server_session_config_def)
  ultimately show ?thesis
    using e by (auto simp: get_pool_metadata_def)
qed

theorem daemon_pool_reuse_window_witness:
  "\<exists>i e. get_pool_metadata i (mgr_pool (snd (cleanup_pass 0 (session_manager reconnecting)))) = Some e \<and>
    0 - ps_pooled_at e = from_secs 0"
proof -
  have "find_reusable_session 0 (connection_key (sample_ssh ''bob'' ''h''))
      (snd (cleanup_pass 0 (session_manager reconnecting))) = Some 7"
    by (simp add: reconnecting_def session_run_defs add_session_def has_room_def index_push_def weigh_def
        pool_entry_def reuse_score_def hm_upsert_def session_key_def from_secs_def default_priority_def
        nanos_per_sec_def cleanup_pass_def list_all_sessions_def hm_values_def expire_one_def
        should_expire_session_def lifecycle_new_def lifecycle_config_default_def cleanup_expired_def
        is_expired_def duration_since_def)
  from daemon_pool_reuse_window [OF reconnecting_run this] show ?thesis
    by auto
qed

end
