(* ===== verification/Daemon_Client.thy ===== *)
theory Daemon_Client
  imports Remote_Client Daemon
begin

text \<open>
  \<open>crates/client/src/daemon_client.rs\<close>: the client of the daemon, and the wrapper that addresses one
  session. As in \<open>Remote_Client\<close>, \<open>None\<close> is a call that has not returned.
\<close>

section \<open>Requests\<close>

record daemon_codec =
  enc_daemon :: "daemon_request \<Rightarrow> string + bytes"
  dec_daemon :: "bytes \<Rightarrow> string + daemon_response"

definition daemon_send_request ::
    "daemon_codec \<Rightarrow> write_outcome \<Rightarrow> daemon_request \<Rightarrow> channel
     \<Rightarrow> ((client_error + daemon_response) \<times> channel) option" where
  "daemon_send_request cd w request ch =
     (case enc_daemon cd request of
        Inl e \<Rightarrow> Some (Inl (ClientChannel (''Failed to serialize request: '' @ e)), ch)
      | Inr json \<Rightarrow>
          (case send w json ch of
             (Inl e, ch1) \<Rightarrow> Some (Inl (ClientChannel (''Failed to send request: '' @ show_error e)), ch1)
           | (Inr _, ch1) \<Rightarrow>
               map_option (\<lambda>(r, ch2).
                   (case r of
                      Inl e \<Rightarrow> Inl (ClientChannel (''Failed to receive response: '' @ show_error e))
                    | Inr bs \<Rightarrow>
                        map_err (\<lambda>e. ClientChannel (''Failed to deserialize response: '' @ e))
                          (dec_daemon cd bs), ch2))
                 (receive ch1)))"

definition unexpected_daemon :: client_error where
  "unexpected_daemon = ClientChannel ''Unexpected response from daemon''"

definition handle_daemon_response ::
    "daemon_response \<Rightarrow> (daemon_response \<Rightarrow> 'a option) \<Rightarrow> client_error + 'a" where
  "handle_daemon_response response success_handler =
     (case response of
        DaemonError code message \<Rightarrow> Inl (ClientDaemon code message)
      | r \<Rightarrow> (case success_handler r of Some result \<Rightarrow> Inr result | None \<Rightarrow> Inl unexpected_daemon))"

definition daemon_call ::
    "(daemon_response \<Rightarrow> client_error + 'a) \<Rightarrow> daemon_codec \<Rightarrow> write_outcome \<Rightarrow> daemon_request \<Rightarrow> channel
     \<Rightarrow> ((client_error + 'a) \<times> channel) option" where
  "daemon_call expect cd w request ch =
     map_option (\<lambda>(r, ch'). (try_bind r expect, ch')) (daemon_send_request cd w request ch)"

definition expect_pong :: "daemon_response \<Rightarrow> client_error + bool" where
  "expect_pong r = Inr (r = Pong)"

definition expect_created :: "daemon_response \<Rightarrow> client_error + session_id \<times> bool" where
  "expect_created r =
     handle_daemon_response r (\<lambda>r. case r of SessionCreated i reused \<Rightarrow> Some (i, reused) | _ \<Rightarrow> None)"

definition expect_disconnected :: "daemon_response \<Rightarrow> client_error + unit" where
  "expect_disconnected r =
     handle_daemon_response r (\<lambda>r. case r of SessionDisconnected \<Rightarrow> Some () | _ \<Rightarrow> None)"

definition expect_list :: "daemon_response \<Rightarrow> client_error + session_summary list" where
  "expect_list r = handle_daemon_response r (\<lambda>r. case r of SessionList ss \<Rightarrow> Some ss | _ \<Rightarrow> None)"

definition expect_info :: "daemon_response \<Rightarrow> client_error + session_details" where
  "expect_info r = handle_daemon_response r (\<lambda>r. case r of SessionInfo s \<Rightarrow> Some s | _ \<Rightarrow> None)"

definition expect_command :: "daemon_response \<Rightarrow> client_error + command_result" where
  "expect_command r =
     (case r of
        CommandSuccess result \<Rightarrow> Inr result
      | DaemonError code message \<Rightarrow> Inl (ClientDaemon code message)
      | _ \<Rightarrow> Inl unexpected_daemon)"

definition expect_shutdown :: "daemon_response \<Rightarrow> client_error + unit" where
  "expect_shutdown r =
     (case r of
        ShuttingDown \<Rightarrow> Inr ()
      | DaemonError code message \<Rightarrow> Inl (ClientDaemon code message)
      | _ \<Rightarrow> Inl unexpected_daemon)"

definition dc_ping :: "daemon_codec \<Rightarrow> write_outcome \<Rightarrow> channel \<Rightarrow> ((client_error + bool) \<times> channel) option" where
  "dc_ping cd w = daemon_call expect_pong cd w Ping"

definition dc_create_session ::
    "daemon_codec \<Rightarrow> write_outcome \<Rightarrow> string \<Rightarrow> transport_config \<Rightarrow> string list \<Rightarrow> string option \<Rightarrow> channel
     \<Rightarrow> ((client_error + session_id \<times> bool) \<times> channel) option" where
  "dc_create_session cd w name tc tags d = daemon_call expect_created cd w (CreateSession name tc tags d)"

definition dc_connect_session ::
    "daemon_codec \<Rightarrow> write_outcome \<Rightarrow> string \<Rightarrow> transport_config \<Rightarrow> channel
     \<Rightarrow> ((client_error + session_id \<times> bool) \<times> channel) option" where
  "dc_connect_session cd w name tc = daemon_call expect_created cd w (ConnectSession name tc)"

definition dc_disconnect_session ::
    "daemon_codec \<Rightarrow> write_outcome \<Rightarrow> session_id \<Rightarrow> channel \<Rightarrow> ((client_error + unit) \<times> channel) option" where
  "dc_disconnect_session cd w i = daemon_call expect_disconnected cd w (DisconnectSession i)"

definition dc_list_sessions ::
    "daemon_codec \<Rightarrow> write_outcome \<Rightarrow> channel \<Rightarrow> ((client_error + session_summary list) \<times> channel) option" where
  "dc_list_sessions cd w = daemon_call expect_list cd w ListSessions"

definition dc_get_session_info ::
    "daemon_codec \<Rightarrow> write_outcome \<Rightarrow> session_id \<Rightarrow> channel
     \<Rightarrow> ((client_error + session_details) \<times> channel) option" where
  "dc_get_session_info cd w i = daemon_call expect_info cd w (GetSessionInfo i)"

definition dc_execute_command ::
    "daemon_codec \<Rightarrow> write_outcome \<Rightarrow> session_id \<Rightarrow> daemon_command \<Rightarrow> channel
     \<Rightarrow> ((client_error + command_result) \<times> channel) option" where
  "dc_execute_command cd w i command = daemon_call expect_command cd w (ExecuteCommand i command)"

definition dc_shutdown :: "daemon_codec \<Rightarrow> write_outcome \<Rightarrow> channel \<Rightarrow> ((client_error + unit) \<times> channel) option" where
  "dc_shutdown cd w = daemon_call expect_shutdown cd w Shutdown"

section \<open>Session client\<close>

record session_client =
  sc_channel :: channel
  sc_session_id :: session_id

definition unexpected_command :: client_error where
  "unexpected_command = ClientChannel ''Unexpected command result''"

definition session_call ::
    "(command_result \<Rightarrow> 'a option) \<Rightarrow> daemon_codec \<Rightarrow> write_outcome \<Rightarrow> daemon_command \<Rightarrow> session_client
     \<Rightarrow> ((client_error + 'a) \<times> session_client) option" where
  "session_call expect cd w command sc =
     map_option (\<lambda>(r, ch).
         (try_bind r (\<lambda>res. case expect res of Some a \<Rightarrow> Inr a | None \<Rightarrow> Inl unexpected_command),
          sc\<lparr>sc_channel := ch\<rparr>))
       (dc_execute_command cd w (sc_session_id sc) command (sc_channel sc))"

definition sc_get_clipboard ::
    "daemon_codec \<Rightarrow> write_outcome \<Rightarrow> session_client \<Rightarrow> ((client_error + string) \<times> session_client) option" where
  "sc_get_clipboard cd w =
     session_call (\<lambda>r. case r of CmdClipboardContent s \<Rightarrow> Some s | _ \<Rightarrow> None) cd w DcGetClipboard"

definition sc_set_clipboard ::
    "daemon_codec \<Rightarrow> write_outcome \<Rightarrow> string \<Rightarrow> session_client
     \<Rightarrow> ((client_error + unit) \<times> session_client) option" where
  "sc_set_clipboard cd w content =
     session_call (\<lambda>r. if r = CmdClipboardSet then Some () else None) cd w (DcSetClipboard content)"

definition sc_open_browser ::
    "daemon_codec \<Rightarrow> write_outcome \<Rightarrow> string \<Rightarrow> session_client
     \<Rightarrow> ((client_error + unit) \<times> session_client) option" where
  "sc_open_browser cd w url =
     session_call (\<lambda>r. if r = CmdBrowserOpened then Some () else None) cd w (DcOpenBrowser url)"

definition sc_start_port_forward ::
    "daemon_codec \<Rightarrow> write_outcome \<Rightarrow> u16 \<Rightarrow> string \<Rightarrow> u16 \<Rightarrow> session_client
     \<Rightarrow> ((client_error + unit) \<times> session_client) option" where
  "sc_start_port_forward cd w lp host rp =
     session_call (\<lambda>r. if r = CmdPortForwardStarted then Some () else None) cd w
       (DcStartPortForward lp host rp)"

definition sc_stop_port_forward ::
    "daemon_codec \<Rightarrow> write_outcome \<Rightarrow> u16 \<Rightarrow> session_client
     \<Rightarrow> ((client_error + unit) \<times> session_client) option" where
  "sc_stop_port_forward cd w lp =
     session_call (\<lambda>r. if r = CmdPortForwardStopped then Some () else None) cd w (DcStopPortForward lp)"

end
