(* ===== verification/Rpc.thy ===== *)
theory Rpc
  imports Ipc Daemon_Client
begin

text \<open>
  Requests and responses over a channel: the contract the clients of the remote server
  (\<open>client_transport.rs\<close>) and of the daemon (\<open>daemon_client.rs\<close>) share, and the server loop as the other
  side of it. The contract is a locale, interpreted on the two \<open>send_request\<close> of the model.
\<close>

section \<open>A channel with messages under way\<close>

text \<open>The channel still has exactly the messages \<open>ps\<close> to deliver, in whatever chunks.\<close>

definition carries :: "bytes list \<Rightarrow> channel \<Rightarrow> bool" where
  "carries ps ch \<longleftrightarrow>
     (\<exists>cs. [] \<notin> set cs \<and> incoming ch = map Chunk cs \<and> read_buffer ch @ concat cs = concat (map frame ps))"

lemma carriesI: "[] \<notin> set cs \<Longrightarrow> concat cs = concat (map frame ps) \<Longrightarrow> carries ps (new_with_stream (map Chunk cs))"
  by (auto simp: carries_def new_with_stream_def)

lemma carries_outgoing [simp]: "carries ps (ch\<lparr>outgoing := bs\<rparr>) = carries ps ch"
  by (simp add: carries_def)

lemma receive_carried:
  assumes "carries (p # ps) ch" and "length p \<le> u16_max"
  shows "\<exists>ch'. receive ch = Some (Inr p, ch') \<and> carries ps ch' \<and> outgoing ch' = outgoing ch"
proof -
  obtain cs where ne: "[] \<notin> set cs" and inc: "incoming ch = map Chunk cs"
    and all: "read_buffer ch @ concat cs = frame p @ concat (map frame ps)"
    using assms(1) by (auto simp: carries_def)
  obtain buf' cs' where "pump take_frame (read_buffer ch) (map Chunk cs) = Some (Inr p, buf', map Chunk cs')"
    and "buf' @ concat cs' = concat (map frame ps)" and "[] \<notin> set cs'"
    using wire.pump_delivers [of p "read_buffer ch" cs "concat (map frame ps)" "[]"] assms(2) ne all by auto
  then show ?thesis
    by (auto simp: receive_def inc carries_def)
qed

section \<open>The interface\<close>

text \<open>Requests one after another, with their responses; \<open>None\<close> once a call fails or still waits.\<close>

fun exchange ::
    "('q \<Rightarrow> 's \<Rightarrow> (('e + 'r) \<times> 's) option) \<Rightarrow> 'q list \<Rightarrow> 's \<Rightarrow> ('r list \<times> 's) option" where
  "exchange call [] s = Some ([], s)"
| "exchange call (q # qs) s =
     (case call q s of
        Some (Inr r, s1) \<Rightarrow> map_option (\<lambda>(rs, s2). (r # rs, s2)) (exchange call qs s1)
      | _ \<Rightarrow> None)"

text \<open>
  A call on a client whose channel \<open>chan\<close> has a response under way writes exactly the frame of its request
  and returns that response, leaving the later ones under way.
\<close>

locale rpc =
  fixes call :: "'q \<Rightarrow> 's \<Rightarrow> (('e + 'r) \<times> 's) option"
    and chan :: "'s \<Rightarrow> channel option"
    and enc :: "'q \<Rightarrow> string + bytes"
    and dec :: "bytes \<Rightarrow> string + 'r"
  assumes answered: "chan s = Some ch \<Longrightarrow> carries (p # ps) ch \<Longrightarrow> length p \<le> u16_max \<Longrightarrow> dec p = Inr r \<Longrightarrow>
    enc q = Inr j \<Longrightarrow> length j \<le> u16_max \<Longrightarrow>
    \<exists>s' ch'. call q s = Some (Inr r, s') \<and> chan s' = Some ch' \<and> carries ps ch' \<and>
      outgoing ch' = outgoing ch @ frame j"
begin

lemma exchange_answered:
  assumes "list_all2 (\<lambda>q j. enc q = Inr j \<and> length j \<le> u16_max) qs js"
    and "list_all2 (\<lambda>r p. dec p = Inr r \<and> length p \<le> u16_max) rs ps" and "length rs = length qs"
    and "chan s = Some ch" and "carries ps ch"
  shows "\<exists>s' ch'. exchange call qs s = Some (rs, s') \<and> chan s' = Some ch' \<and> carries [] ch' \<and>
    outgoing ch' = outgoing ch @ concat (map frame js)"
  using assms
proof (induction qs js arbitrary: rs ps s ch rule: list_all2_induct)
  case Nil
  then show ?case by auto
next
  case (Cons q qs j js)
  obtain r rs' p ps' where rs: "rs = r # rs'" "ps = p # ps'" "dec p = Inr r" "length p \<le> u16_max"
    and rest: "list_all2 (\<lambda>r p. dec p = Inr r \<and> length p \<le> u16_max) rs' ps'"
    using Cons.prems(1,2) by (cases rs) (auto simp: list_all2_Cons1)
  obtain s1 ch1 where 1: "call q s = Some (Inr r, s1)" "chan s1 = Some ch1" "carries ps' ch1"
    "outgoing ch1 = outgoing ch @ frame j"
    using answered [of s ch p ps' r q j] Cons.prems(3,4) Cons.hyps(1) rs by blast
  obtain s2 ch2 where "exchange call qs s1 = Some (rs', s2)" "chan s2 = Some ch2" "carries [] ch2"
    "outgoing ch2 = outgoing ch1 @ concat (map frame js)"
    using Cons.IH [OF rest _ 1(2,3)] Cons.prems(2) rs(1) by auto
  with 1 rs show ?case by auto
qed

lemma expecting:
  assumes "chan s = Some ch" and "carries (p # ps) ch" and "length p \<le> u16_max" and "dec p = Inr r"
    and "enc q = Inr j" and "length j \<le> u16_max"
  shows "\<exists>s' ch'. map_option (\<lambda>(x, s'). (try_bind x expect, s')) (call q s) = Some (expect r, s') \<and>
    chan s' = Some ch' \<and> carries ps ch' \<and> outgoing ch' = outgoing ch @ frame j"
  using answered [OF assms] by auto

end

lemma daemon_call_answered:
  assumes "carries (p # ps) ch" and "length p \<le> u16_max" and "dec_daemon cd p = Inr r"
    and "enc_daemon cd q = Inr j" and "length j \<le> u16_max"
  shows "\<exists>ch'. daemon_send_request cd Written q ch = Some (Inr r, ch') \<and> carries ps ch' \<and>
    outgoing ch' = outgoing ch @ frame j"
proof -
  let ?ch = "ch\<lparr>outgoing := outgoing ch @ frame j\<rparr>"
  obtain ch' where "receive ?ch = Some (Inr p, ch')" "carries ps ch'" "outgoing ch' = outgoing ?ch"
    using receive_carried [of p ps ?ch] assms(1,2) by auto
  then show ?thesis
    using assms(3-5) by (simp add: daemon_send_request_def send_def map_err_def)
qed

interpretation daemon_rpc: rpc "daemon_send_request cd Written" Some "enc_daemon cd" "dec_daemon cd" for cd
  by unfold_locales (use daemon_call_answered in auto)

lemma client_call_answered:
  assumes "message_channel c = Some ch" and "carries (p # ps) ch" and "length p \<le> u16_max"
    and "dec_response cd p = Inr r" and "enc_request cd q = Inr j" and "length j \<le> u16_max"
  shows "\<exists>c' ch'. client_send_request cd Written q c = Some (Inr r, c') \<and> message_channel c' = Some ch' \<and>
    carries ps ch' \<and> outgoing ch' = outgoing ch @ frame j"
proof -
  let ?ch = "ch\<lparr>outgoing := outgoing ch @ frame j\<rparr>"
  obtain ch' where "receive ?ch = Some (Inr p, ch')" "carries ps ch'" "outgoing ch' = outgoing ?ch"
    using receive_carried [of p ps ?ch] assms(2,3) by auto
  then show ?thesis
    using assms by (simp add: client_send_request_def send_request_def send_as_def send_def receive_response_def
        receive_as_def map_err_def)
qed

interpretation client_rpc:
  rpc "client_send_request cd Written" message_channel "enc_request cd" "dec_response cd" for cd
  by unfold_locales (rule client_call_answered)

section \<open>The server's side\<close>

text \<open>The specification of the request loop: requests are handled one after another.\<close>

fun respond :: "environment \<Rightarrow> protocol_request list \<Rightarrow> remote \<Rightarrow> protocol_response list \<times> remote" where
  "respond env [] r = ([], r)"
| "respond env (q # qs) r =
     (let (resp, r1) = remote_handle_request env (\<lambda>r. r) q r;
          (resps, r2) = respond env qs r1
      in (resp # resps, r2))"

lemma serve_loop_responds:
  assumes "list_all2 (\<lambda>q j. from_slice j = Inr q \<and> length j \<le> u16_max) qs js"
    and "list_all2 (\<lambda>resp p. to_vec resp = Inr p \<and> length p \<le> u16_max) (fst (respond env qs r)) ps"
    and "carries js ch"
  shows "\<exists>ch'. serve_loop env from_slice to_vec (replicate (length qs) (Turn (\<lambda>r. r) Written)) (r, ch) =
      (True, snd (respond env qs r), ch') \<and> outgoing ch' = outgoing ch @ concat (map frame ps)"
  using assms
proof (induction qs js arbitrary: r ps ch rule: list_all2_induct)
  case Nil
  then show ?case by auto
next
  case (Cons q qs j js)
  let ?h = "remote_handle_request env (\<lambda>r. r) q r"
  obtain p ps' where ps: "ps = p # ps'" "to_vec (fst ?h) = Inr p" "length p \<le> u16_max"
    and rest: "list_all2 (\<lambda>resp p. to_vec resp = Inr p \<and> length p \<le> u16_max) (fst (respond env qs (snd ?h))) ps'"
    using Cons.prems(1) by (auto simp: case_prod_unfold Let_def list_all2_Cons1)
  obtain ch1 where ch1: "receive ch = Some (Inr j, ch1)" "carries js ch1" "outgoing ch1 = outgoing ch"
    using receive_carried [OF Cons.prems(2)] Cons.hyps(1) by blast
  let ?ch2 = "ch1\<lparr>outgoing := outgoing ch1 @ frame p\<rparr>"
  obtain ch' where "serve_loop env from_slice to_vec (replicate (length qs) (Turn (\<lambda>r. r) Written)) (snd ?h, ?ch2) =
      (True, snd (respond env qs (snd ?h)), ch')" "outgoing ch' = outgoing ?ch2 @ concat (map frame ps')"
    using Cons.IH [OF rest, of ?ch2] ch1(2) by auto
  then show ?case
    using ch1 ps Cons.hyps(1)
    by (simp add: receive_request_def receive_as_def map_err_def serve_turn_def send_response_def send_as_def send_def
        case_prod_unfold Let_def)
qed

end
