(* ===== verification/Logging.thy ===== *)
theory Logging
  imports Errors Hash_Map
begin

text \<open>
  \<open>crates/core/src/logging.rs\<close>: the logging configuration, its builder, and what of it reaches the
  subscriber that is installed. Environment variables are a function, and whether \<open>tracing_subscriber\<close>
  accepts a directive is the argument \<open>directive_ok\<close>; unwrapping a refused one panics, which is \<open>None\<close>.
\<close>

section \<open>Configuration\<close>

datatype log_level = LevelTrace | LevelDebug | LevelInfo | LevelWarn | LevelError

datatype log_format = FormatCompact | FormatPretty | FormatFull | FormatJson

datatype log_output =
    OutStdout
  | OutStderr
  | OutFile path_buf bool
  | OutRotatingFile path_buf string
  | OutSyslog string string

record logging_config =
  lg_level :: log_level
  lg_module_levels :: "(string, log_level) hashmap"
  lg_format :: log_format
  lg_outputs :: "log_output list"
  lg_timestamps :: bool
  lg_location :: bool
  lg_thread_info :: bool
  lg_spans :: bool
  lg_colors :: bool
  lg_max_file_size :: u64
  lg_max_files :: u32
  lg_structured :: bool

definition logging_config_default :: logging_config where
  "logging_config_default =
     \<lparr>lg_level = LevelInfo, lg_module_levels = [], lg_format = FormatCompact, lg_outputs = [OutStdout],
      lg_timestamps = True, lg_location = False, lg_thread_info = False, lg_spans = True, lg_colors = True,
      lg_max_file_size = 10 * 1024 * 1024, lg_max_files = 5, lg_structured = False\<rparr>"

fun show_log_level :: "log_level \<Rightarrow> string" where
  "show_log_level LevelTrace = ''trace''"
| "show_log_level LevelDebug = ''debug''"
| "show_log_level LevelInfo = ''info''"
| "show_log_level LevelWarn = ''warn''"
| "show_log_level LevelError = ''error''"

definition parse_log_level :: "string \<Rightarrow> yuha_error + log_level" where
  "parse_log_level s =
     (let l = to_lowercase s in
      if l = ''trace'' then Inr LevelTrace
      else if l = ''debug'' then Inr LevelDebug
      else if l = ''info'' then Inr LevelInfo
      else if l = ''warn'' then Inr LevelWarn
      else if l = ''error'' then Inr LevelError
      else Inl (err_config (''Invalid log level: '' @ s)))"

section \<open>The builder\<close>

record logger_builder =
  lo_config :: logging_config

definition logger_new :: logger_builder where
  "logger_new = \<lparr>lo_config = logging_config_default\<rparr>"

definition logger_from_config :: "logging_config \<Rightarrow> logger_builder" where
  "logger_from_config c = \<lparr>lo_config = c\<rparr>"

definition lo_level :: "log_level \<Rightarrow> logger_builder \<Rightarrow> logger_builder" where
  "lo_level l b = b\<lparr>lo_config := (lo_config b)\<lparr>lg_level := l\<rparr>\<rparr>"

definition lo_module_level :: "string \<Rightarrow> log_level \<Rightarrow> logger_builder \<Rightarrow> logger_builder" where
  "lo_module_level m l b =
     b\<lparr>lo_config := (lo_config b)\<lparr>lg_module_levels := hm_insert m l (lg_module_levels (lo_config b))\<rparr>\<rparr>"

definition lo_format :: "log_format \<Rightarrow> logger_builder \<Rightarrow> logger_builder" where
  "lo_format f b = b\<lparr>lo_config := (lo_config b)\<lparr>lg_format := f\<rparr>\<rparr>"

definition lo_output :: "log_output \<Rightarrow> logger_builder \<Rightarrow> logger_builder" where
  "lo_output out b = b\<lparr>lo_config := (lo_config b)\<lparr>lg_outputs := lg_outputs (lo_config b) @ [out]\<rparr>\<rparr>"

definition lo_timestamps :: "bool \<Rightarrow> logger_builder \<Rightarrow> logger_builder" where
  "lo_timestamps e b = b\<lparr>lo_config := (lo_config b)\<lparr>lg_timestamps := e\<rparr>\<rparr>"

definition lo_location :: "bool \<Rightarrow> logger_builder \<Rightarrow> logger_builder" where
  "lo_location e b = b\<lparr>lo_config := (lo_config b)\<lparr>lg_location := e\<rparr>\<rparr>"

definition lo_thread_info :: "bool \<Rightarrow> logger_builder \<Rightarrow> logger_builder" where
  "lo_thread_info e b = b\<lparr>lo_config := (lo_config b)\<lparr>lg_thread_info := e\<rparr>\<rparr>"

definition lo_spans :: "bool \<Rightarrow> logger_builder \<Rightarrow> logger_builder" where
  "lo_spans e b = b\<lparr>lo_config := (lo_config b)\<lparr>lg_spans := e\<rparr>\<rparr>"

definition lo_colors :: "bool \<Rightarrow> logger_builder \<Rightarrow> logger_builder" where
  "lo_colors e b = b\<lparr>lo_config := (lo_config b)\<lparr>lg_colors := e\<rparr>\<rparr>"

definition lo_structured :: "bool \<Rightarrow> logger_builder \<Rightarrow> logger_builder" where
  "lo_structured e b = b\<lparr>lo_config := (lo_config b)\<lparr>lg_structured := e\<rparr>\<rparr>"

section \<open>Initialisation\<close>

datatype log_filter = Directives "string list" | FromRustLog string

datatype log_layer = JsonLayer | CompactLayer | PrettyLayer | FullLayer

text \<open>The subscriber that is installed. Colours and span events are not set on the JSON layer, and the
  current span and the span list only on it.\<close>

record subscriber =
  sub_filter :: log_filter
  sub_layer :: log_layer
  sub_span_fields :: bool
  sub_thread_info :: bool
  sub_location :: bool
  sub_ansi :: bool
  sub_span_events :: bool

definition directives :: "logging_config \<Rightarrow> string list" where
  "directives c =
     (''yuha='' @ show_log_level (lg_level c)) #
     map (\<lambda>(m, l). m @ ''='' @ show_log_level l) (lg_module_levels c)"

definition init_logging ::
    "(string \<Rightarrow> bool) \<Rightarrow> (string \<Rightarrow> string option) \<Rightarrow> logging_config \<Rightarrow> subscriber option" where
  "init_logging directive_ok env c =
     (if \<not> list_all directive_ok (directives c) then None
      else let flt = (case env ''RUST_LOG'' of Some s \<Rightarrow> FromRustLog s | None \<Rightarrow> Directives (directives c))
           in if lg_structured c
              then Some \<lparr>sub_filter = flt, sub_layer = JsonLayer, sub_span_fields = lg_spans c,
                         sub_thread_info = lg_thread_info c, sub_location = lg_location c,
                         sub_ansi = True, sub_span_events = False\<rparr>
              else Some \<lparr>sub_filter = flt,
                         sub_layer = (case lg_format c of
                            FormatCompact \<Rightarrow> CompactLayer
                          | FormatPretty \<Rightarrow> PrettyLayer
                          | FormatFull \<Rightarrow> FullLayer
                          | FormatJson \<Rightarrow> FullLayer),
                         sub_span_fields = False, sub_thread_info = lg_thread_info c,
                         sub_location = lg_location c, sub_ansi = lg_colors c,
                         sub_span_events = lg_spans c\<rparr>)"

definition parse_log_format :: "string \<Rightarrow> yuha_error + log_format" where
  "parse_log_format s =
     (let l = to_lowercase s in
      if l = ''compact'' then Inr FormatCompact
      else if l = ''pretty'' then Inr FormatPretty
      else if l = ''full'' then Inr FormatFull
      else if l = ''json'' then Inr FormatJson
      else Inl (err_config (''Invalid log format: '' @ s)))"

text \<open>\<open>init_from_env\<close>: the level and the format, then the output and the colours.\<close>

definition level_from_env :: "(string \<Rightarrow> string option) \<Rightarrow> yuha_error + logger_builder" where
  "level_from_env env =
     (case env ''YUHA_LOG_LEVEL'' of
        Some s \<Rightarrow> try_bind (parse_log_level s) (\<lambda>l. Inr (lo_level l logger_new))
      | None \<Rightarrow> Inr logger_new)"

definition format_from_env ::
    "(string \<Rightarrow> string option) \<Rightarrow> logger_builder \<Rightarrow> yuha_error + logger_builder" where
  "format_from_env env b =
     (case env ''YUHA_LOG_FORMAT'' of
        Some s \<Rightarrow> try_bind (parse_log_format s) (\<lambda>f. Inr (lo_format f b))
      | None \<Rightarrow> Inr b)"

definition output_from_env :: "(string \<Rightarrow> string option) \<Rightarrow> logger_builder \<Rightarrow> logger_builder" where
  "output_from_env env b =
     (let b1 = (case env ''YUHA_LOG_FILE'' of
                  Some path \<Rightarrow> lo_output (OutFile path True) b
                | None \<Rightarrow> lo_output OutStdout b)
      in if env ''NO_COLOR'' \<noteq> None then lo_colors False b1 else b1)"

definition builder_from_env :: "(string \<Rightarrow> string option) \<Rightarrow> yuha_error + logger_builder" where
  "builder_from_env env =
     try_bind (level_from_env env) (\<lambda>b. try_bind (format_from_env env b) (\<lambda>b1. Inr (output_from_env env b1)))"

definition init_from_env ::
    "(string \<Rightarrow> bool) \<Rightarrow> (string \<Rightarrow> string option) \<Rightarrow> yuha_error + subscriber option" where
  "init_from_env directive_ok env =
     try_bind (builder_from_env env) (\<lambda>b. Inr (init_logging directive_ok env (lo_config b)))"

definition dev_builder :: logger_builder where
  "dev_builder =
     (lo_colors True \<circ> lo_spans True \<circ> lo_thread_info False \<circ> lo_location True \<circ> lo_timestamps True \<circ>
      lo_output OutStdout \<circ> lo_format FormatPretty \<circ> lo_level LevelDebug) logger_new"

definition prod_builder :: "path_buf option \<Rightarrow> logger_builder" where
  "prod_builder log_dir =
     (let b = (lo_structured True \<circ> lo_colors False \<circ> lo_spans False \<circ> lo_thread_info True \<circ>
               lo_location False \<circ> lo_timestamps True \<circ> lo_format FormatJson \<circ> lo_level LevelInfo) logger_new
      in case log_dir of
           Some dir \<Rightarrow> lo_output (OutRotatingFile dir ''yuha'') b
         | None \<Rightarrow> lo_output OutStdout b)"

section \<open>Utilities\<close>

text \<open>\<open>logging::utils\<close>: what a call logs, as levels and messages, beside its result. \<open>show_duration\<close> is the
  \<open>Debug\<close> rendering of a duration.\<close>

type_synonym log_events = "(log_level \<times> string) list"

definition log_function_timing ::
    "(duration \<Rightarrow> string) \<Rightarrow> string \<Rightarrow> duration \<Rightarrow> 'r \<Rightarrow> 'r \<times> log_events" where
  "log_function_timing show_duration name elapsed result =
     (result,
      [(LevelDebug, ''Entering function: '' @ name),
       (LevelDebug, ''Exiting function: '' @ name @ '' (took '' @ show_duration elapsed @ '')'')])"

definition log_operation :: "('e \<Rightarrow> string) \<Rightarrow> string \<Rightarrow> 'e + 'r \<Rightarrow> ('e + 'r) \<times> log_events" where
  "log_operation show_e name r =
     (r, (LevelInfo, ''Starting operation: '' @ name) #
         (case r of
            Inr _ \<Rightarrow> [(LevelInfo, ''Operation completed successfully: '' @ name)]
          | Inl e \<Rightarrow> [(LevelError, ''Operation failed: '' @ name @ '' - Error: '' @ show_e e)]))"

datatype security_severity = SecLow | SecMedium | SecHigh | SecCritical

definition log_security_event :: "string \<Rightarrow> string \<Rightarrow> security_severity \<Rightarrow> log_level \<times> string" where
  "log_security_event event_type details sev =
     (let text = ''Security ['' @ event_type @ '']: '' @ details
      in case sev of
           SecLow \<Rightarrow> (LevelInfo, text)
         | SecMedium \<Rightarrow> (LevelWarn, text)
         | SecHigh \<Rightarrow> (LevelError, text)
         | SecCritical \<Rightarrow> (LevelError, ''CRITICAL '' @ text))"

section \<open>Lemmas\<close>

lemmas builder_defs =
  lo_level_def lo_format_def lo_output_def lo_colors_def logger_new_def

lemma parse_show_log_level: "parse_log_level (show_log_level l) = Inr l"
  by (cases l) (simp_all add: parse_log_level_def to_lowercase_def to_lower_char_def Let_def)

text \<open>What does not reach the subscriber: the outputs, the time stamps, the limits of the files, and the
  difference between the formats \<open>json\<close> and \<open>full\<close>.\<close>

lemma init_logging_ignores:
  "init_logging directive_ok env
     (c\<lparr>lg_outputs := os, lg_timestamps := t, lg_max_file_size := s, lg_max_files := n\<rparr>) =
   init_logging directive_ok env c"
  "init_logging directive_ok env (c\<lparr>lg_format := FormatJson\<rparr>) =
   init_logging directive_ok env (c\<lparr>lg_format := FormatFull\<rparr>)"
  by (simp_all add: init_logging_def directives_def Let_def split: option.split)

lemma init_logging_env:
  "env ''RUST_LOG'' = env' ''RUST_LOG'' \<Longrightarrow> init_logging directive_ok env c = init_logging directive_ok env' c"
  by (simp add: init_logging_def)

lemma init_logging_output:
  "init_logging directive_ok env (lo_config (output_from_env env' b)) =
   init_logging directive_ok env (lo_config (if env' ''NO_COLOR'' \<noteq> None then lo_colors False b else b))"
  by (auto simp: output_from_env_def lo_output_def lo_colors_def init_logging_def directives_def Let_def
      split: option.split)

lemma init_logging_json:
  "init_logging directive_ok env (lo_config (output_from_env env' (lo_format FormatJson b))) =
   init_logging directive_ok env (lo_config (output_from_env env' (lo_format FormatFull b)))"
  by (auto simp: output_from_env_def lo_output_def lo_colors_def lo_format_def init_logging_def directives_def
      Let_def split: option.split)

section \<open>Properties\<close>

text \<open>The environment cannot choose where or in which encoding the log goes: with \<open>YUHA_LOG_FILE\<close> set,
  the subscriber is the one installed without it, and with \<open>YUHA_LOG_FORMAT\<close> set to \<open>json\<close> it is the one
  installed for \<open>full\<close>, which writes text.\<close>

theorem log_destination_ignored:
  "init_from_env directive_ok (env(''YUHA_LOG_FILE'' := Some path)) =
     init_from_env directive_ok (env(''YUHA_LOG_FILE'' := None)) \<and>
   init_from_env directive_ok (env(''YUHA_LOG_FORMAT'' := Some ''json'')) =
     init_from_env directive_ok (env(''YUHA_LOG_FORMAT'' := Some ''full''))"
proof
  let ?e = "env(''YUHA_LOG_FILE'' := Some path)" and ?e' = "env(''YUHA_LOG_FILE'' := None)"
  have "init_logging directive_ok ?e c = init_logging directive_ok ?e' c" for c
    by (rule init_logging_env) simp
  then show "init_from_env directive_ok ?e = init_from_env directive_ok ?e'"
    by (simp add: init_from_env_def builder_from_env_def level_from_env_def format_from_env_def
        init_logging_output try_bind_def split: sum.split)
next
  let ?e = "env(''YUHA_LOG_FORMAT'' := Some ''json'')" and ?e' = "env(''YUHA_LOG_FORMAT'' := Some ''full'')"
  have "init_logging directive_ok ?e c = init_logging directive_ok ?e' c" for c
    by (rule init_logging_env) simp
  moreover have "parse_log_format ''json'' = Inr FormatJson" "parse_log_format ''full'' = Inr FormatFull"
    by (simp_all add: parse_log_format_def to_lowercase_def to_lower_char_def)
  moreover have "output_from_env ?e b = output_from_env ?e' b" for b
    by (simp add: output_from_env_def)
  ultimately show "init_from_env directive_ok ?e = init_from_env directive_ok ?e'"
    by (simp add: init_from_env_def builder_from_env_def level_from_env_def format_from_env_def
        init_logging_json try_bind_def split: sum.split)
qed

end
