(* ===== verification/Remote_Main.thy ===== *)
theory Remote_Main
  imports Rpc Logging
begin

text \<open>
  The \<open>main\<close> of \<open>crates/remote/src/main.rs\<close>: the mode the arguments select, the start of the IPC server
  (\<open>IpcServer::start\<close> of \<open>ipc.rs\<close>), and the shell commands as a whole, from the command line of one process
  through the socket to the clipboard of another. Parsing the arguments is \<open>clap\<close>'s; the panic hook and the text
  of the startup file are left out. The subscriber that \<open>main\<close> installs writes log lines to standard output,
  which with \<open>--stdio\<close> is the stream to the client: the lines of the start and the lines that the tasks
  log while the server runs are part of that stream here.
\<close>

section \<open>The IPC socket\<close>

text \<open>Which process answers at which path. \<open>removable\<close>, \<open>dir\<close> and \<open>bind\<close> are the answers of the system.\<close>

type_synonym 'o sockets = "path_buf \<rightharpoonup> 'o"

definition ipc_start ::
    "'o \<Rightarrow> path_buf \<Rightarrow> string option \<Rightarrow> string option \<Rightarrow> string option \<Rightarrow> 'o sockets
     \<Rightarrow> (string + unit) \<times> 'o sockets" where
  "ipc_start self path remove_fault dir_fault bind_fault ss =
     (case (if ss path = None then None else remove_fault) of
        Some e \<Rightarrow> (Inl e, ss)
      | None \<Rightarrow>
          (let ss1 = ss(path := None)
           in case dir_fault of
                Some e \<Rightarrow> (Inl e, ss1)
              | None \<Rightarrow>
                  (case bind_fault of
                     Some e \<Rightarrow> (Inl e, ss1)
                   | None \<Rightarrow> (Inr (), ss1(path \<mapsto> self)))))"

text \<open>The accept loop: the connections that get a task of their own, and whether the loop is over. The
  first failure to accept ends it.\<close>

fun ipc_accept_loop :: "(string + 'c) list \<Rightarrow> 'c list \<times> bool" where
  "ipc_accept_loop [] = ([], False)"
| "ipc_accept_loop (Inr c # evs) = (let (cs, over) = ipc_accept_loop evs in (c # cs, over))"
| "ipc_accept_loop (Inl e # evs) = ([], True)"

text \<open>Two servers on one host that use the same path, as they do by default: the second takes the socket of
  the first, which goes on without being reachable.\<close>

lemma second_server_takes_over:
  assumes "ipc_start a path r1 None None ss = (Inr (), ss1)" and "ipc_start b path None None None ss1 = (res, ss2)"
  shows "ss1 path = Some a \<and> res = Inr () \<and> ss2 path = Some b"
  using assms by (auto simp: ipc_start_def split: option.splits if_splits)

lemma accept_failure_ends_ipc:
  "ipc_accept_loop (map Inr cs @ Inl e # evs) = (cs, True)"
  by (induction cs) simp_all

section \<open>Shell commands\<close>

datatype shell_command =
    ShellGetClipboard
  | ShellSetClipboard string
  | ShellOpenBrowser string
  | ShellSendToClient string
  | ShellStatus
  | ShellPing

fun shell_ipc_command :: "shell_command \<Rightarrow> ipc_command" where
  "shell_ipc_command ShellGetClipboard = IpcGetClipboard"
| "shell_ipc_command (ShellSetClipboard content) = IpcSetClipboard content"
| "shell_ipc_command (ShellOpenBrowser url) = IpcOpenBrowser url"
| "shell_ipc_command (ShellSendToClient message) = SendToClient message"
| "shell_ipc_command ShellStatus = Status"
| "shell_ipc_command ShellPing = IpcPing"

text \<open>A shell command against a running server: the process writes its line, the server reads it, answers
  with a line of its own and then sees the end of the connection, and the process reads that line.\<close>

definition run_shell_command ::
    "ipc_codec \<Rightarrow> (string \<Rightarrow> string + string) \<Rightarrow> time \<Rightarrow> shell_command \<Rightarrow> ipc_server \<times> clipboard
     \<Rightarrow> shell_outcome \<times> ipc_server \<times> clipboard" where
  "run_shell_command cd parse now command st =
     (let sent = snd (ipc_send_command cd None Written (Inr []) (shell_ipc_command command));
          c = snd (ipc_handle_connection cd parse [(None, now, Written), (None, now, Written)]
                \<lparr>ic_input = sent, ic_output = [], ic_server = fst st, ic_clipboard = snd st\<rparr>);
          reply = Inr (fst (read_line (ic_output c)))
      in (handle_shell_command (fst (ipc_send_command cd None Written reply (shell_ipc_command command))),
          ic_server c, ic_clipboard c))"

lemma run_shell_command_eq:
  assumes "renders (enc_command cd) (dec_command cd) (shell_ipc_command command)"
    and "renders (enc_reply cd) (dec_reply cd) response"
    and "ipc_handle_command parse now (shell_ipc_command command) st = (response, st')"
  shows "run_shell_command cd parse now command st = (handle_shell_command (Inr response), st')"
proof -
  obtain sv' cb' where st': "st' = (sv', cb')"
    by (cases st')
  let ?command = "shell_ipc_command command"
  let ?c = "\<lparr>ic_input = line_of (enc_command cd) ?command, ic_output = [], ic_server = fst st, ic_clipboard = snd st\<rparr>"
  have sent: "snd (ipc_send_command cd None Written (Inr []) ?command) = line_of (enc_command cd) ?command"
    using assms(1) by (auto simp: ipc_send_command_def renders_def line_of_def)
  have "ipc_handle_connection cd parse (map (\<lambda>(_, now). (None, now, Written)) [(?command, now)] @ [(None, now, Written)]) ?c =
      (Some (Inr ()), ?c\<lparr>ic_input := [], ic_server := sv', ic_clipboard := cb',
         ic_output := ic_output ?c @ concat (map (line_of (enc_reply cd)) [response])\<rparr>)"
    by (rule ipc_connection_answers) (use assms in \<open>auto simp: st' Let_def\<close>)
  then have handled: "snd (ipc_handle_connection cd parse [(None, now, Written), (None, now, Written)] ?c) =
      ?c\<lparr>ic_input := [], ic_output := line_of (enc_reply cd) response, ic_server := sv', ic_clipboard := cb'\<rparr>"
    by simp
  have "fst (read_line (line_of (enc_reply cd) response)) = line_of (enc_reply cd) response"
    using renders_line(1) [OF assms(2), of "[]"] by simp
  then show ?thesis
    using ipc_send_command_line [OF assms(1,2)]
    by (simp only: run_shell_command_def Let_def sent handled) (simp add: st')
qed

section \<open>Start-up\<close>

record remote_args =
  ra_port :: u16
  ra_stdio :: bool
  ra_ipc_socket :: "path_buf option"
  ra_command :: "shell_command option"

text \<open>What the process meets: whether the startup file can be written, what the subscriber writes to standard
  output for an event (nothing when \<open>RUST_LOG\<close>, or its default of errors only, filters the event), the input on
  standard input, how the bind of the TCP port and the one accept fare, and what the server it finds at a socket
  answers.\<close>

record main_world =
  mw_startup_file :: bool
  mw_log :: "log_level \<times> string \<Rightarrow> bytes"
  mw_stdin :: "read_event list"
  mw_bind :: "u16 \<Rightarrow> string option"
  mw_accept :: "string + read_event list"
  mw_ipc :: "path_buf \<Rightarrow> ipc_command \<Rightarrow> string + ipc_response"

datatype main_result =
    ShellDone shell_outcome
  | TcpFailed string
  | Served bool remote channel

text \<open>\<open>mo_startup_log\<close> is what is on standard output when the arguments are parsed.\<close>

record main_outcome =
  mo_startup_written :: bool
  mo_startup_log :: bytes
  mo_ipc_socket :: "path_buf option"
  mo_result :: main_result

definition ipc_path :: "remote_args \<Rightarrow> path_buf" where
  "ipc_path args = unwrap_or (ra_ipc_socket args) default_ipc_socket_path"

text \<open>The events \<open>main\<close> logs before it parses the arguments, and those between there and the first turn of
  the loop in the \<open>--stdio\<close> mode.\<close>

definition startup_events :: "main_world \<Rightarrow> log_events" where
  "startup_events w =
     (if mw_startup_file w then []
      else [(LevelError, ''REMOTE_SERVER_ERROR: Failed to write to startup file'')]) @
     [(LevelInfo, ''REMOTE_SERVER_STARTUP: Remote server process starting'')]"

definition stdio_events :: log_events where
  "stdio_events =
     [(LevelInfo, ''Starting yuha remote server using standard I/O with simple protocol and IPC''),
      (LevelInfo, ''Remote server starting with simple request-response protocol and IPC'')]"

text \<open>
  The server at work: turns of the loop, and events that the handlers, the channel and the tasks beside the loop
  log. \<open>writes\<close> is what of an event reaches the stream to the client. The events between two turns fall between two
  frames; a task that logs while a frame is being written can split that frame, which is not told apart here.
  When the loop has ended, there are only log events left.
\<close>

datatype process_event =
    Line "log_level \<times> string"
  | Loop loop_event

fun serve_stdio ::
    "environment \<Rightarrow> (bytes \<Rightarrow> string + protocol_request) \<Rightarrow> (protocol_response \<Rightarrow> string + bytes)
     \<Rightarrow> (log_level \<times> string \<Rightarrow> bytes) \<Rightarrow> process_event list \<Rightarrow> bool \<times> remote \<times> channel
     \<Rightarrow> bool \<times> remote \<times> channel" where
  "serve_stdio env from_slice to_vec writes [] st = st"
| "serve_stdio env from_slice to_vec writes (Line l # evs) (running, r, ch) =
     serve_stdio env from_slice to_vec writes evs (running, r, ch\<lparr>outgoing := outgoing ch @ writes l\<rparr>)"
| "serve_stdio env from_slice to_vec writes (Loop ev # evs) (running, r, ch) =
     serve_stdio env from_slice to_vec writes evs
       (if running then serve_loop env from_slice to_vec [ev] (r, ch) else (False, r, ch))"

definition remote_main ::
    "environment \<Rightarrow> (bytes \<Rightarrow> string + protocol_request) \<Rightarrow> (protocol_response \<Rightarrow> string + bytes)
     \<Rightarrow> remote_args \<Rightarrow> main_world \<Rightarrow> process_event list \<Rightarrow> clipboard \<Rightarrow> main_outcome" where
  "remote_main env from_slice to_vec args w evs cb =
     (let logged = (\<lambda>ls. concat (map (mw_log w) ls));
          serve = (\<lambda>writes printed stream.
            case serve_stdio env from_slice to_vec writes evs
                   (True, remote_new cb, (new_with_stream stream)\<lparr>outgoing := printed\<rparr>) of
              (running, r, ch) \<Rightarrow> Served running r ch);
          done = (\<lambda>ipc res. \<lparr>mo_startup_written = mw_startup_file w, mo_startup_log = logged (startup_events w),
                               mo_ipc_socket = ipc, mo_result = res\<rparr>)
      in case ra_command args of
           Some command \<Rightarrow>
             done None (ShellDone (handle_shell_command (mw_ipc w (ipc_path args) (shell_ipc_command command))))
         | None \<Rightarrow>
             if ra_stdio args
             then done (Some (ipc_path args))
                    (serve (mw_log w) (logged (startup_events w @ stdio_events)) (mw_stdin w))
             else case mw_bind w (ra_port args) of
                    Some e \<Rightarrow> done None (TcpFailed e)
                  | None \<Rightarrow>
                      (case mw_accept w of
                         Inl e \<Rightarrow> done None (TcpFailed e)
                       | Inr stream \<Rightarrow> done (Some (ipc_path args)) (serve (\<lambda>_. []) [] stream)))"

text \<open>Over TCP the IPC server is started only once the client has connected.\<close>

lemma ipc_needs_client:
  "ra_command args = None \<Longrightarrow> \<not> ra_stdio args \<Longrightarrow>
   mo_ipc_socket (remote_main env from_slice to_vec args w evs cb) \<noteq> None \<longleftrightarrow>
   mw_bind w (ra_port args) = None \<and> is_ok (mw_accept w)"
  by (auto simp: remote_main_def Let_def split: option.split sum.split)

section \<open>What is logged beside the loop\<close>




abbreviation clean :: "channel \<Rightarrow> channel" where
  "clean ch \<equiv> ch\<lparr>outgoing := []\<rparr>"












section \<open>Properties\<close>





text \<open>C30. The clipboard of the remote host is one: what a shell puts there with \<open>set-clipboard\<close> is printed by
  the next \<open>get-clipboard\<close> and is the last item the client's next clipboard read returns, and what the client
  puts there is what \<open>get-clipboard\<close> prints; each through the socket, with any faithful JSON rendering.\<close>

theorem shell_and_client_share_clipboard:
  assumes "renders (enc_command cd) (dec_command cd) (IpcSetClipboard content)"
    and "renders (enc_command cd) (dec_command cd) IpcGetClipboard"
    and "renders (enc_reply cd) (dec_reply cd) (IpcSuccess None)"
    and "renders (enc_reply cd) (dec_reply cd) (IpcSuccess (Some content))"
    and "clip_poisoned (rs_clipboard r) = None"
    and "run_shell_command cd parse t1 (ShellSetClipboard content) (sv, rs_clipboard r) = (out1, sv1, cb1)"
    and "run_shell_command cd parse t2 ShellGetClipboard (sv1, cb1) = (out2, sv2, cb2)"
    and "run_shell_command cd parse t3 ShellGetClipboard
        (sv, rs_clipboard (snd (handle_set_clipboard content r))) = (out3, sv3, cb3)"
  shows "out1 = Printed [''Success''] \<and> out2 = Printed [content] \<and> out3 = Printed [content] \<and>
    fst (handle_get_clipboard (r\<lparr>rs_clipboard := cb2\<rparr>)) = Data (rb_items (rs_buffer r) @ [ClipboardContent content])"
proof -
  let ?cb = "(rs_clipboard r)\<lparr>clip_storage := content\<rparr>"
  have "run_shell_command cd parse t1 (ShellSetClipboard content) (sv, rs_clipboard r) =
      (handle_shell_command (Inr (IpcSuccess None)), sv, ?cb)"
    by (rule run_shell_command_eq) (use assms in \<open>simp_all add: set_clipboard_def\<close>)
  then have one: "out1 = Printed [''Success'']" "sv1 = sv" "cb1 = ?cb"
    using assms(6) by (simp_all add: handle_shell_command_def)
  have read: "run_shell_command cd parse t ShellGetClipboard (sv, ?cb) =
      (handle_shell_command (Inr (IpcSuccess (Some content))), sv, ?cb)" for t
    by (rule run_shell_command_eq) (use assms in \<open>simp_all add: get_clipboard_def\<close>)
  have "rs_clipboard (snd (handle_set_clipboard content r)) = ?cb"
    using assms(5) by (simp add: handle_set_clipboard_def set_clipboard_def)
  with read assms(7,8) one have "out2 = Printed [content]" "out3 = Printed [content]" "cb2 = ?cb"
    by (simp_all add: handle_shell_command_def)
  with one assms(5) show ?thesis
    by (simp add: handle_get_clipboard_def get_clipboard_def rb_take_items_def add_clipboard_content_def
        rb_add_item_def Let_def)
qed

definition shell_codec :: ipc_codec where
  "shell_codec =
     \<lparr>enc_command = (\<lambda>c. case c of IpcSetClipboard s \<Rightarrow> Inr (''['' @ s @ '']'') | _ \<Rightarrow> Inr ''Get''),
      dec_command = (\<lambda>s. if s = ''Get'' then Inr IpcGetClipboard else Inr (IpcSetClipboard (butlast (tl s)))),
      enc_reply = (\<lambda>r. case r of IpcSuccess (Some s) \<Rightarrow> Inr (''['' @ s @ '']'') | _ \<Rightarrow> Inr ''Success''),
      dec_reply = (\<lambda>s. if s = ''Success'' then Inr (IpcSuccess None) else Inr (IpcSuccess (Some (butlast (tl s)))))\<rparr>"

theorem shell_and_client_share_clipboard_witness:
  "fst (run_shell_command shell_codec Inl 2 ShellGetClipboard
     (snd (run_shell_command shell_codec Inl 1 (ShellSetClipboard ''hi'')
        (ipc_server_started 0, rs_clipboard (remote_new clipboard_init))))) = Printed [''hi'']"
proof -
  have renders: "renders (enc_command shell_codec) (dec_command shell_codec) (IpcSetClipboard ''hi'')"
    "renders (enc_command shell_codec) (dec_command shell_codec) IpcGetClipboard"
    "renders (enc_reply shell_codec) (dec_reply shell_codec) (IpcSuccess None)"
    "renders (enc_reply shell_codec) (dec_reply shell_codec) (IpcSuccess (Some ''hi''))"
    unfolding renders_def
    by (rule exI [of _ "''[hi]''"], simp add: shell_codec_def newline_def solidI,
        rule exI [of _ "''Get''"], simp add: shell_codec_def newline_def solidI,
        rule exI [of _ "''Success''"], simp add: shell_codec_def newline_def solidI,
        rule exI [of _ "''[hi]''"], simp add: shell_codec_def newline_def solidI)
  have clean: "clip_poisoned (rs_clipboard (remote_new clipboard_init)) = None"
    by (simp add: remote_new_def clipboard_init_def)
  show ?thesis
    using shell_and_client_share_clipboard [OF renders clean, of Inl 1 "ipc_server_started 0" _ _ _ 2 _ _ _ 3]
    by (metis prod.collapse)
qed

end
