(* ===== verification/Core_Metrics.thy ===== *)
theory Core_Metrics
  imports Complex_Main Transport
begin

text \<open>
  \<open>crates/core/src/metrics.rs\<close>: named metrics with their recent samples, statistics of operations per
  transport, and the background tasks of the collector. The values of the samples, \<open>f64\<close> in the source,
  are of any type with a zero and an addition, since nothing but these is applied to them; the success
  rate, an \<open>f64\<close> and so a rational number, is what the argument \<open>quot\<close> makes of two counters: the quotient of
  their conversions to \<open>f64\<close>, with its rounding. A panic is \<open>None\<close>.
\<close>

section \<open>Configuration\<close>

record metrics_config =
  me_enabled :: bool
  me_collection_interval :: u64
  me_max_samples :: usize
  me_export_enabled :: bool
  me_export_interval :: u64
  me_export_formats :: "string list"
  me_export_endpoints :: "(string, string) hashmap"

definition metrics_config_default :: metrics_config where
  "metrics_config_default =
     \<lparr>me_enabled = True, me_collection_interval = 30, me_max_samples = 1000, me_export_enabled = False,
      me_export_interval = 60, me_export_formats = [''json''], me_export_endpoints = []\<rparr>"

section \<open>Metrics and their samples\<close>

datatype metric_type = Counter | Gauge | Histogram

record 'v metric_sample =
  ms_timestamp :: time
  ms_value :: 'v
  ms_labels :: "(string, string) hashmap"

record 'v metric =
  mt_name :: string
  mt_type :: metric_type
  mt_help :: string
  mt_samples :: "'v metric_sample list"
  mt_current :: 'v

definition metric_new :: "string \<Rightarrow> metric_type \<Rightarrow> string \<Rightarrow> ('v :: zero) metric" where
  "metric_new name kind help =
     \<lparr>mt_name = name, mt_type = kind, mt_help = help, mt_samples = [], mt_current = 0\<rparr>"

definition metric_add_sample ::
    "time \<Rightarrow> 'v \<Rightarrow> (string, string) hashmap \<Rightarrow> usize \<Rightarrow> ('v :: plus) metric \<Rightarrow> 'v metric" where
  "metric_add_sample now value labels max_samples m =
     (let samples = mt_samples m @ [\<lparr>ms_timestamp = now, ms_value = value, ms_labels = labels\<rparr>];
          current = (case mt_type m of
                       Counter \<Rightarrow> mt_current m + value
                     | Gauge \<Rightarrow> value
                     | Histogram \<Rightarrow> value)
      in m\<lparr>mt_current := current,
           mt_samples := (if length samples > max_samples then tl samples else samples)\<rparr>)"

definition latest_sample :: "'v metric \<Rightarrow> 'v metric_sample option" where
  "latest_sample m = (if mt_samples m = [] then None else Some (last (mt_samples m)))"

definition samples_in_range :: "time \<Rightarrow> time \<Rightarrow> 'v metric \<Rightarrow> 'v metric_sample list" where
  "samples_in_range start stop m =
     filter (\<lambda>s. start \<le> ms_timestamp s \<and> ms_timestamp s \<le> stop) (mt_samples m)"

section \<open>Statistics of operations\<close>

definition duration_max :: duration where
  "duration_max = (2 ^ 64 - 1) * nanos_per_sec + 999999999"

definition duration_add :: "duration \<Rightarrow> duration \<Rightarrow> duration option" where
  "duration_add a b = (if a + b \<le> duration_max then Some (a + b) else None)"

definition duration_div :: "duration \<Rightarrow> u32 \<Rightarrow> duration option" where
  "duration_div d n = (if n = 0 then None else Some (d div unat n))"

record performance_metrics =
  pm_operation_count :: u64
  pm_total :: duration
  pm_avg :: duration
  pm_min :: duration
  pm_max :: duration
  pm_success_rate :: rat
  pm_error_count :: u64

definition performance_metrics_default :: performance_metrics where
  "performance_metrics_default =
     \<lparr>pm_operation_count = 0, pm_total = 0, pm_avg = 0, pm_min = duration_max, pm_max = 0,
      pm_success_rate = 1, pm_error_count = 0\<rparr>"

definition update_success_rate :: "(u64 \<Rightarrow> u64 \<Rightarrow> rat) \<Rightarrow> performance_metrics \<Rightarrow> performance_metrics" where
  "update_success_rate quot m =
     (if pm_operation_count m > 0
      then (let success_count = pm_operation_count m - pm_error_count m
            in m\<lparr>pm_success_rate := quot success_count (pm_operation_count m)\<rparr>)
      else m)"

text \<open>The lines the two recording functions share; the count has been increased before.\<close>

definition account :: "duration \<Rightarrow> performance_metrics \<Rightarrow> performance_metrics option" where
  "account d m =
     (case duration_add (pm_total m) d of
        None \<Rightarrow> None
      | Some t \<Rightarrow>
          (case duration_div t (ucast (pm_operation_count m)) of
             None \<Rightarrow> None
           | Some avg \<Rightarrow>
               Some (m\<lparr>pm_total := t, pm_avg := avg, pm_min := min d (pm_min m),
                       pm_max := max d (pm_max m)\<rparr>)))"

definition perf_record_success ::
    "(u64 \<Rightarrow> u64 \<Rightarrow> rat) \<Rightarrow> duration \<Rightarrow> performance_metrics \<Rightarrow> performance_metrics option" where
  "perf_record_success quot d m =
     map_option (update_success_rate quot) (account d (m\<lparr>pm_operation_count := pm_operation_count m + 1\<rparr>))"

definition perf_record_error ::
    "(u64 \<Rightarrow> u64 \<Rightarrow> rat) \<Rightarrow> duration option \<Rightarrow> performance_metrics \<Rightarrow> performance_metrics option" where
  "perf_record_error quot d m =
     (let m1 = m\<lparr>pm_operation_count := pm_operation_count m + 1, pm_error_count := pm_error_count m + 1\<rparr>
      in map_option (update_success_rate quot) (case d of Some dur \<Rightarrow> account dur m1 | None \<Rightarrow> Some m1))"

section \<open>System metrics\<close>

record transport_metrics =
  tm_connections :: performance_metrics
  tm_bytes_sent :: u64
  tm_bytes_received :: u64
  tm_messages_sent :: u64
  tm_messages_received :: u64
  tm_latency :: performance_metrics
  tm_reconnections :: u64

definition transport_metrics_default :: transport_metrics where
  "transport_metrics_default =
     \<lparr>tm_connections = performance_metrics_default, tm_bytes_sent = 0, tm_bytes_received = 0,
      tm_messages_sent = 0, tm_messages_received = 0, tm_latency = performance_metrics_default,
      tm_reconnections = 0\<rparr>"

record system_metrics =
  sy_transport :: "(transport_type, transport_metrics) hashmap"
  sy_feature_usage :: "(string, u64) hashmap"
  sy_memory_usage :: u64
  sy_cpu_usage :: rat
  sy_uptime :: duration
  sy_start_time :: time

definition system_metrics_default :: "time \<Rightarrow> system_metrics" where
  "system_metrics_default now =
     \<lparr>sy_transport = [], sy_feature_usage = [], sy_memory_usage = 0, sy_cpu_usage = 0, sy_uptime = 0,
      sy_start_time = now\<rparr>"

section \<open>The collector\<close>

text \<open>
  Besides the fields of the source, the numbers of its background tasks that are alive. A task sleeps,
  then looks at the flag it shares with the collector, and ends if the flag is off.
\<close>

record 'v core_collector =
  co_config :: metrics_config
  co_metrics :: "(string, 'v metric) hashmap"
  co_system :: system_metrics
  co_collecting :: bool
  co_exporting :: bool
  co_collection_tasks :: nat
  co_export_tasks :: nat

definition core_collector_new :: "time \<Rightarrow> 'v core_collector" where
  "core_collector_new now =
     \<lparr>co_config = metrics_config_default, co_metrics = [], co_system = system_metrics_default now,
      co_collecting = False, co_exporting = False, co_collection_tasks = 0, co_export_tasks = 0\<rparr>"

definition start_collection_task :: "'v core_collector \<Rightarrow> 'v core_collector" where
  "start_collection_task co =
     (if co_collecting co then co
      else co\<lparr>co_collecting := True, co_collection_tasks := co_collection_tasks co + 1\<rparr>)"

definition start_export_task :: "'v core_collector \<Rightarrow> 'v core_collector" where
  "start_export_task co =
     (if co_exporting co then co
      else co\<lparr>co_exporting := True, co_export_tasks := co_export_tasks co + 1\<rparr>)"

definition collector_init :: "metrics_config \<Rightarrow> 'v core_collector \<Rightarrow> 'v core_collector" where
  "collector_init c co =
     (let co1 = co\<lparr>co_config := c\<rparr>
      in if me_enabled c
         then let co2 = start_collection_task co1
              in if me_export_enabled c then start_export_task co2 else co2
         else co1)"

definition collector_stop :: "'v core_collector \<Rightarrow> 'v core_collector" where
  "collector_stop co = co\<lparr>co_collecting := False, co_exporting := False\<rparr>"

text \<open>A collection task wakes up.\<close>

definition collection_wakes :: "'v core_collector \<Rightarrow> 'v core_collector" where
  "collection_wakes co =
     (if co_collection_tasks co = 0 then co
      else if \<not> co_collecting co then co\<lparr>co_collection_tasks := co_collection_tasks co - 1\<rparr>
      else co\<lparr>co_system := (co_system co)\<lparr>sy_memory_usage := 0, sy_cpu_usage := 0\<rparr>\<rparr>)"

text \<open>The tasks \<open>counter\<close>, \<open>gauge\<close> and \<open>record_histogram\<close> spawn, which differ in the type and the help
  text a new metric gets.\<close>

fun kind_name :: "metric_type \<Rightarrow> string" where
  "kind_name Counter = ''Counter''"
| "kind_name Gauge = ''Gauge''"
| "kind_name Histogram = ''Histogram''"

definition record_value ::
    "metric_type \<Rightarrow> time \<Rightarrow> string \<Rightarrow> 'v \<Rightarrow> (string, string) hashmap \<Rightarrow> ('v :: {zero, plus}) core_collector
     \<Rightarrow> 'v core_collector" where
  "record_value kind now name value labels co =
     (if \<not> me_enabled (co_config co) then co
      else let m = (case hm_get (co_metrics co) name of
                      Some m \<Rightarrow> m
                    | None \<Rightarrow> metric_new name kind (kind_name kind @ '' metric: '' @ name))
           in co\<lparr>co_metrics := hm_insert name
                   (metric_add_sample now value labels (me_max_samples (co_config co)) m) (co_metrics co)\<rparr>)"

definition transport_entry :: "transport_type \<Rightarrow> 'v core_collector \<Rightarrow> transport_metrics" where
  "transport_entry t co =
     (case hm_get (sy_transport (co_system co)) t of Some m \<Rightarrow> m | None \<Rightarrow> transport_metrics_default)"

definition put_transport :: "transport_type \<Rightarrow> transport_metrics \<Rightarrow> 'v core_collector \<Rightarrow> 'v core_collector" where
  "put_transport t m co =
     co\<lparr>co_system := (co_system co)\<lparr>sy_transport := hm_insert t m (sy_transport (co_system co))\<rparr>\<rparr>"

definition record_transport_connection ::
    "(u64 \<Rightarrow> u64 \<Rightarrow> rat) \<Rightarrow> transport_type \<Rightarrow> duration \<Rightarrow> bool \<Rightarrow> 'v core_collector
     \<Rightarrow> 'v core_collector option" where
  "record_transport_connection quot t d success co =
     (let m = transport_entry t co
      in map_option (\<lambda>p. put_transport t (m\<lparr>tm_connections := p\<rparr>) co)
           (if success then perf_record_success quot d (tm_connections m)
            else perf_record_error quot (Some d) (tm_connections m)))"

definition record_data_transfer ::
    "transport_type \<Rightarrow> u64 \<Rightarrow> u64 \<Rightarrow> 'v core_collector \<Rightarrow> 'v core_collector" where
  "record_data_transfer t sent received co =
     (let m = transport_entry t co
      in put_transport t
           (m\<lparr>tm_bytes_sent := tm_bytes_sent m + sent, tm_bytes_received := tm_bytes_received m + received\<rparr>) co)"

definition record_feature_usage :: "string \<Rightarrow> 'v core_collector \<Rightarrow> 'v core_collector" where
  "record_feature_usage feature co =
     (let sy = co_system co;
          n = (case hm_get (sy_feature_usage sy) feature of Some n \<Rightarrow> n | None \<Rightarrow> 0)
      in co\<lparr>co_system := sy\<lparr>sy_feature_usage := hm_insert feature (n + 1) (sy_feature_usage sy)\<rparr>\<rparr>)"

definition get_metrics_snapshot :: "'v core_collector \<Rightarrow> (string, 'v metric) hashmap" where
  "get_metrics_snapshot co = co_metrics co"

definition get_system_metrics :: "time \<Rightarrow> 'v core_collector \<Rightarrow> system_metrics \<times> 'v core_collector" where
  "get_system_metrics now co =
     (let sy = (co_system co)\<lparr>sy_uptime := now - sy_start_time (co_system co)\<rparr>
      in (sy, co\<lparr>co_system := sy\<rparr>))"

text \<open>\<open>to_string_pretty\<close> of the exported data is an argument.\<close>

definition export_json ::
    "(time \<Rightarrow> (string, 'v metric) hashmap \<Rightarrow> system_metrics \<Rightarrow> string + string) \<Rightarrow> time \<Rightarrow> 'v core_collector
     \<Rightarrow> (yuha_error + string) \<times> 'v core_collector" where
  "export_json to_string now co =
     (let (sy, co1) = get_system_metrics now co
      in (map_err (\<lambda>e. err_internal (''Failed to serialize metrics: '' @ e))
            (to_string now (get_metrics_snapshot co) sy), co1))"

definition export_wakes ::
    "(time \<Rightarrow> (string, 'v metric) hashmap \<Rightarrow> system_metrics \<Rightarrow> string + string) \<Rightarrow> time
     \<Rightarrow> 'v core_collector \<Rightarrow> 'v core_collector" where
  "export_wakes to_string now co =
     (if co_export_tasks co = 0 then co
      else if \<not> co_exporting co then co\<lparr>co_export_tasks := co_export_tasks co - 1\<rparr>
      else snd (export_json to_string now co))"

text \<open>A timer is its start and its name.\<close>

definition timer_stop :: "time \<Rightarrow> time \<times> string \<Rightarrow> duration" where
  "timer_stop now t = now - fst t"

definition stop_and_record ::
    "(duration \<Rightarrow> 'v) \<Rightarrow> time \<Rightarrow> time \<times> string \<Rightarrow> ('v :: {zero, plus}) core_collector
     \<Rightarrow> duration \<times> 'v core_collector" where
  "stop_and_record as_secs now t co =
     (let d = timer_stop now t
      in (d, record_value Histogram now ''operation_duration_seconds'' (as_secs d)
               [(''operation'', snd t)] co))"

section \<open>Runs of operations\<close>

text \<open>A list of timed operations, each with its duration and whether it succeeded.\<close>

definition perf_record :: "(u64 \<Rightarrow> u64 \<Rightarrow> rat) \<Rightarrow> duration \<times> bool \<Rightarrow> performance_metrics \<Rightarrow> performance_metrics option" where
  "perf_record quot op m = (if snd op then perf_record_success quot (fst op) m else perf_record_error quot (Some (fst op)) m)"

fun perf_run :: "(u64 \<Rightarrow> u64 \<Rightarrow> rat) \<Rightarrow> (duration \<times> bool) list \<Rightarrow> performance_metrics \<Rightarrow> performance_metrics option" where
  "perf_run quot [] m = Some m"
| "perf_run quot (op # ops) m = Option.bind (perf_record quot op m) (perf_run quot ops)"

definition failures :: "(duration \<times> bool) list \<Rightarrow> nat" where
  "failures ops = length (filter (\<lambda>op. \<not> snd op) ops)"

lemma failures_append [simp]: "failures (xs @ ys) = failures xs + failures ys"
  by (simp add: failures_def)

lemma failures_le: "failures ops \<le> length ops"
  by (simp add: failures_def)

text \<open>The state after a list of operations, in closed form.\<close>

definition summary :: "(u64 \<Rightarrow> u64 \<Rightarrow> rat) \<Rightarrow> (duration \<times> bool) list \<Rightarrow> performance_metrics \<Rightarrow> bool" where
  "summary quot ops m \<longleftrightarrow>
     unat (pm_operation_count m) = length ops \<and> unat (pm_error_count m) = failures ops \<and>
     pm_total m = sum_list (map fst ops) \<and> pm_avg m = sum_list (map fst ops) div length ops \<and>
     pm_min m = fold min (map fst ops) duration_max \<and> pm_max m = fold max (map fst ops) 0 \<and>
     pm_success_rate m = (if ops = [] then 1 else quot (of_nat (length ops - failures ops)) (of_nat (length ops)))"

lemma perf_run_append: "perf_run quot (xs @ ys) m = Option.bind (perf_run quot xs m) (perf_run quot ys)"
  by (induction xs arbitrary: m) (auto split: bind_splits)

lemma perf_record_cases:
  "perf_record quot op m = map_option (update_success_rate quot) (account (fst op)
     (m\<lparr>pm_operation_count := pm_operation_count m + 1,
        pm_error_count := pm_error_count m + (if snd op then 0 else 1)\<rparr>))"
  by (simp add: perf_record_def perf_record_success_def perf_record_error_def)

lemma word_unat_roundtrip: "of_nat (unat (w :: 'a :: len word)) = w"
  by simp

lemma perf_record_summary:
  assumes "summary quot ops m" and "Suc (length ops) < 2 ^ 32" and "sum_list (map fst (ops @ [op])) \<le> duration_max"
  shows "\<exists>m'. perf_record quot op m = Some m' \<and> summary quot (ops @ [op]) m'"
proof -
  let ?n = "pm_operation_count m + 1" and ?e = "pm_error_count m + (if snd op then 0 else 1)"
  have n: "unat ?n = Suc (length ops)"
    using assms(1,2) unat_inc [of "pm_operation_count m"] by (simp add: summary_def)
  have "Suc (unat (pm_error_count m)) < 2 ^ LENGTH(64)"
    using assms(1,2) failures_le [of ops] by (simp add: summary_def)
  then have "unat (pm_error_count m + 1) = Suc (failures ops)"
    using assms(1) unat_inc [of "pm_error_count m"] by (simp add: summary_def)
  then have e: "unat ?e = failures (ops @ [op])"
    using assms(1) by (simp add: summary_def failures_def)
  have cast: "unat (ucast ?n :: u32) = Suc (length ops)"
    using n assms(2) by (simp add: unsigned_ucast_eq take_bit_eq_mod)
  then have "(ucast ?n :: u32) \<noteq> 0"
    by (metis nat.distinct(1) unat_0)
  then have acc: "account (fst op) (m\<lparr>pm_operation_count := ?n, pm_error_count := ?e\<rparr>) =
      Some (m\<lparr>pm_operation_count := ?n, pm_error_count := ?e, pm_total := sum_list (map fst (ops @ [op])),
        pm_avg := sum_list (map fst (ops @ [op])) div Suc (length ops), pm_min := min (fst op) (pm_min m),
        pm_max := max (fst op) (pm_max m)\<rparr>)"
    using assms(1,3) cast by (simp add: account_def duration_add_def duration_div_def summary_def)
  have le: "?e \<le> ?n"
    using n e failures_le [of "ops @ [op]"] by (simp add: word_le_nat_alt)
  have pos: "0 < ?n"
    using n by (metis nat.distinct(1) unat_0 word_neq_0_conv)
  have "unat (?n - ?e) = Suc (length ops) - failures (ops @ [op])"
    using le n e by (simp add: unat_sub)
  then have rate: "?n - ?e = of_nat (Suc (length ops) - failures (ops @ [op]))"
    by (metis word_unat_roundtrip)
  have count: "?n = of_nat (Suc (length ops))"
    using n by (metis word_unat_roundtrip)
  have q: "quot (?n - ?e) ?n = quot (of_nat (length (ops @ [op]) - failures (ops @ [op]))) (of_nat (length (ops @ [op])))"
    unfolding rate using count by (simp add: failures_def add.commute)
  show ?thesis
    using assms(1) n e q pos
    by (simp add: perf_record_cases acc update_success_rate_def summary_def min.commute max.commute Let_def)
qed

lemma perf_run_summary:
  "length ops < 2 ^ 32 \<Longrightarrow> sum_list (map fst ops) \<le> duration_max \<Longrightarrow>
   \<exists>m. perf_run quot ops performance_metrics_default = Some m \<and> summary quot ops m"
proof (induction ops rule: rev_induct)
  case Nil
  then show ?case
    by (simp add: summary_def performance_metrics_default_def failures_def)
next
  case (snoc op ops)
  then obtain m where "perf_run quot ops performance_metrics_default = Some m" and "summary quot ops m"
    by auto
  with perf_record_summary [of quot ops m op] snoc.prems show ?case
    by (auto simp: perf_run_append)
qed

lemma average_between:
  assumes "ds \<noteq> []" and "\<And>d. d \<in> set ds \<Longrightarrow> lo \<le> d \<and> d \<le> (hi :: nat)"
  shows "lo \<le> sum_list ds div length ds \<and> sum_list ds div length ds \<le> hi"
proof -
  have "lo * length ds \<le> sum_list ds" and "sum_list ds \<le> hi * length ds"
    using assms(2) by (induction ds) (auto simp: add_mono)
  moreover have "0 < length ds"
    using assms(1) by simp
  ultimately show ?thesis
    by (metis div_le_mono nonzero_mult_div_cancel_right neq0_conv)
qed

section \<open>Properties\<close>

text \<open>C40. The statistics of timed operations are exact as long as the counter fits 32 bits: after fewer than
  \<open>2 ^ 32\<close> operations whose durations sum up to one the type can hold, nothing has panicked, the counts are the
  numbers of operations and of failures, the total is the sum of the durations, the average is the total divided
  by the number of operations and lies between the minimum and the maximum, these are the least and the greatest
  duration, and the success rate is the \<open>f64\<close> quotient of the operations that succeeded and all of them.\<close>

theorem perf_statistics_exact:
  assumes "length ops < 2 ^ 32" and "sum_list (map fst ops) \<le> duration_max" and "ops \<noteq> []"
  shows "\<exists>m. perf_run quot ops performance_metrics_default = Some m \<and>
    unat (pm_operation_count m) = length ops \<and> unat (pm_error_count m) = failures ops \<and>
    pm_total m = sum_list (map fst ops) \<and> pm_avg m = sum_list (map fst ops) div length ops \<and>
    pm_min m \<le> pm_avg m \<and> pm_avg m \<le> pm_max m \<and>
    pm_min m = Min (set (map fst ops)) \<and> pm_max m = Max (set (map fst ops)) \<and>
    pm_success_rate m = quot (of_nat (length ops - failures ops)) (of_nat (length ops))"
proof -
  obtain m where run: "perf_run quot ops performance_metrics_default = Some m" and m: "summary quot ops m"
    using perf_run_summary [OF assms(1,2)] by blast
  let ?ds = "map fst ops"
  have ne: "set ?ds \<noteq> {}"
    using assms(3) by simp
  have "Min (set ?ds) \<le> sum_list ?ds"
    using ne member_le_sum_list [of "Min (set ?ds)" ?ds] Min_in [of "set ?ds"] by simp
  then have "min duration_max (Min (set ?ds)) = Min (set ?ds)"
    using assms(2) by simp
  then have mn: "pm_min m = Min (set ?ds)"
    using m ne by (simp add: summary_def Min.set_eq_fold [symmetric] flip: Min_insert)
  have mx: "pm_max m = Max (set ?ds)"
    using m ne by (simp add: summary_def Max.set_eq_fold [symmetric])
  have "Min (set ?ds) \<le> sum_list ?ds div length ?ds \<and> sum_list ?ds div length ?ds \<le> Max (set ?ds)"
    using assms(3) by (intro average_between) auto
  then show ?thesis
    using run m mn mx assms(3) by (auto simp: summary_def)
qed

theorem perf_statistics_exact_witness:
  "\<exists>m. perf_run (\<lambda>n d. of_nat (unat n) / of_nat (unat d)) [(100, True), (200, True), (50, False)]
       performance_metrics_default = Some m \<and>
     pm_success_rate m = 2 / 3 \<and> pm_total m = 350 \<and> pm_avg m = 116 \<and> pm_min m = 50 \<and> pm_max m = 200"
proof -
  let ?ops = "[(100, True), (200, True), (50, False)] :: (duration \<times> bool) list"
  have "sum_list (map fst ?ops) \<le> duration_max"
    by (simp add: duration_max_def nanos_per_sec_def)
  from perf_statistics_exact [OF _ this, of "\<lambda>n d. of_nat (unat n) / of_nat (unat d)"] show ?thesis
    by (auto simp: failures_def)
qed

text \<open>The statistics end in a panic: the operation that makes the count a multiple of \<open>2 ^ 32\<close> divides
  the total by the count cut to 32 bits, which is zero.\<close>

theorem perf_panics_at_multiples:
  assumes "unat (pm_operation_count m) mod 2 ^ 32 = 2 ^ 32 - 1"
  shows "perf_record_success quot d m = None \<and> perf_record_error quot (Some d) m = None"
proof -
  have "unat (pm_operation_count m + 1) mod 2 ^ 32 = Suc (unat (pm_operation_count m)) mod 2 ^ 32"
    by (simp add: unat_word_ariths take_bit_eq_mod mod_mod_cancel)
  also have "\<dots> = 0"
    using assms by (simp add: mod_Suc)
  finally have "unat (ucast (pm_operation_count m + 1) :: u32) = 0"
    by (simp add: unsigned_ucast_eq take_bit_eq_mod)
  then have "(ucast (pm_operation_count m + 1) :: u32) = 0"
    by (simp add: unat_eq_zero)
  then show ?thesis
    by (simp add: perf_record_success_def perf_record_error_def account_def duration_div_def Let_def
        split: option.split)
qed

theorem perf_panics_at_multiples_witness:
  "perf_record_success (\<lambda>_ _. 1) 5 (performance_metrics_default\<lparr>pm_operation_count := 0xFFFFFFFF\<rparr>) = None"
  using perf_panics_at_multiples [of "performance_metrics_default\<lparr>pm_operation_count := 0xFFFFFFFF\<rparr>" "\<lambda>_ _. 1" 5]
  by simp

text \<open>A failure without a duration counts as an operation for the average of the next timed one, which
  then lies below the minimum.\<close>

lemma untimed_failure_skews_average:
  assumes "1 < d" and "d \<le> duration_max"
  shows "\<exists>m m'. perf_record_error quot None performance_metrics_default = Some m \<and>
    perf_record_success quot d m = Some m' \<and> pm_avg m' = d div 2 \<and> pm_min m' = d \<and> pm_avg m' < pm_min m'"
  using assms
  by (simp add: perf_record_error_def perf_record_success_def performance_metrics_default_def account_def
      duration_add_def duration_div_def update_success_rate_def Let_def)

text \<open>Stopping and starting the collector within one interval leaks a task: the stopped task finds the
  flag on again when it wakes and goes on, and a new one was started. After \<open>n\<close> such restarts \<open>n + 1\<close> tasks
  run, however often they wake, until a stop lasts for an interval.\<close>

theorem restarts_accumulate_tasks:
  assumes "me_enabled c" and "\<not> co_collecting co"
  shows "co_collection_tasks ((collection_wakes ^^ k) (collector_init c
      (((\<lambda>co. collector_stop (collector_init c co)) ^^ n) co))) = co_collection_tasks co + n + 1"
proof -
  let ?restart = "\<lambda>co. collector_stop (collector_init c co)"
  have start: "co_collecting (start_collection_task a)"
    "co_collection_tasks (start_export_task a) = co_collection_tasks a"
    "co_collecting (start_export_task a) = co_collecting a" for a :: "'a core_collector"
    by (simp_all add: start_collection_task_def start_export_task_def)
  have init: "co_collecting (collector_init c a)"
    "\<not> co_collecting a \<Longrightarrow> co_collection_tasks (collector_init c a) = co_collection_tasks a + 1" for a :: "'a core_collector"
    using assms(1) by (auto simp: collector_init_def Let_def start) (simp_all add: start_collection_task_def)
  have "\<not> co_collecting ((?restart ^^ n) co) \<and> co_collection_tasks ((?restart ^^ n) co) = co_collection_tasks co + n"
    by (induction n) (simp_all add: assms(2) init collector_stop_def)
  moreover have "co_collecting ((collection_wakes ^^ k) a) \<and>
      co_collection_tasks ((collection_wakes ^^ k) a) = co_collection_tasks a" if "co_collecting a" for a :: "'a core_collector"
    using that by (induction k) (simp_all add: collection_wakes_def)
  ultimately show ?thesis
    using init by simp
qed

theorem restarts_accumulate_tasks_witness:
  "co_collection_tasks ((collection_wakes ^^ 9) (collector_init metrics_config_default
     (((\<lambda>co. collector_stop (collector_init metrics_config_default co)) ^^ 4) (core_collector_new 0 :: nat core_collector)))) = 5"
  using restarts_accumulate_tasks [of metrics_config_default "core_collector_new 0 :: nat core_collector" 9 4]
  by (simp add: metrics_config_default_def core_collector_new_def)

text \<open>A metric keeps its most recent samples: after any sequence of recordings it holds, in order, the
  last \<open>n\<close> of them for a limit of \<open>n\<close>, and its value is the sum of all of them for a counter and the last one
  otherwise.\<close>

definition add_all :: "usize \<Rightarrow> (time \<times> 'v) list \<Rightarrow> ('v :: plus) metric \<Rightarrow> 'v metric" where
  "add_all n vs m = fold (\<lambda>(now, v). metric_add_sample now v [] n) vs m"

theorem metric_keeps_latest:
  fixes vs :: "(time \<times> ('v :: {zero, plus})) list"
  shows "map (\<lambda>s. (ms_timestamp s, ms_value s)) (mt_samples (add_all n vs (metric_new name kind help))) =
      drop (length vs - n) vs \<and>
    mt_current (add_all n vs (metric_new name kind help)) =
      (case kind of Counter \<Rightarrow> fold (\<lambda>v acc. acc + v) (map snd vs) 0
       | _ \<Rightarrow> (if vs = [] then 0 else snd (last vs)))"
proof (induction vs rule: rev_induct)
  case Nil
  then show ?case
    by (simp add: add_all_def metric_new_def split: metric_type.split)
next
  case (snoc p vs)
  obtain now v where p: "p = (now, v)"
    by (cases p)
  let ?m = "add_all n vs (metric_new name kind help)" and ?f = "\<lambda>s. (ms_timestamp s, ms_value s)"
  have kind: "mt_type (add_all n ws (metric_new name kind help)) = kind" for ws :: "(time \<times> 'v) list"
    by (induction ws rule: rev_induct) (auto simp: add_all_def metric_new_def metric_add_sample_def Let_def)
  have len: "length (mt_samples ?m) = min n (length vs)"
    using arg_cong [OF conjunct1 [OF snoc.IH], of length] by simp
  have step: "add_all n (vs @ [p]) (metric_new name kind help) = metric_add_sample now v [] n ?m"
    by (simp add: add_all_def p)
  have drop_tl: "tl (drop k vs @ [p]) = drop (Suc k) (vs @ [p])" if "k \<le> length vs" for k
    using that by (simp add: drop_Suc tl_drop [symmetric] flip: drop_append) (simp add: tl_drop)
  have "map ?f (mt_samples (metric_add_sample now v [] n ?m)) =
      (if n < Suc (min n (length vs)) then tl (map ?f (mt_samples ?m) @ [p]) else map ?f (mt_samples ?m) @ [p])"
    by (simp add: metric_add_sample_def len p Let_def map_tl)
  also have "\<dots> = drop (length (vs @ [p]) - n) (vs @ [p])"
    using snoc.IH drop_tl [of "length vs - n"] by (auto simp: Suc_diff_le)
  finally have window: "map ?f (mt_samples (metric_add_sample now v [] n ?m)) = drop (length (vs @ [p]) - n) (vs @ [p])" .
  have "mt_current (metric_add_sample now v [] n ?m) =
      (case kind of Counter \<Rightarrow> mt_current ?m + v | _ \<Rightarrow> v)"
    by (simp add: metric_add_sample_def kind Let_def)
  with snoc.IH window show ?case
    unfolding step by (cases kind) (simp_all add: p)
qed

end
