(* ===== verification/Config.thy ===== *)
theory Config
  imports Logging Core_Metrics
begin

text \<open>
  \<open>crates/core/src/config.rs\<close>: the configuration file, its defaults, profiles, the overrides from the
  environment and the validation. The \<open>toml\<close> crate and the file system are arguments; \<open>parse\<close> of the
  unsigned types is written out.
\<close>

section \<open>Types and defaults\<close>

record client_config =
  cc_connection_timeout :: u64
  cc_max_retries :: u32
  cc_default_binary_path :: "path_buf option"
  cc_auto_upload_binary :: bool
  cc_working_dir :: "path_buf option"

record temp_file_config =
  tf_startup_file :: path_buf
  tf_panic_file :: path_buf
  tf_stderr_file :: path_buf

record remote_config =
  rc_default_port :: u16
  rc_polling_timeout :: u64
  rc_polling_interval :: u64
  rc_buffer_size :: usize
  rc_temp_files :: temp_file_config

record port_forward_config =
  pf_buffer_size :: usize
  pf_max_concurrent :: u32
  pf_timeout :: u64

record timeout_config =
  to_connect :: u64
  to_read :: u64
  to_write :: u64

record network_config =
  nc_ssh_port :: u16
  nc_bind_address :: string
  nc_port_forward :: port_forward_config
  nc_timeouts :: timeout_config

record profile_ssh =
  ps_host :: string
  ps_port :: u16
  ps_username :: string
  ps_password :: "string option"
  ps_key_path :: "path_buf option"
  ps_auto_upload_binary :: bool

record profile_local =
  pl_binary_path :: path_buf
  pl_args :: "string list"
  pl_working_dir :: "path_buf option"

record 'toml connection_profile =
  cp_name :: string
  cp_ssh :: "profile_ssh option"
  cp_local :: "profile_local option"
  cp_env_vars :: "(string, string) hashmap"
  cp_overrides :: "(string, 'toml) hashmap"

record 'toml yuha_config =
  yc_client :: client_config
  yc_remote :: remote_config
  yc_network :: network_config
  yc_logging :: logging_config
  yc_metrics :: metrics_config
  yc_profiles :: "(string, 'toml connection_profile) hashmap"

definition client_config_default :: client_config where
  "client_config_default =
     \<lparr>cc_connection_timeout = 30, cc_max_retries = 3, cc_default_binary_path = None,
      cc_auto_upload_binary = False, cc_working_dir = None\<rparr>"

definition temp_file_config_default :: temp_file_config where
  "temp_file_config_default =
     \<lparr>tf_startup_file = ''/tmp/yuha_startup.txt'', tf_panic_file = ''/tmp/yuha_panic.txt'',
      tf_stderr_file = ''/tmp/yuha_stderr.log''\<rparr>"

definition remote_config_default :: remote_config where
  "remote_config_default =
     \<lparr>rc_default_port = 9999, rc_polling_timeout = 5, rc_polling_interval = 10, rc_buffer_size = 4096,
      rc_temp_files = temp_file_config_default\<rparr>"

definition port_forward_config_default :: port_forward_config where
  "port_forward_config_default = \<lparr>pf_buffer_size = 4096, pf_max_concurrent = 100, pf_timeout = 60\<rparr>"

definition timeout_config_default :: timeout_config where
  "timeout_config_default = \<lparr>to_connect = 10, to_read = 30, to_write = 30\<rparr>"

definition network_config_default :: network_config where
  "network_config_default =
     \<lparr>nc_ssh_port = 22, nc_bind_address = ''0.0.0.0'', nc_port_forward = port_forward_config_default,
      nc_timeouts = timeout_config_default\<rparr>"

definition yuha_config_default :: "'toml yuha_config" where
  "yuha_config_default =
     \<lparr>yc_client = client_config_default, yc_remote = remote_config_default,
      yc_network = network_config_default, yc_logging = logging_config_default,
      yc_metrics = metrics_config_default, yc_profiles = []\<rparr>"

section \<open>Files\<close>

text \<open>What reading a file yields, by path.\<close>

type_synonym files = "path_buf \<Rightarrow> string + string"

definition load_from_file ::
    "(string \<Rightarrow> string + 'toml yuha_config) \<Rightarrow> files \<Rightarrow> path_buf \<Rightarrow> yuha_error + 'toml yuha_config" where
  "load_from_file from_str fs path =
     (case fs path of
        Inl e \<Rightarrow> Inl (err_config (''Failed to read config file: '' @ e))
      | Inr contents \<Rightarrow>
          map_err (\<lambda>e. err_config (''Failed to parse config file: '' @ e)) (from_str contents))"

text \<open>\<open>mkdir\<close> and \<open>write\<close> are the failures of creating the directory and of writing the file.\<close>

definition save_to_file ::
    "('toml yuha_config \<Rightarrow> string + string) \<Rightarrow> (path_buf \<Rightarrow> string option) \<Rightarrow> (path_buf \<Rightarrow> string option)
     \<Rightarrow> path_buf \<Rightarrow> 'toml yuha_config \<Rightarrow> files \<Rightarrow> (yuha_error + unit) \<times> files" where
  "save_to_file to_string mkdir write path c fs =
     (case to_string c of
        Inl e \<Rightarrow> (Inl (err_config (''Failed to serialize config: '' @ e)), fs)
      | Inr contents \<Rightarrow>
          (case mkdir path of
             Some e \<Rightarrow> (Inl (err_config (''Failed to create config directory: '' @ e)), fs)
           | None \<Rightarrow>
               (case write path of
                  Some e \<Rightarrow> (Inl (err_config (''Failed to write config file: '' @ e)), fs)
                | None \<Rightarrow> (Inr (), fs(path := Inr contents)))))"

definition config_paths :: "path_buf option \<Rightarrow> path_buf option \<Rightarrow> path_buf list" where
  "config_paths config_dir home_dir =
     [''yuha.toml'', ''.yuha.toml''] @
     (case config_dir of Some d \<Rightarrow> [d @ ''/yuha/config.toml''] | None \<Rightarrow> []) @
     (case home_dir of Some d \<Rightarrow> [d @ ''/.yuha.toml''] | None \<Rightarrow> []) @
     [''/etc/yuha/config.toml'']"

fun load_first ::
    "(string \<Rightarrow> string + 'toml yuha_config) \<Rightarrow> (path_buf \<Rightarrow> bool) \<Rightarrow> files \<Rightarrow> path_buf list
     \<Rightarrow> 'toml yuha_config" where
  "load_first from_str exists fs [] = yuha_config_default"
| "load_first from_str exists fs (p # ps) =
     (if exists p
      then (case load_from_file from_str fs p of
              Inr c \<Rightarrow> c
            | Inl _ \<Rightarrow> load_first from_str exists fs ps)
      else load_first from_str exists fs ps)"

definition load_with_fallback ::
    "(string \<Rightarrow> string + 'toml yuha_config) \<Rightarrow> (path_buf \<Rightarrow> bool) \<Rightarrow> files \<Rightarrow> path_buf option
     \<Rightarrow> path_buf option \<Rightarrow> 'toml yuha_config" where
  "load_with_fallback from_str exists fs config_dir home_dir =
     load_first from_str exists fs (config_paths config_dir home_dir)"

section \<open>Profiles and durations\<close>

definition get_profile :: "string \<Rightarrow> 'toml yuha_config \<Rightarrow> 'toml connection_profile option" where
  "get_profile name c = hm_get (yc_profiles c) name"

definition set_profile :: "'toml connection_profile \<Rightarrow> 'toml yuha_config \<Rightarrow> 'toml yuha_config" where
  "set_profile p c = c\<lparr>yc_profiles := hm_insert (cp_name p) p (yc_profiles c)\<rparr>"

definition remove_profile ::
    "string \<Rightarrow> 'toml yuha_config \<Rightarrow> 'toml connection_profile option \<times> 'toml yuha_config" where
  "remove_profile name c =
     (hm_get (yc_profiles c) name, c\<lparr>yc_profiles := hm_remove name (yc_profiles c)\<rparr>)"

definition connection_timeout :: "'toml yuha_config \<Rightarrow> duration" where
  "connection_timeout c = from_secs (cc_connection_timeout (yc_client c))"

definition polling_timeout :: "'toml yuha_config \<Rightarrow> duration" where
  "polling_timeout c = from_secs (rc_polling_timeout (yc_remote c))"

definition polling_interval :: "'toml yuha_config \<Rightarrow> duration" where
  "polling_interval c = from_millis (rc_polling_interval (yc_remote c))"

section \<open>The environment\<close>

definition digit_value :: "char \<Rightarrow> nat option" where
  "digit_value ch =
     (let n = (of_char ch :: nat) in if 48 \<le> n \<and> n \<le> 57 then Some (n - 48) else None)"

fun digits_value :: "nat \<Rightarrow> string \<Rightarrow> nat option" where
  "digits_value acc [] = Some acc"
| "digits_value acc (ch # cs) =
     (case digit_value ch of Some d \<Rightarrow> digits_value (10 * acc + d) cs | None \<Rightarrow> None)"

text \<open>\<open>str::parse\<close> at an unsigned type whose greatest value is \<open>limit\<close>: an optional plus sign and at least
  one digit.\<close>

definition parse_unsigned :: "nat \<Rightarrow> string \<Rightarrow> nat option" where
  "parse_unsigned limit s =
     (let ds = (if s \<noteq> [] \<and> hd s = CHR ''+'' then tl s else s)
      in if ds = [] then None
         else case digits_value 0 ds of
                Some n \<Rightarrow> if n \<le> limit then Some n else None
              | None \<Rightarrow> None)"

definition merge_with_env :: "(string \<Rightarrow> string option) \<Rightarrow> 'toml yuha_config \<Rightarrow> 'toml yuha_config" where
  "merge_with_env env c =
     (let c1 = (case env ''RUST_LOG'' of
                  Some s \<Rightarrow>
                    (case parse_log_level s of
                       Inr l \<Rightarrow> c\<lparr>yc_logging := (yc_logging c)\<lparr>lg_level := l\<rparr>\<rparr>
                     | Inl _ \<Rightarrow> c)
                | None \<Rightarrow> c);
          c2 = (case env ''YUHA_TCP_PORT'' of
                  Some s \<Rightarrow>
                    (case parse_unsigned 65535 s of
                       Some n \<Rightarrow> c1\<lparr>yc_remote := (yc_remote c1)\<lparr>rc_default_port := of_nat n\<rparr>\<rparr>
                     | None \<Rightarrow> c1)
                | None \<Rightarrow> c1);
          c3 = (case env ''YUHA_TIMEOUT'' of
                  Some s \<Rightarrow>
                    (case parse_unsigned (2 ^ 64 - 1) s of
                       Some n \<Rightarrow> c2\<lparr>yc_client := (yc_client c2)\<lparr>cc_connection_timeout := of_nat n\<rparr>\<rparr>
                     | None \<Rightarrow> c2)
                | None \<Rightarrow> c2)
      in case env ''YUHA_BINARY_PATH'' of
           Some p \<Rightarrow> c3\<lparr>yc_client := (yc_client c3)\<lparr>cc_default_binary_path := Some p\<rparr>\<rparr>
         | None \<Rightarrow> c3)"

section \<open>Validation\<close>

definition validate_config :: "'toml yuha_config \<Rightarrow> yuha_error + unit" where
  "validate_config c =
     (if nc_ssh_port (yc_network c) = 0 then Inl (err_config ''SSH port cannot be 0'')
      else if rc_default_port (yc_remote c) = 0 then Inl (err_config ''TCP port cannot be 0'')
      else if cc_connection_timeout (yc_client c) = 0
      then Inl (err_config ''Connection timeout must be greater than 0'')
      else if rc_polling_timeout (yc_remote c) = 0
      then Inl (err_config ''Polling timeout must be greater than 0'')
      else if rc_buffer_size (yc_remote c) = 0
      then Inl (err_config ''Buffer size must be greater than 0'')
      else Inr ())"

section \<open>Lemmas\<close>

lemma digit_value_digit: "d < 10 \<Longrightarrow> digit_value (digit d) = Some d"
  by (simp add: digit_value_def digit_def Let_def)

lemma digits_value_append:
  "digits_value a (xs @ ys) = Option.bind (digits_value a xs) (\<lambda>b. digits_value b ys)"
  by (induction a xs rule: digits_value.induct) (auto split: option.split)

lemma digits_value_show: "digits_value 0 (show_nat n) = Some n"
proof (induction n rule: show_nat.induct)
  case (1 n)
  have s: "show_nat n = (if n < 10 then [digit n] else show_nat (n div 10) @ [digit (n mod 10)])"
    by (rule show_nat.simps)
  show ?case
    using 1 by (simp add: s digits_value_append digit_value_digit)
qed

lemma parse_show_unsigned: "parse_unsigned limit (show_nat n) = (if n \<le> limit then Some n else None)"
proof -
  have "hd (show_nat n) \<noteq> CHR ''+''"
  proof
    assume plus: "hd (show_nat n) = CHR ''+''"
    obtain d where "d < 10" and "hd (show_nat n) = digit d"
      using show_nat_digits [of "hd (show_nat n)" n] show_nat_nonempty [of n] by auto
    then have "digit_value (CHR ''+'') = Some d"
      using digit_value_digit [of d] plus by simp
    then show False
      by (simp add: digit_value_def Let_def)
  qed
  then show ?thesis
    by (simp add: parse_unsigned_def show_nat_nonempty digits_value_show Let_def)
qed

lemma merge_with_env_simps [simp]:
  "yc_network (merge_with_env env c) = yc_network c"
  "yc_profiles (merge_with_env env c) = yc_profiles c"
  "rc_polling_timeout (yc_remote (merge_with_env env c)) = rc_polling_timeout (yc_remote c)"
  "rc_buffer_size (yc_remote (merge_with_env env c)) = rc_buffer_size (yc_remote c)"
  by (simp_all add: merge_with_env_def Let_def split: option.split sum.split)

lemma merge_port:
  "rc_default_port (yc_remote (merge_with_env env c)) =
     (case Option.bind (env ''YUHA_TCP_PORT'') (parse_unsigned 65535) of
        Some n \<Rightarrow> of_nat n | None \<Rightarrow> rc_default_port (yc_remote c))"
  by (simp add: merge_with_env_def Let_def split: option.split sum.split)

lemma merge_timeout:
  "cc_connection_timeout (yc_client (merge_with_env env c)) =
     (case Option.bind (env ''YUHA_TIMEOUT'') (parse_unsigned (2 ^ 64 - 1)) of
        Some n \<Rightarrow> of_nat n | None \<Rightarrow> cc_connection_timeout (yc_client c))"
  by (simp add: merge_with_env_def Let_def split: option.split sum.split)

text \<open>A configuration the program starts with.\<close>

definition config_ok :: "'toml yuha_config \<Rightarrow> bool" where
  "config_ok c \<longleftrightarrow>
     nc_ssh_port (yc_network c) \<noteq> 0 \<and> rc_default_port (yc_remote c) \<noteq> 0 \<and>
     cc_connection_timeout (yc_client c) \<noteq> 0 \<and> rc_polling_timeout (yc_remote c) \<noteq> 0 \<and>
     rc_buffer_size (yc_remote c) \<noteq> 0"

lemma validate_config_iff: "validate_config c = Inr () \<longleftrightarrow> config_ok c"
  by (simp add: validate_config_def config_ok_def)

lemma config_ok_default [simp]: "config_ok yuha_config_default"
  by (simp add: config_ok_def yuha_config_default_def network_config_default_def remote_config_default_def
      client_config_default_def)

lemma config_ok_profiles [simp]:
  "config_ok (set_profile p c) = config_ok c" "config_ok (snd (remove_profile name c)) = config_ok c"
  by (simp_all add: config_ok_def set_profile_def remove_profile_def)

section \<open>Properties\<close>

text \<open>The configuration is the first one that loads: of the candidate paths in their order, the first
  that exists, can be read and parses decides, whatever comes after it; a file that cannot be used is
  passed over, and without a usable one the defaults apply.\<close>

theorem config_is_first_loadable:
  "load_with_fallback from_str exists fs config_dir home_dir =
     (case find (\<lambda>p. exists p \<and> is_ok (load_from_file from_str fs p)) (config_paths config_dir home_dir) of
        Some p \<Rightarrow> projr (load_from_file from_str fs p)
      | None \<Rightarrow> yuha_config_default)"
proof -
  have "load_first from_str exists fs ps =
      (case find (\<lambda>p. exists p \<and> is_ok (load_from_file from_str fs p)) ps of
         Some p \<Rightarrow> projr (load_from_file from_str fs p) | None \<Rightarrow> yuha_config_default)" for ps
    by (induction ps) (auto split: sum.split)
  then show ?thesis
    by (simp add: load_with_fallback_def)
qed

text \<open>The environment overrides the file and is checked like it: a port or a timeout rendered into its
  variable comes out of the merge as that number, at the full width of its type, and the program then
  starts exactly when the merged values are usable: port and timeout not zero and the rest of the file
  acceptable. A text that is no number in range leaves the value of the file.\<close>

theorem env_overrides_checked:
  assumes "env ''YUHA_TCP_PORT'' = Some (show_nat (unat (port :: u16)))"
    and "env ''YUHA_TIMEOUT'' = Some (show_nat (unat (timeout :: u64)))"
  shows "rc_default_port (yc_remote (merge_with_env env c)) = port \<and>
    cc_connection_timeout (yc_client (merge_with_env env c)) = timeout \<and>
    (validate_config (merge_with_env env c) = Inr () \<longleftrightarrow>
       port \<noteq> 0 \<and> timeout \<noteq> 0 \<and> nc_ssh_port (yc_network c) \<noteq> 0 \<and>
       rc_polling_timeout (yc_remote c) \<noteq> 0 \<and> rc_buffer_size (yc_remote c) \<noteq> 0) \<and>
    (parse_unsigned 65535 bad = None \<longrightarrow>
       rc_default_port (yc_remote (merge_with_env (env(''YUHA_TCP_PORT'' := Some bad)) c)) =
         rc_default_port (yc_remote c))"
proof -
  have "unat port < 2 ^ LENGTH(16)" and "unat timeout < 2 ^ LENGTH(64)"
    by (rule unsigned_less)+
  then have "unat port \<le> 65535" and "unat timeout \<le> 2 ^ 64 - 1"
    by simp_all
  then have "rc_default_port (yc_remote (merge_with_env env c)) = port"
    and "cc_connection_timeout (yc_client (merge_with_env env c)) = timeout"
    using assms by (simp_all add: merge_port merge_timeout parse_show_unsigned)
  then show ?thesis
    by (auto simp: validate_config_iff config_ok_def merge_port)
qed

theorem env_overrides_checked_witness:
  "rc_default_port (yc_remote (merge_with_env
     (\<lambda>v. if v = ''YUHA_TCP_PORT'' then Some (show_nat 8080)
          else if v = ''YUHA_TIMEOUT'' then Some (show_nat 7) else None) (yuha_config_default :: unit yuha_config)))
   = 8080"
  using env_overrides_checked [of "\<lambda>v. if v = ''YUHA_TCP_PORT'' then Some (show_nat 8080)
          else if v = ''YUHA_TIMEOUT'' then Some (show_nat 7) else None" 8080 7
      "yuha_config_default :: unit yuha_config" "''x''"]
  by simp

text \<open>Saving and loading are inverse: when the \<open>toml\<close> renderings parse back and the file is written,
  loading the same path yields the saved configuration, and no other file has changed.\<close>

theorem config_save_load:
  assumes "to_string c = Inr text" and "from_str text = Inr c"
    and "fst (save_to_file to_string mkdir write path c fs) = Inr ()"
  shows "load_from_file from_str (snd (save_to_file to_string mkdir write path c fs)) path = Inr c \<and>
    (p \<noteq> path \<longrightarrow> snd (save_to_file to_string mkdir write path c fs) p = fs p)"
  using assms by (auto simp: save_to_file_def load_from_file_def split: option.splits)

theorem config_save_load_witness:
  "load_from_file (\<lambda>_. Inr (yuha_config_default :: unit yuha_config))
     (snd (save_to_file (\<lambda>_. Inr ''x'') (\<lambda>_. None) (\<lambda>_. None) ''yuha.toml'' yuha_config_default (\<lambda>_. Inl ''absent'')))
     ''yuha.toml'' = Inr yuha_config_default"
  using config_save_load [of "\<lambda>_. Inr ''x''" "yuha_config_default :: unit yuha_config" "''x''"
      "\<lambda>_. Inr yuha_config_default" "\<lambda>_. None" "\<lambda>_. None" "''yuha.toml''" "\<lambda>_. Inl ''absent''" "''b''"]
  by (simp add: save_to_file_def)

end
