(* ===== verification/Ssh_Transport.thy ===== *)
theory Ssh_Transport
  imports Transport Channel Remote_Client
begin

text \<open>
  \<open>crates/client/src/transport/ssh.rs\<close>: running the remote server over SSH. \<open>russh\<close>, the file system, the
  \<open>base64\<close> crate and the process id are a record of arguments; what they answer is an error text or a
  value. A command is the text handed to \<open>exec\<close>.
\<close>

section \<open>Configuration\<close>

record client_transport_config =
  ct_remote_binary_path :: "path_buf option"
  ct_auto_upload :: bool
  ct_env_vars :: "(string, string) hashmap"
  ct_working_dir :: "path_buf option"

definition client_transport_config_default :: client_transport_config where
  "client_transport_config_default =
     \<lparr>ct_remote_binary_path = None, ct_auto_upload = False, ct_env_vars = [], ct_working_dir = None\<rparr>"

record ssh_transport_config =
  st_host :: string
  st_port :: u16
  st_username :: string
  st_password :: "string option"
  st_key_path :: "path_buf option"

section \<open>The channel adapter\<close>

text \<open>
  What the SSH library delivers goes through the handler into a queue, and the adapter reads from it.
  The handler is told the channel the data belong to and does not look at it. \<open>sa_open\<close> tells whether
  the sending end of the queue still exists.
\<close>

record ssh_adapter =
  sa_queue :: "bytes list"
  sa_open :: bool
  sa_read_buf :: bytes

definition ssh_adapter_new :: ssh_adapter where
  "ssh_adapter_new = \<lparr>sa_queue = [], sa_open = True, sa_read_buf = []\<rparr>"

definition handler_data :: "nat \<Rightarrow> bytes \<Rightarrow> ssh_adapter \<Rightarrow> ssh_adapter" where
  "handler_data channel_id data a = a\<lparr>sa_queue := sa_queue a @ [data]\<rparr>"

datatype poll = Ready bytes | Pending

text \<open>\<open>remaining\<close> is the room in the caller's buffer; \<open>Ready []\<close> is the end of the stream to the caller.\<close>

definition poll_read :: "nat \<Rightarrow> ssh_adapter \<Rightarrow> poll \<times> ssh_adapter" where
  "poll_read remaining a =
     (if sa_read_buf a \<noteq> []
      then let to_copy = min remaining (length (sa_read_buf a))
           in (Ready (take to_copy (sa_read_buf a)), a\<lparr>sa_read_buf := drop to_copy (sa_read_buf a)\<rparr>)
      else case sa_queue a of
             data # rest \<Rightarrow>
               (let to_copy = min remaining (length data);
                    a1 = a\<lparr>sa_queue := rest\<rparr>
                in (Ready (take to_copy data),
                    if to_copy < length data
                    then a1\<lparr>sa_read_buf := sa_read_buf a1 @ drop to_copy data\<rparr> else a1))
           | [] \<Rightarrow> (if sa_open a then Pending else Ready [], a))"

text \<open>\<open>poll_write\<close> hands the whole buffer to the library.\<close>

definition poll_write :: "(bytes \<Rightarrow> string option) \<Rightarrow> bytes \<Rightarrow> string + nat" where
  "poll_write handle_data buf =
     (case handle_data buf of
        None \<Rightarrow> Inr (length buf)
      | Some e \<Rightarrow> Inl (''SSH data send failed: '' @ e))"

section \<open>Transferring the binary\<close>

definition max_command_size :: nat where
  "max_command_size = 128 * 1024"

definition chunk_size :: nat where
  "chunk_size = 64 * 1024"

text \<open>\<open>slice::chunks\<close>.\<close>

function chunks :: "nat \<Rightarrow> 'a list \<Rightarrow> 'a list list" where
  "chunks n xs = (if n = 0 \<or> xs = [] then [] else take n xs # chunks n (drop n xs))"
  by pat_completeness auto
termination by (relation "measure (length \<circ> snd)") auto

declare chunks.simps [simp del]

definition remote_temp_path :: "nat \<Rightarrow> path_buf" where
  "remote_temp_path pid = ''/tmp/yuha-remote-'' @ show_nat pid"

definition single_command :: "path_buf \<Rightarrow> string \<Rightarrow> string" where
  "single_command p encoded =
     ''echo '' @ [CHR 0x27] @ encoded @ [CHR 0x27] @ '' | base64 -d > '' @ p @ '' && chmod +x '' @ p @
     '' && echo '' @ [CHR 0x27] @ ''Transfer completed'' @ [CHR 0x27]"

definition create_command :: "path_buf \<Rightarrow> string \<Rightarrow> string" where
  "create_command p c = ''echo -n '' @ [CHR 0x27] @ c @ [CHR 0x27] @ '' | base64 -d > '' @ p"

definition append_command :: "path_buf \<Rightarrow> string \<Rightarrow> string" where
  "append_command p c = ''echo -n '' @ [CHR 0x27] @ c @ [CHR 0x27] @ '' | base64 -d >> '' @ p"

definition chmod_command :: "path_buf \<Rightarrow> string" where
  "chmod_command p = ''chmod +x '' @ p"

text \<open>A command, with the error texts for its channel and its execution.\<close>

type_synonym upload_step = "string \<times> string \<times> string"

definition upload_steps :: "nat \<Rightarrow> string \<Rightarrow> upload_step list" where
  "upload_steps pid encoded =
     (let p = remote_temp_path pid;
          opening = ''Failed to open transfer channel: ''
      in if length encoded \<le> max_command_size
         then [(opening, single_command p encoded, ''Failed to execute transfer command: '')]
         else (case chunks chunk_size encoded of
                 [] \<Rightarrow> []
               | c # cs \<Rightarrow>
                   (opening, create_command p c, ''Failed to start chunked transfer: '') #
                   map (\<lambda>(i, c).
                          (''Failed to open channel for chunk '' @ show_nat (i + 2) @ '': '', append_command p c,
                           ''Failed to transfer chunk '' @ show_nat (i + 2) @ '': ''))
                     (enumerate 0 cs) @
                   [(''Failed to open channel for chmod: '', chmod_command p,
                     ''Failed to set executable permissions: '')]))"

text \<open>Each step opens a channel and executes its command; the first failure ends the transfer.\<close>

fun issue ::
    "(string \<Rightarrow> string option) \<Rightarrow> (string \<Rightarrow> string option) \<Rightarrow> upload_step list
     \<Rightarrow> (client_error + unit) \<times> string list" where
  "issue open_channel exec [] = (Inr (), [])"
| "issue open_channel exec ((opening, command, executing) # steps) =
     (case open_channel command of
        Some e \<Rightarrow> (Inl (BinaryTransfer (opening @ e)), [])
      | None \<Rightarrow>
          (case exec command of
             Some e \<Rightarrow> (Inl (BinaryTransfer (executing @ e)), [])
           | None \<Rightarrow> (let (r, issued) = issue open_channel exec steps in (r, command # issued))))"

record ssh_world =
  sw_connect :: "string option"
  sw_password :: "string + bool"
  sw_read_text :: "path_buf \<Rightarrow> string + string"
  sw_parse_key :: "string \<Rightarrow> string option"
  sw_public_key :: "string + bool"
  sw_read :: "path_buf \<Rightarrow> string + bytes"
  sw_encode :: "bytes \<Rightarrow> string"
  sw_open_channel :: "string \<Rightarrow> string option"
  sw_exec :: "string \<Rightarrow> string option"
  sw_pid :: nat

definition transfer_binary_to_remote ::
    "ssh_world \<Rightarrow> path_buf \<Rightarrow> (client_error + path_buf) \<times> string list" where
  "transfer_binary_to_remote w binary_path =
     (case sw_read w binary_path of
        Inl e \<Rightarrow>
          (Inl (BinaryTransfer (''Failed to read local binary at '' @ binary_path @ '': '' @ e)), [])
      | Inr data \<Rightarrow>
          (let (r, issued) = issue (sw_open_channel w) (sw_exec w) (upload_steps (sw_pid w) (sw_encode w data))
           in (try_bind r (\<lambda>_. Inr (remote_temp_path (sw_pid w))), issued)))"

section \<open>Connecting\<close>

text \<open>The errors are the outermost contexts \<open>anyhow\<close> shows.\<close>

definition authenticate :: "ssh_world \<Rightarrow> ssh_transport_config \<Rightarrow> string + unit" where
  "authenticate w c =
     (case st_password c of
        Some _ \<Rightarrow>
          (case sw_password w of
             Inl _ \<Rightarrow> Inl ''Failed to authenticate with password''
           | Inr ok \<Rightarrow> if ok then Inr () else Inl ''Password authentication failed'')
      | None \<Rightarrow>
          (case st_key_path c of
             Some p \<Rightarrow>
               (case sw_read_text w p of
                  Inl _ \<Rightarrow> Inl (''Failed to read key file: '' @ [CHR 0x22] @ p @ [CHR 0x22])
                | Inr text \<Rightarrow>
                    if sw_parse_key w text \<noteq> None then Inl ''Failed to parse SSH key''
                    else (case sw_public_key w of
                            Inl _ \<Rightarrow> Inl ''Failed to authenticate with key''
                          | Inr ok \<Rightarrow> if ok then Inr () else Inl ''Key authentication failed''))
           | None \<Rightarrow> Inl ''No authentication method provided''))"

definition env_prefix :: "(string, string) hashmap \<Rightarrow> string" where
  "env_prefix vars = concat (map (\<lambda>(k, v). k @ ''='' @ v @ '' '') vars)"

definition remote_command :: "nat \<Rightarrow> client_transport_config \<Rightarrow> path_buf \<Rightarrow> string" where
  "remote_command pid tc remote_path =
     (let stderr_log = (if ct_auto_upload tc then ''/tmp/remote_stderr_'' @ show_nat pid @ ''.log''
                        else ''/tmp/remote_stderr.log'')
      in env_prefix (ct_env_vars tc) @ remote_path @ '' --stdio 2>'' @ stderr_log)"

text \<open>\<open>default_binary\<close> is the path \<open>build.rs\<close> compiled in. The result of the call, and every command
  that was executed.\<close>

definition ssh_connect ::
    "ssh_world \<Rightarrow> path_buf \<Rightarrow> ssh_transport_config \<Rightarrow> client_transport_config
     \<Rightarrow> (string + unit) \<times> string list" where
  "ssh_connect w default_binary c tc =
     (if sw_connect w \<noteq> None then (Inl ''Failed to connect to SSH server'', [])
      else case authenticate w c of
        Inl e \<Rightarrow> (Inl e, [])
      | Inr _ \<Rightarrow>
          (let (r, issued) =
                 (if ct_auto_upload tc
                  then transfer_binary_to_remote w
                         (case ct_remote_binary_path tc of Some p \<Rightarrow> p | None \<Rightarrow> default_binary)
                  else (Inr ''/usr/local/bin/yuha-remote'', []))
           in case r of
                Inl e \<Rightarrow> (Inl (show_client_error e), issued)
              | Inr remote_path \<Rightarrow>
                  (let command = remote_command (sw_pid w) tc remote_path
                   in if sw_open_channel w command \<noteq> None then (Inl ''Failed to open SSH channel'', issued)
                      else if sw_exec w command \<noteq> None
                      then (Inl (''Failed to execute remote command: '' @ command), issued)
                      else (Inr (), issued @ [command]))))"

section \<open>The adapter is a byte stream\<close>

datatype ssh_event = Arrive nat bytes | Read nat | HangUp

text \<open>A run of the adapter; the first result is what the reads got.\<close>

fun adapter_run :: "ssh_event list \<Rightarrow> ssh_adapter \<Rightarrow> bytes list \<times> ssh_adapter" where
  "adapter_run [] a = ([], a)"
| "adapter_run (Arrive channel_id data # evs) a = adapter_run evs (handler_data channel_id data a)"
| "adapter_run (HangUp # evs) a = adapter_run evs (a\<lparr>sa_open := False\<rparr>)"
| "adapter_run (Read n # evs) a =
     (let (p, a1) = poll_read n a;
          (got, a2) = adapter_run evs a1
      in (case p of Ready bs \<Rightarrow> bs # got | Pending \<Rightarrow> got, a2))"

fun arrivals :: "ssh_event list \<Rightarrow> bytes list" where
  "arrivals [] = []"
| "arrivals (Arrive channel_id data # evs) = data # arrivals evs"
| "arrivals (_ # evs) = arrivals evs"

definition in_flight :: "ssh_adapter \<Rightarrow> bytes" where
  "in_flight a = sa_read_buf a @ concat (sa_queue a)"

lemma poll_read_stream:
  "poll_read n a = (p, a') \<Longrightarrow> (case p of Ready bs \<Rightarrow> bs | Pending \<Rightarrow> []) @ in_flight a' = in_flight a"
  by (auto simp: poll_read_def in_flight_def Let_def split: if_splits list.splits)

lemma in_flight_arrive [simp]: "in_flight (handler_data i data a) = in_flight a @ data"
  by (simp add: in_flight_def handler_data_def)

lemma in_flight_closed [simp]: "in_flight (a\<lparr>sa_open := False\<rparr>) = in_flight a"
  by (simp add: in_flight_def)

lemma adapter_run_stream:
  "concat (fst (adapter_run evs a)) @ in_flight (snd (adapter_run evs a)) = in_flight a @ concat (arrivals evs)"
proof (induction evs a rule: adapter_run.induct)
  case (4 n evs a)
  obtain p a1 where poll: "poll_read n a = (p, a1)"
    by (cases "poll_read n a")
  show ?case
    using 4 [OF poll [symmetric]] poll_read_stream [OF poll] poll
    by (auto simp: case_prod_unfold Let_def split: poll.splits)
qed simp_all

section \<open>Chunks\<close>

lemma concat_chunks: "0 < n \<Longrightarrow> concat (chunks n xs) = xs"
  by (induction n xs rule: chunks.induct) (subst chunks.simps, simp)

lemma chunks_length: "c \<in> set (chunks n xs) \<Longrightarrow> length c \<le> n"
proof (induction n xs rule: chunks.induct)
  case (1 n xs)
  then show ?case
    by (subst (asm) (2) chunks.simps) (auto split: if_splits)
qed

lemma chunks_Nil_iff: "0 < n \<Longrightarrow> chunks n xs = [] \<longleftrightarrow> xs = []"
  by (subst chunks.simps) simp

section \<open>The remote host\<close>

text \<open>
  What an upload relies on. Base64 turns three bytes into four characters, the last group padded, so that the
  encoding of whole groups can be cut off (\<open>base64_blocks\<close>). \<open>sh command fs\<close> is what a command of the remote
  shell makes of the files: for text that is the encoding of some bytes, \<open>base64 -d\<close> writes these bytes; \<open>>\<close> makes a
  new file, which is not executable, or replaces the content of the old one, \<open>>>\<close> appends, and \<open>chmod +x\<close> makes
  the file executable (\<open>upload_shell\<close>, for the path \<open>p\<close> and texts of at most 64 KiB).
\<close>

record remote_file =
  rf_content :: bytes
  rf_executable :: bool

type_synonym remote_files = "path_buf \<rightharpoonup> remote_file"

definition base64_blocks :: "(bytes \<Rightarrow> string) \<Rightarrow> bool" where
  "base64_blocks enc \<longleftrightarrow>
     (\<forall>a. length (enc a) = 4 * ((length a + 2) div 3)) \<and>
     (\<forall>a b. 3 dvd length a \<longrightarrow> enc (a @ b) = enc a @ enc b)"

definition overwritten :: "bytes \<Rightarrow> remote_file option \<Rightarrow> remote_file" where
  "overwritten content old =
     \<lparr>rf_content = content, rf_executable = (case old of Some f \<Rightarrow> rf_executable f | None \<Rightarrow> False)\<rparr>"

definition upload_shell ::
    "(bytes \<Rightarrow> string) \<Rightarrow> path_buf \<Rightarrow> (string \<Rightarrow> remote_files \<Rightarrow> remote_files) \<Rightarrow> bool" where
  "upload_shell enc p sh \<longleftrightarrow>
     (\<forall>b fs. length (enc b) \<le> 65536 \<longrightarrow>
        sh (''echo -n '' @ [CHR 0x27] @ enc b @ [CHR 0x27] @ '' | base64 -d > '' @ p) fs =
          fs(p \<mapsto> overwritten b (fs p))) \<and>
     (\<forall>b fs f. length (enc b) \<le> 65536 \<longrightarrow> fs p = Some f \<longrightarrow>
        sh (''echo -n '' @ [CHR 0x27] @ enc b @ [CHR 0x27] @ '' | base64 -d >> '' @ p) fs =
          fs(p \<mapsto> f\<lparr>rf_content := rf_content f @ b\<rparr>)) \<and>
     (\<forall>fs f. fs p = Some f \<longrightarrow> sh (''chmod +x '' @ p) fs = fs(p \<mapsto> f\<lparr>rf_executable := True\<rparr>))"

text \<open>Cutting the text into blocks of four characters cuts the bytes into groups of three.\<close>

lemma chunks_encode:
  assumes "base64_blocks enc" and "0 < n"
  shows "chunks (4 * n) (enc xs) = map enc (chunks (3 * n) xs)"
proof -
  have len: "length (enc a) = 4 * ((length a + 2) div 3)" for a
    using assms(1) by (simp add: base64_blocks_def)
  have nil: "enc a = [] \<longleftrightarrow> a = []" for a
    using len [of a] by (cases a) (auto simp: div_eq_0_iff simp flip: length_0_conv)
  have app: "enc (a @ b) = enc a @ enc b" if "3 dvd length a" for a b
    using assms(1) that by (simp add: base64_blocks_def)
  show ?thesis
  proof (induction "3 * n" xs rule: chunks.induct)
    case (1 xs)
    show ?case
    proof (cases "length xs \<le> 3 * n")
      case True
      then have "length (enc xs) \<le> 4 * n"
        by (simp add: len)
      then show ?thesis
        using True assms(2) nil [of xs] by (simp add: chunks.simps [of "4 * n"] chunks.simps [of "3 * n"])
    next
      case False
      let ?a = "take (3 * n) xs" and ?b = "drop (3 * n) xs"
      have la: "length (enc ?a) = 4 * n"
        using False by (simp add: len)
      have "enc xs = enc ?a @ enc ?b"
        using app [of ?a ?b] False by simp
      then have "chunks (4 * n) (enc xs) = enc ?a # chunks (4 * n) (enc ?b)"
        using la assms(2) by (subst chunks.simps) auto
      also have "chunks (4 * n) (enc ?b) = map enc (chunks (3 * n) ?b)"
        using 1 False assms(2) by (cases "xs = []") auto
      finally show ?thesis
        using False assms(2) by (subst (2) chunks.simps) auto
    qed
  qed
qed

text \<open>The commands of a chunked upload, executed in their order.\<close>

lemma appends_content:
  assumes "upload_shell enc p sh" and "\<And>b. b \<in> set bs \<Longrightarrow> length (enc b) \<le> 65536"
  shows "fs p = Some f \<Longrightarrow> fold sh (map (append_command p \<circ> enc) bs) fs =
    fs(p \<mapsto> f\<lparr>rf_content := rf_content f @ concat bs\<rparr>)"
  using assms(2)
proof (induction bs arbitrary: fs f)
  case (Cons b bs)
  have "sh (append_command p (enc b)) fs = fs(p \<mapsto> f\<lparr>rf_content := rf_content f @ b\<rparr>)"
    using assms(1) Cons.prems by (simp add: upload_shell_def append_command_def)
  then show ?case
    using Cons.IH [of "fs(p \<mapsto> f\<lparr>rf_content := rf_content f @ b\<rparr>)" "f\<lparr>rf_content := rf_content f @ b\<rparr>"] Cons.prems(2)
    by (simp add: comp_def fun_upd_same del: fun_upd_apply)
qed (simp add: fun_upd_idem)

lemma upload_commands_install:
  assumes "upload_shell enc p sh" and "\<And>b. b \<in> set (b0 # bs) \<Longrightarrow> length (enc b) \<le> 65536"
  shows "fold sh ([create_command p (enc b0)] @ map (append_command p) (map enc bs) @ [chmod_command p]) fs =
    fs(p \<mapsto> \<lparr>rf_content = concat (b0 # bs), rf_executable = True\<rparr>)"
proof -
  let ?f = "overwritten b0 (fs p)"
  have "sh (create_command p (enc b0)) fs = fs(p \<mapsto> ?f)"
    using assms by (simp add: upload_shell_def create_command_def)
  moreover have "fold sh (map (append_command p \<circ> enc) bs) (fs(p \<mapsto> ?f)) =
      (fs(p \<mapsto> ?f))(p \<mapsto> ?f\<lparr>rf_content := rf_content ?f @ concat bs\<rparr>)"
    by (rule appends_content [OF assms(1)]) (use assms(2) in simp_all)
  moreover have "sh (chmod_command p) (fs(p \<mapsto> g)) = fs(p \<mapsto> g\<lparr>rf_executable := True\<rparr>)" for g
    using assms(1) by (simp add: upload_shell_def chmod_command_def)
  ultimately show ?thesis
    by (simp add: overwritten_def)
qed

lemma map_enumerate: "map (\<lambda>p. f (snd p)) (enumerate n xs) = map f xs"
  by (induction xs arbitrary: n) simp_all

lemma issue_all:
  "(\<And>c. open_channel c = None) \<Longrightarrow> (\<And>c. exec c = None) \<Longrightarrow>
   issue open_channel exec steps = (Inr (), map (\<lambda>(_, c, _). c) steps)"
  by (induction steps) auto

section \<open>Properties\<close>

text \<open>C18. The adapter turns the SSH messages into a byte stream: however the arrivals, the reads with
  buffers of any sizes and the end of the connection interleave, what the reads returned, in order,
  followed by what is still held, is the concatenation of what arrived. A read with room reports the end
  of the stream exactly when nothing is held and the connection is over, or when the next message is
  empty: an empty message looks like the end.\<close>

theorem adapter_is_byte_stream:
  assumes "0 < n"
  shows "concat (fst (adapter_run evs ssh_adapter_new)) @ in_flight (snd (adapter_run evs ssh_adapter_new))
      = concat (arrivals evs) \<and>
    (fst (poll_read n a) = Ready [] \<longleftrightarrow>
       sa_read_buf a = [] \<and> (if sa_queue a = [] then \<not> sa_open a else hd (sa_queue a) = []))"
  using assms adapter_run_stream [of evs ssh_adapter_new]
  by (auto simp: in_flight_def ssh_adapter_new_def poll_read_def Let_def min_def split: list.split if_splits)

theorem adapter_is_byte_stream_witness:
  "fst (adapter_run [Arrive 1 [1, 2, 3], Read 2, Arrive 2 [4], Read 5, Read 5] ssh_adapter_new) = [[1, 2], [3], [4]] \<and>
   fst (poll_read 4 (handler_data 1 [] ssh_adapter_new)) = Ready []"
  using adapter_is_byte_stream [of 4 "[Arrive 1 [1, 2, 3], Read 2, Arrive 2 [4], Read 5, Read 5]"
      "handler_data 1 [] ssh_adapter_new"]
  by (simp add: ssh_adapter_new_def handler_data_def poll_read_def Let_def)

text \<open>What the one-command upload prints.\<close>

definition greeting :: bytes where
  "greeting = map (\<lambda>c. of_nat (of_char c)) ''Transfer completed'' @ [10]"

text \<open>Uploading a small binary breaks the connection it was uploaded for: the upload command prints
  \<open>Transfer completed\<close>, and since the handler does not look at the channel of what it gets, these bytes
  come first in the stream of the remote server. The client takes their first two for a length: its first
  receive waits until 21618 more bytes have arrived and then returns a message that is none, beginning
  with the rest of the greeting.\<close>

theorem upload_greeting_corrupts_stream:
  assumes "concat cs = greeting @ answers" and "[] \<notin> set cs"
  shows "(length answers < 21601 \<longrightarrow> receive (new_with_stream (map Chunk cs)) = None) \<and>
    (21601 \<le> length answers \<longrightarrow>
       map_option fst (receive (new_with_stream (map Chunk cs)))
         = Some (Inr (drop 2 greeting @ take 21601 answers)))"
proof -
  let ?m = "drop 2 greeting @ take 21601 (answers @ replicate 21601 0)"
  have len: "length ?m = 21618"
    by (simp add: greeting_def)
  have fr: "frame ?m = greeting @ take 21601 (answers @ replicate 21601 0)"
    unfolding frame_def len by (simp add: be_bytes_def greeting_def)
  show ?thesis
  proof (cases "length answers < 21601")
    case True
    then have "strict_prefix (greeting @ answers) (frame ?m)"
      unfolding fr by (auto simp: strict_prefix_def prefix_def)
    then show ?thesis
      using wire.pump_waits [of ?m "[]" cs] assms True len
      by (simp add: receive_def new_with_stream_def u16_max_def)
  next
    case False
    then have "concat cs = frame ?m @ drop 21601 answers"
      unfolding fr using assms(1) by simp
    then obtain buf' cs' where "pump take_frame [] (map Chunk cs) = Some (Inr ?m, buf', map Chunk cs')"
      using wire.pump_delivers [of ?m "[]" cs "drop 21601 answers" "[]"] assms(2) len
      by (auto simp: u16_max_def)
    then show ?thesis
      using False by (simp add: receive_def new_with_stream_def)
  qed
qed

theorem upload_greeting_corrupts_stream_witness:
  "receive (new_with_stream (map Chunk [greeting, frame [123, 125]])) = None"
  using upload_greeting_corrupts_stream [of "[greeting, frame [123, 125]]" "frame [123, 125]"]
  by (simp add: greeting_def frame_def be_bytes_def)

text \<open>C39. A large binary arrives whole. It is sent in commands none of which carries more than 64 KiB of
  encoded text, the first creating the file and the others appending to it, followed by one that makes it
  executable; and if the remote shell executes them in that order, then, whatever files there were, exactly the
  file at the returned path has changed, it holds the binary and it is executable. This rests on what Base64
  and the three shell commands are documented to do.\<close>

theorem chunked_upload_installs:
  assumes "sw_read w path = Inr data" and "max_command_size < length (sw_encode w data)"
    and "\<And>c. sw_open_channel w c = None" and "\<And>c. sw_exec w c = None"
    and "base64_blocks (sw_encode w)" and "upload_shell (sw_encode w) (remote_temp_path (sw_pid w)) sh"
  shows "\<exists>c cs commands. transfer_binary_to_remote w path = (Inr (remote_temp_path (sw_pid w)), commands) \<and>
    commands = [create_command (remote_temp_path (sw_pid w)) c] @
      map (append_command (remote_temp_path (sw_pid w))) cs @ [chmod_command (remote_temp_path (sw_pid w))] \<and>
    (\<forall>x\<in>set (c # cs). length x \<le> 65536) \<and>
    fold sh commands fs = fs(remote_temp_path (sw_pid w) \<mapsto> \<lparr>rf_content = data, rf_executable = True\<rparr>)"
proof -
  let ?enc = "sw_encode w" and ?p = "remote_temp_path (sw_pid w)"
  have blocks: "chunks chunk_size (?enc data) = map ?enc (chunks 49152 data)"
    using chunks_encode [OF assms(5), of 16384 data] by (simp add: chunk_size_def)
  have "?enc data \<noteq> []"
    using assms(2) by auto
  then have "chunks chunk_size (?enc data) \<noteq> []"
    by (simp add: chunks_Nil_iff chunk_size_def)
  then obtain b0 bs where bs: "chunks 49152 data = b0 # bs"
    using blocks by (cases "chunks 49152 data") auto
  then have ch: "chunks chunk_size (?enc data) = ?enc b0 # map ?enc bs"
    using blocks by simp
  have len: "\<forall>x\<in>set (?enc b0 # map ?enc bs). length x \<le> 65536"
    using chunks_length [of _ chunk_size "?enc data", unfolded ch] by (simp add: chunk_size_def)
  have "transfer_binary_to_remote w path = (Inr ?p, map (\<lambda>(_, c, _). c) (upload_steps (sw_pid w) (?enc data)))"
    by (simp add: transfer_binary_to_remote_def assms(1) issue_all assms(3,4))
  moreover have "map (\<lambda>(_, c, _). c) (upload_steps (sw_pid w) (?enc data)) =
      [create_command ?p (?enc b0)] @ map (append_command ?p) (map ?enc bs) @ [chmod_command ?p]"
    using assms(2) map_enumerate [of "append_command ?p" 0 "map ?enc bs"]
    by (simp add: upload_steps_def ch Let_def case_prod_unfold comp_def)
  moreover have "concat (b0 # bs) = data"
    using concat_chunks [of 49152 data] bs by simp
  moreover have "fold sh ([create_command ?p (?enc b0)] @ map (append_command ?p) (map ?enc bs) @ [chmod_command ?p]) fs =
      fs(?p \<mapsto> \<lparr>rf_content = concat (b0 # bs), rf_executable = True\<rparr>)"
    by (rule upload_commands_install [OF assms(6)]) (use len in auto)
  ultimately show ?thesis
    using len by (intro exI [of _ "?enc b0"] exI [of _ "map ?enc bs"] exI) auto
qed

text \<open>A host that does what the upload relies on: Base64 with the usual alphabet, and a shell that knows the three
  commands for one path.\<close>

definition alphabet :: string where
  "alphabet = ''ABCDEFGHIJKLMNOPQRSTUVWXYZabcdefghijklmnopqrstuvwxyz0123456789+/''"

definition sextet :: "nat \<Rightarrow> char" where
  "sextet i = alphabet ! i"

definition of_sextet :: "char \<Rightarrow> nat" where
  "of_sextet c = length (takeWhile (\<lambda>x. x \<noteq> c) alphabet)"

fun base64 :: "bytes \<Rightarrow> string" where
  "base64 [] = []"
| "base64 [a] = (let n = unat a * 65536 in [sextet (n div 262144), sextet (n div 4096 mod 64), CHR ''='', CHR ''=''])"
| "base64 [a, b] = (let n = unat a * 65536 + unat b * 256
     in [sextet (n div 262144), sextet (n div 4096 mod 64), sextet (n div 64 mod 64), CHR ''=''])"
| "base64 (a # b # c # bs) = (let n = unat a * 65536 + unat b * 256 + unat c
     in [sextet (n div 262144), sextet (n div 4096 mod 64), sextet (n div 64 mod 64), sextet (n mod 64)] @ base64 bs)"

fun base64_decode :: "string \<Rightarrow> bytes" where
  "base64_decode (w # x # y # z # s) =
     (let n = ((of_sextet w * 64 + of_sextet x) * 64 + (if y = CHR ''='' then 0 else of_sextet y)) * 64 +
              (if z = CHR ''='' then 0 else of_sextet z);
          a = of_nat (n div 65536); b = of_nat (n div 256 mod 256); c = of_nat (n mod 256)
      in (if y = CHR ''='' then [a] else if z = CHR ''='' then [a, b] else [a, b, c]) @ base64_decode s)"
| "base64_decode _ = []"

lemma sextet_simps [simp]:
  assumes "i < 64"
  shows "of_sextet (sextet i) = i" and "sextet i \<noteq> CHR ''=''" and "sextet i \<noteq> CHR 0x27"
proof -
  have "\<forall>i\<in>set [0..<64]. of_sextet (sextet i) = i \<and> sextet i \<noteq> CHR ''='' \<and> sextet i \<noteq> CHR 0x27"
    by code_simp
  with assms show "of_sextet (sextet i) = i" and "sextet i \<noteq> CHR ''=''" and "sextet i \<noteq> CHR 0x27"
    by simp_all
qed

lemma sextets_join:
  "((n div 262144 * 64 + n div 4096 mod 64) * 64 + n div 64 mod 64) * 64 + n mod 64 = (n :: nat)"
proof -
  have "n div 262144 * 64 + n div 4096 mod 64 = n div 4096"
    using div_mult_mod_eq [of "n div 4096" 64] by (simp flip: div_mult2_eq)
  moreover have "n div 4096 * 64 + n div 64 mod 64 = n div 64"
    using div_mult_mod_eq [of "n div 64" 64] by (simp flip: div_mult2_eq)
  ultimately show ?thesis by simp
qed

lemma low_digit: "c < (m :: nat) \<Longrightarrow> (q * m + c) div m = q \<and> (q * m + c) mod m = c"
  by simp

lemma bytes_split:
  assumes "a < 256" and "b < 256" and "c < (256 :: nat)"
  shows "(a * 65536 + b * 256 + c) div 65536 = a" and "(a * 65536 + b * 256 + c) div 256 mod 256 = b"
    and "(a * 65536 + b * 256 + c) mod 256 = c" and "(a * 65536 + b * 256 + c) div 262144 < 64"
proof -
  have "b * 256 + c < 65536"
    using assms by simp
  from low_digit [OF this, of a] show "(a * 65536 + b * 256 + c) div 65536 = a"
    by (simp only: add.assoc)
  have q: "a * 65536 + b * 256 + c = (a * 256 + b) * 256 + c"
    by simp
  show "(a * 65536 + b * 256 + c) div 256 mod 256 = b"
    unfolding q using low_digit [OF assms(3), of "a * 256 + b"] low_digit [OF assms(2), of a] by simp
  show "(a * 65536 + b * 256 + c) mod 256 = c"
    unfolding q using low_digit [OF assms(3), of "a * 256 + b"] by simp
  have "a * 65536 + b * 256 + c < 64 * 262144"
    using assms by simp
  then show "(a * 65536 + b * 256 + c) div 262144 < 64"
    by (rule less_mult_imp_div_less)
qed

lemma byte_less: "unat (a :: u8) < 256"
proof -
  have "unat a < 2 ^ LENGTH(8)"
    by (rule unsigned_less)
  then show ?thesis by simp
qed

lemma base64_group:
  fixes a b c :: u8
  defines "n \<equiv> unat a * 65536 + unat b * 256 + unat c"
  shows "n div 262144 < 64" and "of_nat (n div 65536) = a" and "of_nat (n div 256 mod 256) = b" and "of_nat (n mod 256) = c"
  using bytes_split [OF byte_less [of a] byte_less [of b] byte_less [of c]] by (simp_all add: n_def)

lemma padded_digits:
  fixes x y :: nat
  shows "x * 65536 div 64 mod 64 = 0" and "x * 65536 mod 64 = 0" and "(x * 65536 + y * 256) mod 64 = 0"
proof -
  have x: "x * 65536 = (x * 16 * 64) * 64 + 0" and xy: "x * 65536 + y * 256 = (x * 1024 + y * 4) * 64 + 0"
    by simp_all
  show "x * 65536 mod 64 = 0"
    unfolding x by (rule low_digit [THEN conjunct2]) simp
  show "(x * 65536 + y * 256) mod 64 = 0"
    unfolding xy by (rule low_digit [THEN conjunct2]) simp
  have "x * 65536 div 64 = x * 16 * 64 + 0"
    unfolding x using low_digit [of 0 64 "x * 16 * 64"] by (simp only: add_0_right zero_less_numeral)
  then show "x * 65536 div 64 mod 64 = 0"
    using low_digit [of 0 64 "x * 16"] by (simp only: zero_less_numeral)
qed

lemma base64_inverse: "base64_decode (base64 bs) = bs"
proof (induction bs rule: base64.induct)
  case (2 a)
  show ?case
    using base64_group [of a 0 0] sextets_join [of "unat a * 65536"] padded_digits [of "unat a"] by (simp add: Let_def)
next
  case (3 a b)
  show ?case
    using base64_group [of a b 0] sextets_join [of "unat a * 65536 + unat b * 256"]
      padded_digits(3) [of "unat a" "unat b"] by (simp add: Let_def)
next
  case (4 a b c bs)
  then show ?case
    using base64_group [of a b c] sextets_join [of "unat a * 65536 + unat b * 256 + unat c"] by (simp add: Let_def)
qed simp

lemma base64_plain: "CHR 0x27 \<notin> set (base64 bs)"
proof (induction bs rule: base64.induct)
  case (2 a)
  show ?case
    using base64_group(1) [of a 0 0] by (simp add: Let_def eq_commute [of "CHR 0x27"])
next
  case (3 a b)
  show ?case
    using base64_group(1) [of a b 0] by (simp add: Let_def eq_commute [of "CHR 0x27"])
next
  case (4 a b c bs)
  then show ?case
    using base64_group(1) [of a b c] by (simp add: Let_def eq_commute [of "CHR 0x27"])
qed simp

lemma base64_base64_blocks: "base64_blocks base64"
proof -
  have "length (base64 a) = 4 * ((length a + 2) div 3)" for a
    by (induction a rule: base64.induct) (simp_all add: Let_def, presburger)
  moreover have "base64 (a @ b) = base64 a @ base64 b" if "3 dvd length a" for a b
    using that
  proof (induction a rule: base64.induct)
    case (3 x y)
    then have "(3 :: nat) dvd 2"
      by (simp add: numeral_2_eq_2)
    then show ?case by simp
  next
    case (4 x y z bs)
    then have "3 dvd length bs"
      by simp presburger
    with 4 show ?case by (simp add: Let_def)
  qed simp_all
  ultimately show ?thesis
    by (simp add: base64_blocks_def)
qed

definition sample_shell :: "path_buf \<Rightarrow> string \<Rightarrow> remote_files \<Rightarrow> remote_files" where
  "sample_shell p command fs =
     (let text = takeWhile (\<lambda>c. c \<noteq> CHR 0x27) (drop 9 command); redirect = drop (9 + length text) command
      in if command = ''chmod +x '' @ p
         then (case fs p of None \<Rightarrow> fs | Some f \<Rightarrow> fs(p \<mapsto> f\<lparr>rf_executable := True\<rparr>))
         else if redirect = [CHR 0x27] @ '' | base64 -d > '' @ p
         then fs(p \<mapsto> overwritten (base64_decode text) (fs p))
         else if redirect = [CHR 0x27] @ '' | base64 -d >> '' @ p
         then (case fs p of
                 None \<Rightarrow> fs(p \<mapsto> overwritten (base64_decode text) None)
               | Some f \<Rightarrow> fs(p \<mapsto> f\<lparr>rf_content := rf_content f @ base64_decode text\<rparr>))
         else fs)"

lemma sample_shell_echo:
  fixes b :: bytes
  defines "command rest \<equiv> ''echo -n '' @ [CHR 0x27] @ base64 b @ [CHR 0x27] @ rest"
  shows "sample_shell p (command rest) fs =
    (if rest = '' | base64 -d > '' @ p then fs(p \<mapsto> overwritten b (fs p))
     else if rest = '' | base64 -d >> '' @ p
     then (case fs p of None \<Rightarrow> fs(p \<mapsto> overwritten b None) | Some f \<Rightarrow> fs(p \<mapsto> f\<lparr>rf_content := rf_content f @ b\<rparr>))
     else fs)"
proof -
  have start: "drop 9 (command rest) = base64 b @ CHR 0x27 # rest"
    by (simp add: command_def)
  have quoted: "takeWhile (\<lambda>c. c \<noteq> CHR 0x27) (base64 b @ CHR 0x27 # rest) = base64 b"
    using base64_plain [of b] by (subst takeWhile_append2) auto
  have "drop (9 + length (base64 b)) (command rest) = drop (length (base64 b)) (drop 9 (command rest))"
    by (simp only: drop_drop add.commute)
  then have redirect: "drop (9 + length (base64 b)) (command rest) = CHR 0x27 # rest"
    by (simp add: start)
  have "command rest \<noteq> ''chmod +x '' @ p"
    by (simp add: command_def)
  then show ?thesis
    by (simp only: sample_shell_def Let_def start quoted redirect base64_inverse if_False) simp
qed

lemma sample_shell_uploads: "upload_shell base64 p (sample_shell p)"
proof -
  have "sample_shell p (''chmod +x '' @ p) fs = fs(p \<mapsto> f\<lparr>rf_executable := True\<rparr>)" if "fs p = Some f" for fs f
    using that by (simp add: sample_shell_def Let_def)
  then show ?thesis
    unfolding upload_shell_def sample_shell_echo by auto
qed

definition sample_world :: "bytes \<Rightarrow> ssh_world" where
  "sample_world data =
     \<lparr>sw_connect = None, sw_password = Inr True, sw_read_text = Inr, sw_parse_key = (\<lambda>_. None),
      sw_public_key = Inr True, sw_read = (\<lambda>_. Inr data), sw_encode = base64,
      sw_open_channel = (\<lambda>_. None), sw_exec = (\<lambda>_. None), sw_pid = 7\<rparr>"

lemma sample_world_simps:
  "sw_read (sample_world data) path = Inr data" "sw_encode (sample_world data) = base64"
  "sw_open_channel (sample_world data) c = None" "sw_exec (sample_world data) c = None" "sw_pid (sample_world data) = 7"
  by (simp_all add: sample_world_def)

theorem chunked_upload_installs_witness:
  "\<exists>commands. transfer_binary_to_remote (sample_world (replicate 100000 7)) ''b'' = (Inr (remote_temp_path 7), commands) \<and>
     fold (sample_shell (remote_temp_path 7)) commands Map.empty (remote_temp_path 7) =
       Some \<lparr>rf_content = replicate 100000 7, rf_executable = True\<rparr>"
proof -
  let ?data = "replicate 100000 (7 :: u8)"
  let ?w = "sample_world ?data"
  have "length (base64 ?data) = 4 * ((length ?data + 2) div 3)"
    using base64_base64_blocks unfolding base64_blocks_def by blast
  then have long: "max_command_size < length (sw_encode ?w ?data)"
    unfolding sample_world_simps max_command_size_def length_replicate by simp
  have "base64_blocks (sw_encode ?w)" "upload_shell (sw_encode ?w) (remote_temp_path (sw_pid ?w)) (sample_shell (remote_temp_path 7))"
    unfolding sample_world_simps by (rule base64_base64_blocks, rule sample_shell_uploads)
  from chunked_upload_installs [OF sample_world_simps(1) long sample_world_simps(3,4) this, of "''b''" Map.empty]
  obtain commands where "transfer_binary_to_remote ?w ''b'' = (Inr (remote_temp_path 7), commands)"
    and "fold (sample_shell (remote_temp_path 7)) commands Map.empty =
      [remote_temp_path 7 \<mapsto> \<lparr>rf_content = ?data, rf_executable = True\<rparr>]"
    unfolding sample_world_simps by blast
  then show ?thesis
    by (intro exI [of _ commands]) (simp only: fun_upd_same simp_thms)
qed

end
