(* ===== verification/Client_Transports.thy ===== *)
theory Client_Transports
  imports Ssh_Transport
begin

text \<open>
  The other transports of \<open>crates/client/src/transport/\<close> (\<open>local.rs\<close>, \<open>tcp.rs\<close>, \<open>wsl.rs\<close>, \<open>unix.rs\<close> and
  what they share), the factory that chooses one for a configuration (\<open>transport_factory.rs\<close>) and the
  helpers of \<open>client.rs\<close>. Name resolution, sockets and processes answer through arguments.
\<close>

section \<open>Processes\<close>

text \<open>What is set on a \<open>Command\<close> before it is spawned.\<close>

record command =
  cmd_program :: string
  cmd_args :: "string list"
  cmd_env :: "(string, string) hashmap"
  cmd_dir :: "path_buf option"

definition command_new :: "string \<Rightarrow> command" where
  "command_new program = \<lparr>cmd_program = program, cmd_args = [], cmd_env = [], cmd_dir = None\<rparr>"

definition configure_command :: "(string, string) hashmap \<Rightarrow> path_buf option \<Rightarrow> command \<Rightarrow> command" where
  "configure_command env_vars working_dir cmd =
     (let cmd1 = fold (\<lambda>(k, v) c. c\<lparr>cmd_env := hm_insert k v (cmd_env c)\<rparr>) env_vars cmd
      in case working_dir of Some d \<Rightarrow> cmd1\<lparr>cmd_dir := Some d\<rparr> | None \<Rightarrow> cmd1)"

section \<open>Local transport\<close>

record local_transport_config =
  lt_binary_path :: path_buf
  lt_args :: "string list"

definition local_transport_config_default :: local_transport_config where
  "local_transport_config_default = \<lparr>lt_binary_path = ''yuha-remote'', lt_args = [''--stdio'']\<rparr>"

definition local_command :: "local_transport_config \<Rightarrow> client_transport_config \<Rightarrow> command" where
  "local_command c tc =
     configure_command (ct_env_vars tc) (ct_working_dir tc)
       ((command_new (lt_binary_path c))\<lparr>cmd_args := lt_args c\<rparr>)"

text \<open>\<open>spawn\<close> is the failure of starting the process; the pipes are there since all three are asked for.\<close>

definition local_connect ::
    "(command \<Rightarrow> string option) \<Rightarrow> local_transport_config \<Rightarrow> client_transport_config \<Rightarrow> string + command" where
  "local_connect spawn c tc =
     (let cmd = local_command c tc
      in case spawn cmd of
           Some _ \<Rightarrow> Inl (''Failed to spawn yuha-remote at '' @ [CHR 0x22] @ lt_binary_path c @ [CHR 0x22])
         | None \<Rightarrow> Inr cmd)"

section \<open>WSL transport\<close>

record wsl_transport_config =
  wt_distribution :: "string option"
  wt_user :: "string option"
  wt_binary_path :: path_buf
  wt_working_dir :: "path_buf option"

definition wsl_transport_config_default :: wsl_transport_config where
  "wsl_transport_config_default =
     \<lparr>wt_distribution = None, wt_user = None, wt_binary_path = ''yuha-remote'', wt_working_dir = None\<rparr>"

definition flag :: "string \<Rightarrow> string option \<Rightarrow> string list" where
  "flag name v = (case v of Some x \<Rightarrow> [name, x] | None \<Rightarrow> [])"

definition build_command :: "wsl_transport_config \<Rightarrow> command" where
  "build_command c = (command_new ''wsl'')
     \<lparr>cmd_args := flag ''--distribution'' (wt_distribution c) @ flag ''--user'' (wt_user c) @
        flag ''--cd'' (wt_working_dir c) @ [wt_binary_path c, ''--stdio'']\<rparr>"

text \<open>\<open>version\<close> is the answer of \<open>wsl --version\<close>: a failure to run it, or whether it succeeded.\<close>

definition is_wsl_available :: "bool \<Rightarrow> string + bool \<Rightarrow> bool" where
  "is_wsl_available windows version = (windows \<and> version = Inr True)"

definition wsl_connect ::
    "bool \<Rightarrow> string + bool \<Rightarrow> (command \<Rightarrow> string option) \<Rightarrow> wsl_transport_config
     \<Rightarrow> client_transport_config \<Rightarrow> string + command" where
  "wsl_connect windows version spawn c tc =
     (if \<not> windows then Inl ''WSL transport is only available on Windows''
      else if \<not> is_wsl_available windows version then Inl ''WSL is not available on this system''
      else let cmd = configure_command (ct_env_vars tc) (ct_working_dir tc) (build_command c)
           in case spawn cmd of
                Some _ \<Rightarrow>
                  Inl (''Failed to spawn yuha-remote in WSL: '' @ [CHR 0x22] @ wt_binary_path c @ [CHR 0x22])
              | None \<Rightarrow> Inr cmd)"

text \<open>\<open>str::lines\<close>: the pieces between line feeds, without a carriage return before them; an empty piece
  after the last one does not count.\<close>

definition strip_cr :: "string \<Rightarrow> string" where
  "strip_cr l = (if l \<noteq> [] \<and> last l = CHR 0x0D then butlast l else l)"

fun lines_from :: "string \<Rightarrow> string \<Rightarrow> string list" where
  "lines_from acc [] = (if acc = [] then [] else [rev acc])"
| "lines_from acc (c # cs) =
     (if c = newline then strip_cr (rev acc) # lines_from [] cs else lines_from (c # acc) cs)"

definition list_distributions ::
    "bool \<Rightarrow> (string + (bool \<times> string \<times> string)) \<Rightarrow> string + string list" where
  "list_distributions windows output =
     (if \<not> windows then Inl ''WSL is only available on Windows''
      else case output of
             Inl _ \<Rightarrow> Inl ''Failed to execute wsl --list command''
           | Inr (success, stdout, stderr) \<Rightarrow>
               if \<not> success then Inl (''WSL list command failed: '' @ stderr)
               else Inr (filter (\<lambda>l. l \<noteq> []) (map trim (lines_from [] stdout))))"

section \<open>TCP transport\<close>

record tcp_transport_config =
  tt_host :: string
  tt_port :: u16
  tt_connection_timeout :: duration
  tt_keepalive :: bool

definition tcp_transport_config_default :: tcp_transport_config where
  "tcp_transport_config_default =
     \<lparr>tt_host = ''localhost'', tt_port = 9999, tt_connection_timeout = from_secs 30, tt_keepalive = True\<rparr>"

text \<open>How dialling an address ends; \<open>keepalive\<close> is the failure of setting the option.\<close>

datatype dial_outcome =
    DialConnected (keepalive: "string option")
  | DialRefused string
  | DialTimedOut

text \<open>The loop over the resolved addresses: the stream, and the addresses tried.\<close>

fun try_addresses ::
    "(duration \<Rightarrow> string) \<Rightarrow> tcp_transport_config \<Rightarrow> (string \<Rightarrow> dial_outcome) \<Rightarrow> string
     \<Rightarrow> string option \<Rightarrow> string list \<Rightarrow> (string + string) \<times> string list" where
  "try_addresses show_duration c dial addr last_error [] =
     (Inl (case last_error of
             Some e \<Rightarrow> e
           | None \<Rightarrow> ''Failed to connect to any resolved address for '' @ addr), [])"
| "try_addresses show_duration c dial addr last_error (a # as) =
     (case dial a of
        DialConnected k \<Rightarrow>
          (if tt_keepalive c then (case k of None \<Rightarrow> Inr a | Some e \<Rightarrow> Inl e) else Inr a, [a])
      | DialRefused e \<Rightarrow>
          (let (r, tried) = try_addresses show_duration c dial addr (Some e) as in (r, a # tried))
      | DialTimedOut \<Rightarrow>
          (let (r, tried) = try_addresses show_duration c dial addr
                 (Some (''Connection timeout after '' @ show_duration (tt_connection_timeout c) @ '' to '' @ a)) as
           in (r, a # tried)))"

definition connect_tcp ::
    "(duration \<Rightarrow> string) \<Rightarrow> tcp_transport_config \<Rightarrow> string + string list \<Rightarrow> (string \<Rightarrow> dial_outcome)
     \<Rightarrow> (string + string) \<times> string list" where
  "connect_tcp show_duration c resolved dial =
     (let addr = tt_host c @ '':'' @ show_nat (unat (tt_port c))
      in case resolved of
           Inl _ \<Rightarrow> (Inl (''Failed to resolve address: '' @ addr), [])
         | Inr addrs \<Rightarrow>
             if addrs = [] then (Inl (''No addresses resolved for: '' @ addr), [])
             else try_addresses show_duration c dial addr None addrs)"

definition tcp_connect ::
    "(duration \<Rightarrow> string) \<Rightarrow> tcp_transport_config \<Rightarrow> string + string list \<Rightarrow> (string \<Rightarrow> dial_outcome)
     \<Rightarrow> string option \<Rightarrow> string + string" where
  "tcp_connect show_duration c resolved dial nodelay =
     try_bind (fst (connect_tcp show_duration c resolved dial)) (\<lambda>stream.
       case nodelay of
         Some _ \<Rightarrow> Inl ''Failed to set TCP_NODELAY on connection''
       | None \<Rightarrow> Inr stream)"

section \<open>Unix transport\<close>

definition unix_socket_path_default :: path_buf where
  "unix_socket_path_default = ''/tmp/yuha-daemon.sock''"

definition unix_connect :: "(path_buf \<Rightarrow> string option) \<Rightarrow> path_buf \<Rightarrow> string + path_buf" where
  "unix_connect dial path =
     (case dial path of
        Some _ \<Rightarrow> Inl (''Failed to connect to Unix socket at '' @ [CHR 0x22] @ path @ [CHR 0x22])
      | None \<Rightarrow> Inr path)"

section \<open>Windows named pipes\<close>

definition pipe_name_default :: string where
  "pipe_name_default =
     [CHR 0x5C, CHR 0x5C] @ ''.'' @ [CHR 0x5C] @ ''pipe'' @ [CHR 0x5C] @ ''yuha-daemon''"

definition windows_connect :: "(string \<Rightarrow> string option) \<Rightarrow> string \<Rightarrow> string + string" where
  "windows_connect dial pipe =
     (case dial pipe of
        Some _ \<Rightarrow> Inl (''Failed to connect to Windows named pipe: '' @ pipe)
      | None \<Rightarrow> Inr pipe)"

section \<open>The factory\<close>

datatype any_transport =
    LocalTransport local_transport_config client_transport_config
  | SshTransport ssh_transport_config client_transport_config
  | TcpTransport tcp_transport_config client_transport_config
  | WslTransport wsl_transport_config client_transport_config

fun transport_name :: "any_transport \<Rightarrow> string" where
  "transport_name (LocalTransport _ _) = ''local''"
| "transport_name (SshTransport _ _) = ''ssh''"
| "transport_name (TcpTransport _ _) = ''tcp''"
| "transport_name (WslTransport _ _) = ''wsl''"

text \<open>\<open>env_vars.iter().map(..).collect()\<close> rebuilds the map.\<close>

definition collect_env :: "(string, string) hashmap \<Rightarrow> (string, string) hashmap" where
  "collect_env vars = fold (\<lambda>(k, v). hm_insert k v) vars []"

definition create_local_transport :: "transport_config \<Rightarrow> string + any_transport" where
  "create_local_transport c =
     (case tc_local c of
        None \<Rightarrow> Inl ''Local transport configuration is required''
      | Some l \<Rightarrow> Inr (LocalTransport
          \<lparr>lt_binary_path = local_binary_path l, lt_args = local_args l\<rparr>
          \<lparr>ct_remote_binary_path = gen_remote_binary_path (tc_general c), ct_auto_upload = False,
           ct_env_vars = collect_env (gen_env_vars (tc_general c)), ct_working_dir = local_working_dir l\<rparr>))"

definition create_ssh_transport :: "transport_config \<Rightarrow> string + any_transport" where
  "create_ssh_transport c =
     (case tc_ssh c of
        None \<Rightarrow> Inl ''SSH transport configuration is required''
      | Some s \<Rightarrow> Inr (SshTransport
          \<lparr>st_host = ssh_host s, st_port = ssh_port s, st_username = ssh_username s,
           st_password = ssh_password s, st_key_path = ssh_key_path s\<rparr>
          \<lparr>ct_remote_binary_path = gen_remote_binary_path (tc_general c),
           ct_auto_upload = ssh_auto_upload_binary s,
           ct_env_vars = collect_env (gen_env_vars (tc_general c)), ct_working_dir = None\<rparr>))"

definition create_tcp_transport :: "transport_config \<Rightarrow> string + any_transport" where
  "create_tcp_transport c =
     (case tc_tcp c of
        None \<Rightarrow> Inl ''TCP transport configuration is required''
      | Some t \<Rightarrow> Inr (TcpTransport
          \<lparr>tt_host = tcp_host t, tt_port = tcp_port t, tt_connection_timeout = from_secs (tcp_timeout t),
           tt_keepalive = True\<rparr>
          \<lparr>ct_remote_binary_path = gen_remote_binary_path (tc_general c), ct_auto_upload = False,
           ct_env_vars = collect_env (gen_env_vars (tc_general c)), ct_working_dir = None\<rparr>))"

definition create_wsl_transport :: "transport_config \<Rightarrow> string + any_transport" where
  "create_wsl_transport c =
     (case tc_wsl c of
        None \<Rightarrow> Inl ''WSL transport configuration is required''
      | Some w \<Rightarrow> Inr (WslTransport
          \<lparr>wt_distribution = wsl_distribution w, wt_user = wsl_user w,
           wt_binary_path = unwrap_or (wsl_binary_path w) ''yuha-remote'',
           wt_working_dir = wsl_working_dir w\<rparr>
          \<lparr>ct_remote_binary_path = gen_remote_binary_path (tc_general c), ct_auto_upload = False,
           ct_env_vars = collect_env (gen_env_vars (tc_general c)), ct_working_dir = wsl_working_dir w\<rparr>))"

definition create_transport :: "transport_config \<Rightarrow> string + any_transport" where
  "create_transport c =
     (case tc_type c of
        Local \<Rightarrow> create_local_transport c
      | Ssh \<Rightarrow> create_ssh_transport c
      | Tcp \<Rightarrow> create_tcp_transport c
      | Wsl \<Rightarrow> create_wsl_transport c)"

definition is_local_binary_available :: "(path_buf \<Rightarrow> bool) \<Rightarrow> bool" where
  "is_local_binary_available exists =
     list_ex exists [''yuha-remote'', ''./yuha-remote'', ''/usr/local/bin/yuha-remote'', ''/usr/bin/yuha-remote'']"

definition auto_detect_transport :: "bool \<Rightarrow> string + bool \<Rightarrow> (path_buf \<Rightarrow> bool) \<Rightarrow> string + transport_type" where
  "auto_detect_transport windows version exists =
     (if windows \<and> is_wsl_available windows version then Inr Wsl
      else if is_local_binary_available exists then Inr Local
      else Inr Local)"

definition supported_transports :: "bool \<Rightarrow> transport_type list" where
  "supported_transports windows = [Local, Ssh, Tcp] @ (if windows then [Wsl] else [])"

section \<open>Helpers of \<open>client.rs\<close>\<close>

text \<open>The transport a helper connects through.\<close>

definition connect_ssh_transport ::
    "string \<Rightarrow> u16 \<Rightarrow> string \<Rightarrow> string option \<Rightarrow> path_buf option \<Rightarrow> client_transport_config \<Rightarrow> any_transport" where
  "connect_ssh_transport host port username password key_path tc =
     SshTransport \<lparr>st_host = host, st_port = port, st_username = username, st_password = password,
       st_key_path = key_path\<rparr> tc"

definition connect_ssh ::
    "string \<Rightarrow> u16 \<Rightarrow> string \<Rightarrow> string option \<Rightarrow> path_buf option \<Rightarrow> any_transport" where
  "connect_ssh host port username password key_path =
     connect_ssh_transport host port username password key_path client_transport_config_default"

definition connect_ssh_with_auto_upload ::
    "string \<Rightarrow> u16 \<Rightarrow> string \<Rightarrow> string option \<Rightarrow> path_buf option \<Rightarrow> bool \<Rightarrow> any_transport" where
  "connect_ssh_with_auto_upload host port username password key_path auto_upload =
     connect_ssh_transport host port username password key_path
       (client_transport_config_default\<lparr>ct_auto_upload := auto_upload\<rparr>)"

definition connect_local :: "path_buf \<Rightarrow> client_transport_config \<Rightarrow> any_transport" where
  "connect_local binary_path tc = LocalTransport \<lparr>lt_binary_path = binary_path, lt_args = [''--stdio'']\<rparr> tc"

definition connect_local_process :: "path_buf \<Rightarrow> path_buf option \<Rightarrow> any_transport" where
  "connect_local_process default_binary binary_path =
     connect_local (unwrap_or binary_path default_binary) client_transport_config_default"

section \<open>Lemmas\<close>

definition answers :: "(string \<Rightarrow> dial_outcome) \<Rightarrow> string \<Rightarrow> bool" where
  "answers dial a = (case dial a of DialConnected _ \<Rightarrow> True | _ \<Rightarrow> False)"

lemma try_addresses_tried:
  "snd (try_addresses show_duration c dial addr e as) =
     takeWhile (\<lambda>a. \<not> answers dial a) as @ take 1 (dropWhile (\<lambda>a. \<not> answers dial a) as)"
  by (induction as arbitrary: e) (auto simp: answers_def case_prod_unfold Let_def split: dial_outcome.splits)

lemma try_addresses_result:
  "fst (try_addresses show_duration c dial addr e as) = Inr a \<longleftrightarrow>
     find (answers dial) as = Some a \<and> (tt_keepalive c \<longrightarrow> dial a = DialConnected None)"
  by (induction as arbitrary: e)
    (auto simp: answers_def case_prod_unfold Let_def split: dial_outcome.splits option.splits)

lemma hm_get_Cons: "hm_get ((a, b) # m) k = (if k = a then Some b else hm_get m k)"
  by (simp add: hm_get_def)

lemma fold_insert_get:
  "hm_ok vars \<Longrightarrow> hm_get (fold (\<lambda>(k, v). hm_insert k v) vars m) k =
     (case hm_get vars k of Some v \<Rightarrow> Some v | None \<Rightarrow> hm_get m k)"
proof (induction vars arbitrary: m)
  case (Cons p vars)
  obtain a b where p: "p = (a, b)"
    by (cases p)
  have "hm_ok vars" and "hm_get vars a = None"
    using Cons.prems by (simp_all add: p hm_ok_def hm_get_def map_of_eq_None_iff)
  then show ?case
    using Cons.IH [of "hm_insert a b m"] by (auto simp: p hm_get_Cons split: option.split)
qed simp

lemma collect_env_get: "hm_ok vars \<Longrightarrow> hm_get (collect_env vars) k = hm_get vars k"
  by (simp add: collect_env_def fold_insert_get split: option.split)

section \<open>Properties\<close>

text \<open>Dialling stops at the first address that answers: the addresses are tried in the order the
  resolver gave them, none after the one that answers, and the call succeeds exactly when one answers and,
  with keepalive wanted, the option could be set on that one. A failure to set it is not followed by
  another attempt.\<close>

theorem tcp_dials_until_first_answer:
  assumes "addrs \<noteq> []"
  shows "snd (connect_tcp show_duration c (Inr addrs) dial) =
      takeWhile (\<lambda>a. \<not> answers dial a) addrs @ take 1 (dropWhile (\<lambda>a. \<not> answers dial a) addrs) \<and>
    (fst (connect_tcp show_duration c (Inr addrs) dial) = Inr a \<longleftrightarrow>
      find (answers dial) addrs = Some a \<and> (tt_keepalive c \<longrightarrow> dial a = DialConnected None))"
  using assms by (simp add: connect_tcp_def try_addresses_tried try_addresses_result Let_def)

theorem tcp_dials_until_first_answer_witness:
  "snd (connect_tcp (\<lambda>_. ''30s'') tcp_transport_config_default (Inr [''a'', ''b'', ''c''])
     (\<lambda>a. if a = ''a'' then DialTimedOut else DialConnected None)) = [''a'', ''b'']"
  using tcp_dials_until_first_answer [of "[''a'', ''b'', ''c'']" "\<lambda>_. ''30s''" tcp_transport_config_default
      "\<lambda>a. if a = ''a'' then DialTimedOut else DialConnected None"]
  by (simp add: answers_def)

text \<open>The factory accepts what validation accepts, but for WSL: a valid SSH, local or TCP configuration
  yields a transport of its type that carries the environment it was configured with, and never an error. A WSL
  configuration without its section is valid, and the factory refuses it.\<close>

fun client_env :: "any_transport \<Rightarrow> (string, string) hashmap" where
  "client_env (LocalTransport _ tc) = ct_env_vars tc"
| "client_env (SshTransport _ tc) = ct_env_vars tc"
| "client_env (TcpTransport _ tc) = ct_env_vars tc"
| "client_env (WslTransport _ tc) = ct_env_vars tc"

theorem factory_builds_validated:
  assumes "validate windows exists c = Inr ()" and "hm_ok (gen_env_vars (tc_general c))"
  shows "(\<exists>t. create_transport c = Inr t \<and> transport_name t = show_transport_type (tc_type c) \<and>
      (\<forall>k. hm_get (client_env t) k = hm_get (gen_env_vars (tc_general c)) k)) \<or>
    tc_type c = Wsl \<and> tc_wsl c = None \<and>
      create_transport c = Inl ''WSL transport configuration is required''"
  using assms(1) collect_env_get [OF assms(2)]
  by (cases "tc_type c")
    (auto simp: validate_def create_transport_def create_ssh_transport_def create_local_transport_def
      create_tcp_transport_def create_wsl_transport_def split: option.splits if_splits)

theorem factory_builds_validated_witness:
  "validate True (\<lambda>_. True) (transport_config_default\<lparr>tc_type := Wsl\<rparr>) = Inr () \<and>
   create_transport (transport_config_default\<lparr>tc_type := Wsl\<rparr>) = Inl ''WSL transport configuration is required'' \<and>
   (\<exists>t. create_transport transport_config_default = Inr t \<and> transport_name t = ''local'')"
  using factory_builds_validated [of True "\<lambda>_. True" "transport_config_default\<lparr>tc_type := Wsl\<rparr>"]
    factory_builds_validated [of True "\<lambda>_. True" transport_config_default]
  by (auto simp: validate_def transport_config_default_def general_config_default_def hm_ok_def
      create_transport_def create_wsl_transport_def)

end
