(* ===== verification/Cli.thy ===== *)
theory Cli
  imports Config Client_Transports Rpc
begin

text \<open>
  \<open>crates/cli/src/main.rs\<close>, with the start of the daemon in \<open>crates/client/src/daemon/mod.rs\<close>: the
  start-up of the program, the settings a connection is made with, the connection tests, the start of the
  daemon on demand and the \<open>daemon\<close> and \<open>config\<close> commands. The parsed command line is the input; printing
  yields lines. A call that has not returned is \<open>None\<close>, as in \<open>Remote_Client\<close>.
\<close>

section \<open>The command line\<close>

datatype daemon_action =
    ActStart bool "string option"
  | ActStop
  | ActStatus
  | ActSessions
  | ActInfo string

datatype config_action =
    ActShow
  | ActInit path_buf
  | ActProfiles
  | ActAddProfile string "string option" "u16 option" "string option" "path_buf option"

text \<open>The last two fields of \<open>CmdSsh\<close> are \<open>auto_upload_binary\<close> and \<open>no_daemon\<close>.\<close>

datatype commands =
    CmdSsh string u16 string "string option" "path_buf option" bool bool
  | CmdLocal "path_buf option" bool
  | CmdDaemon daemon_action
  | CmdConfig config_action

record cli =
  cli_config :: "path_buf option"
  cli_profile :: "string option"
  cli_verbose :: bool
  cli_command :: commands

datatype cli_error = CliYuha yuha_error | CliClient client_error | CliMessage string

section \<open>Start-up\<close>

text \<open>\<open>EnvFilter::try_from_default_env\<close> with a level to fall back to.\<close>

definition env_filter :: "(string \<Rightarrow> bool) \<Rightarrow> (string \<Rightarrow> string option) \<Rightarrow> string \<Rightarrow> log_filter" where
  "env_filter filter_ok env level =
     (case env ''RUST_LOG'' of
        Some s \<Rightarrow> if filter_ok s then FromRustLog s else Directives [level]
      | None \<Rightarrow> Directives [level])"

definition cli_init_logging ::
    "(string \<Rightarrow> bool) \<Rightarrow> (string \<Rightarrow> string option) \<Rightarrow> 'toml yuha_config \<Rightarrow> bool \<Rightarrow> log_filter \<times> log_layer" where
  "cli_init_logging filter_ok env c verbose =
     (env_filter filter_ok env
        (if verbose then ''debug'' else show_log_level (lg_level (yc_logging c))),
      case lg_format (yc_logging c) of
        FormatJson \<Rightarrow> JsonLayer
      | FormatCompact \<Rightarrow> CompactLayer
      | FormatPretty \<Rightarrow> PrettyLayer
      | FormatFull \<Rightarrow> FullLayer)"

record 'toml cli_world =
  cw_from_str :: "string \<Rightarrow> string + 'toml yuha_config"
  cw_exists :: "path_buf \<Rightarrow> bool"
  cw_files :: files
  cw_config_dir :: "path_buf option"
  cw_home_dir :: "path_buf option"
  cw_env :: "string \<Rightarrow> string option"
  cw_filter_ok :: "string \<Rightarrow> bool"

text \<open>\<open>main\<close> up to the dispatch on the command.\<close>

definition cli_start ::
    "'toml cli_world \<Rightarrow> cli \<Rightarrow> cli_error + 'toml yuha_config \<times> log_filter \<times> log_layer" where
  "cli_start w args =
     try_bind
       (case cli_config args of
          Some p \<Rightarrow> map_err CliYuha (load_from_file (cw_from_str w) (cw_files w) p)
        | None \<Rightarrow> Inr (load_with_fallback (cw_from_str w) (cw_exists w) (cw_files w) (cw_config_dir w)
                        (cw_home_dir w)))
       (\<lambda>c. let c1 = merge_with_env (cw_env w) c
            in try_bind (map_err CliYuha (validate_config c1))
                 (\<lambda>_. Inr (c1, cli_init_logging (cw_filter_ok w) (cw_env w) c1 (cli_verbose args))))"

section \<open>The settings of a connection\<close>

text \<open>Host, port, user and automatic upload, from the profile if one is named.\<close>

definition effective_ssh ::
    "string option \<Rightarrow> 'toml yuha_config \<Rightarrow> string \<Rightarrow> u16 \<Rightarrow> string \<Rightarrow> bool
     \<Rightarrow> cli_error + string \<times> u16 \<times> string \<times> bool" where
  "effective_ssh profile c host port username auto_upload =
     (case profile of
        None \<Rightarrow> Inr (host, port, username, auto_upload)
      | Some name \<Rightarrow>
          (case get_profile name c of
             None \<Rightarrow> Inl (CliMessage (''Profile '' @ [CHR 0x27] @ name @ [CHR 0x27] @ '' not found''))
           | Some p \<Rightarrow>
               (case cp_ssh p of
                  None \<Rightarrow>
                    Inl (CliMessage (''Profile '' @ [CHR 0x27] @ name @ [CHR 0x27] @
                           '' does not contain SSH configuration''))
                | Some s \<Rightarrow>
                    Inr (ps_host s, ps_port s, ps_username s, ps_auto_upload_binary s))))"

definition effective_binary_path :: "path_buf option \<Rightarrow> 'toml yuha_config \<Rightarrow> path_buf option" where
  "effective_binary_path binary_path c =
     (case binary_path of Some p \<Rightarrow> Some p | None \<Rightarrow> cc_default_binary_path (yc_client c))"

text \<open>The transport of a connection that does not go through the daemon.\<close>

definition direct_ssh_transport ::
    "string \<times> u16 \<times> string \<times> bool \<Rightarrow> string option \<Rightarrow> path_buf option \<Rightarrow> any_transport" where
  "direct_ssh_transport settings password key_path =
     (case settings of (host, port, username, auto_upload) \<Rightarrow>
        if auto_upload
        then connect_ssh_with_auto_upload host port username password key_path auto_upload
        else connect_ssh host port username password key_path)"

text \<open>The configurations sent to the daemon.\<close>

definition daemon_ssh_config ::
    "bool \<Rightarrow> (path_buf \<Rightarrow> bool) \<Rightarrow> string \<times> u16 \<times> string \<times> bool \<Rightarrow> string option \<Rightarrow> path_buf option
     \<Rightarrow> yuha_error + transport_config" where
  "daemon_ssh_config windows exists settings password key_path =
     (case settings of (host, port, username, auto_upload) \<Rightarrow>
        let b = sb_timeout 30 (sb_username username (sb_port port (sb_host host ssh_builder_new)));
            b1 = (case password of Some pwd \<Rightarrow> sb_password pwd b | None \<Rightarrow> b);
            b2 = (case key_path of Some key \<Rightarrow> sb_key_file key b1 | None \<Rightarrow> b1)
        in ssh_build windows exists b2)"

definition daemon_local_config ::
    "bool \<Rightarrow> (path_buf \<Rightarrow> bool) \<Rightarrow> path_buf option \<Rightarrow> yuha_error + transport_config" where
  "daemon_local_config windows exists binary_path =
     local_build windows exists
       (lb_args [''--stdio''] (lb_binary_path (unwrap_or binary_path ''yuha-remote'') local_builder_new))"

definition ssh_session_name :: "string \<times> u16 \<times> string \<times> bool \<Rightarrow> string" where
  "ssh_session_name settings =
     (case settings of (host, port, username, _) \<Rightarrow>
        ''ssh-'' @ username @ ''@'' @ host @ '':'' @ show_nat (unat port))"

section \<open>Testing a connection\<close>

text \<open>Calls one after another, up to the first error (the \<open>?\<close> of the source).\<close>

definition and_then ::
    "(('e + 'a) \<times> 's) option \<Rightarrow> ('a \<Rightarrow> 's \<Rightarrow> (('e + 'b) \<times> 's) option) \<Rightarrow> (('e + 'b) \<times> 's) option" where
  "and_then m f =
     (case m of
        None \<Rightarrow> None
      | Some (Inl e, s) \<Rightarrow> Some (Inl e, s)
      | Some (Inr a, s) \<Rightarrow> f a s)"

text \<open>What the tests do once connected: set the clipboard, read it, and with \<open>url\<close> open the browser. The
  result is the content that was read, which the source logs.\<close>

definition direct_test ::
    "codec \<Rightarrow> write_outcome \<Rightarrow> string \<Rightarrow> string option \<Rightarrow> client
     \<Rightarrow> ((client_error + string) \<times> client) option" where
  "direct_test cd w message url c =
     and_then (client_set_clipboard cd w message c) (\<lambda>_ c1.
     and_then (client_get_clipboard cd w c1) (\<lambda>content c2.
       case url of
         None \<Rightarrow> Some (Inr content, c2)
       | Some u \<Rightarrow> and_then (client_open_browser cd w u c2) (\<lambda>_ c3. Some (Inr content, c3))))"

definition session_test ::
    "daemon_codec \<Rightarrow> write_outcome \<Rightarrow> string \<Rightarrow> string option \<Rightarrow> session_client
     \<Rightarrow> ((client_error + string) \<times> session_client) option" where
  "session_test cd w message url sc =
     and_then (sc_set_clipboard cd w message sc) (\<lambda>_ sc1.
     and_then (sc_get_clipboard cd w sc1) (\<lambda>content sc2.
       case url of
         None \<Rightarrow> Some (Inr content, sc2)
       | Some u \<Rightarrow> and_then (sc_open_browser cd w u sc2) (\<lambda>_ sc3. Some (Inr content, sc3))))"

text \<open>\<open>reach\<close> is what a transport yields: an error or the stream.\<close>

definition cli_ssh_direct ::
    "(any_transport \<Rightarrow> string + read_event list) \<Rightarrow> codec \<Rightarrow> write_outcome
     \<Rightarrow> string \<times> u16 \<times> string \<times> bool \<Rightarrow> string option \<Rightarrow> path_buf option
     \<Rightarrow> ((client_error + string) \<times> client) option" where
  "cli_ssh_direct reach cd w settings password key_path =
     and_then (Some (client_connect (reach (direct_ssh_transport settings password key_path)) client_new))
       (\<lambda>_. direct_test cd w ''Hello from yuha CLI!'' None)"

definition cli_local_direct ::
    "(any_transport \<Rightarrow> string + read_event list) \<Rightarrow> codec \<Rightarrow> write_outcome \<Rightarrow> path_buf
     \<Rightarrow> path_buf option \<Rightarrow> ((client_error + string) \<times> client) option" where
  "cli_local_direct reach cd w default_binary binary_path =
     and_then (Some (client_connect (reach (connect_local_process default_binary binary_path)) client_new))
       (\<lambda>_. direct_test cd w ''Hello from local yuha CLI!'' (Some ''https://example.com''))"

section \<open>The daemon on demand\<close>

text \<open>Dialling the daemon: \<open>dial\<close> is the outcome of the local socket at a path.\<close>

type_synonym dialler = "path_buf \<Rightarrow> string + read_event list"

definition dc_connect :: "bool \<Rightarrow> dialler \<Rightarrow> path_buf option \<Rightarrow> client_error + channel" where
  "dc_connect unix dial socket =
     (case dial (unwrap_or socket (default_socket_path unix)) of
        Inl e \<Rightarrow> Inl (ClientConnection (''Failed to connect to daemon: '' @ e))
      | Inr stream \<Rightarrow> Inr (new_with_stream stream))"

text \<open>The loop that verifies the start, one element for each of its turns; with the time it has slept.\<close>

fun await_daemon ::
    "bool \<Rightarrow> daemon_codec \<Rightarrow> write_outcome \<Rightarrow> dialler list \<Rightarrow> ((cli_error + unit) \<times> duration) option" where
  "await_daemon unix cd w [] = Some (Inl (CliMessage ''Failed to start daemon''), 0)"
| "await_daemon unix cd w (dial # dials) =
     (case dc_connect unix dial None of
        Inl _ \<Rightarrow> map_option (\<lambda>(r, slept). (r, from_millis 100 + slept)) (await_daemon unix cd w dials)
      | Inr ch \<Rightarrow>
          (case dc_ping cd w ch of
             None \<Rightarrow> None
           | Some (Inl e, _) \<Rightarrow> Some (Inl (CliClient e), 0)
           | Some (Inr pong, _) \<Rightarrow> if pong then Some (Inr (), 0) else await_daemon unix cd w dials))"

text \<open>The daemon as the command line meets it: its platform, the failure to spawn the process, and the
  outcome of dialling it at the first probe (\<open>0\<close>) and in the turns of the loop (from \<open>1\<close> on).\<close>

record daemon_world =
  dw_unix :: bool
  dw_windows :: bool
  dw_exists :: "path_buf \<Rightarrow> bool"
  dw_spawn :: "string option"
  dw_dials :: "nat \<Rightarrow> dialler"
  dw_dial :: dialler

definition start_daemon ::
    "daemon_world \<Rightarrow> daemon_codec \<Rightarrow> write_outcome \<Rightarrow> ((cli_error + unit) \<times> duration) option" where
  "start_daemon d cd w =
     (case dw_spawn d of
        Some e \<Rightarrow> Some (Inl (CliMessage e), 0)
      | None \<Rightarrow>
          map_option (\<lambda>(r, slept). (r, from_millis 500 + slept))
            (await_daemon (dw_unix d) cd w (map (dw_dials d) [1..<11])))"

definition ensure_daemon_running ::
    "daemon_world \<Rightarrow> daemon_codec \<Rightarrow> write_outcome \<Rightarrow> ((cli_error + unit) \<times> duration) option" where
  "ensure_daemon_running d cd w =
     (case dc_connect (dw_unix d) (dw_dials d 0) None of
        Inl _ \<Rightarrow> start_daemon d cd w
      | Inr ch \<Rightarrow>
          (case dc_ping cd w ch of
             None \<Rightarrow> None
           | Some (Inl e, _) \<Rightarrow> Some (Inl (CliClient e), 0)
           | Some (Inr pong, _) \<Rightarrow> if pong then Some (Inr (), 0) else start_daemon d cd w))"

text \<open>What follows the configuration in both handlers: the session and its test, with whether the
  session was reused.\<close>

definition test_via_session ::
    "daemon_codec \<Rightarrow> write_outcome \<Rightarrow> string \<Rightarrow> transport_config \<Rightarrow> string \<Rightarrow> string option \<Rightarrow> channel
     \<Rightarrow> ((client_error + string \<times> bool) \<times> channel) option" where
  "test_via_session cd w session_name tc message url ch =
     and_then (dc_connect_session cd w session_name tc ch) (\<lambda>(i, reused) ch1.
       map_option (\<lambda>(r, sc). (try_bind r (\<lambda>content. Inr (content, reused)), sc_channel sc))
         (session_test cd w message url \<lparr>sc_channel = ch1, sc_session_id = i\<rparr>))"

definition via_daemon ::
    "daemon_world \<Rightarrow> daemon_codec \<Rightarrow> write_outcome \<Rightarrow> yuha_error + transport_config \<Rightarrow> string \<Rightarrow> string
     \<Rightarrow> string option \<Rightarrow> (cli_error + string \<times> bool) option" where
  "via_daemon d cd w config session_name message url =
     (case ensure_daemon_running d cd w of
        None \<Rightarrow> None
      | Some (Inl e, _) \<Rightarrow> Some (Inl e)
      | Some (Inr _, _) \<Rightarrow>
          (case dc_connect (dw_unix d) (dw_dial d) None of
             Inl e \<Rightarrow> Some (Inl (CliClient e))
           | Inr ch \<Rightarrow>
               (case config of
                  Inl e \<Rightarrow> Some (Inl (CliYuha e))
                | Inr tc \<Rightarrow>
                    map_option (\<lambda>(r, _). map_err CliClient r)
                      (test_via_session cd w session_name tc message url ch))))"

definition handle_ssh_via_daemon ::
    "daemon_world \<Rightarrow> daemon_codec \<Rightarrow> write_outcome \<Rightarrow> string \<times> u16 \<times> string \<times> bool \<Rightarrow> string option
     \<Rightarrow> path_buf option \<Rightarrow> (cli_error + string \<times> bool) option" where
  "handle_ssh_via_daemon d cd w settings password key_path =
     via_daemon d cd w (daemon_ssh_config (dw_windows d) (dw_exists d) settings password key_path)
       (ssh_session_name settings) ''Hello from yuha CLI via daemon!'' None"

definition handle_local_via_daemon ::
    "daemon_world \<Rightarrow> daemon_codec \<Rightarrow> write_outcome \<Rightarrow> path_buf option
     \<Rightarrow> (cli_error + string \<times> bool) option" where
  "handle_local_via_daemon d cd w binary_path =
     via_daemon d cd w (daemon_local_config (dw_windows d) (dw_exists d) binary_path) ''local''
       ''Hello from local yuha CLI via daemon!'' (Some ''https://example.com'')"

section \<open>Commands\<close>

text \<open>Padding to a width counts characters: the bytes that do not continue one.\<close>

definition char_count :: "string \<Rightarrow> nat" where
  "char_count s = length (filter (\<lambda>c. (of_char c :: nat) div 64 \<noteq> 2) s)"

definition padded :: "nat \<Rightarrow> string \<Rightarrow> string" where
  "padded width s = s @ replicate (width - char_count s) CHR 0x20"

definition session_row :: "string list \<Rightarrow> string" where
  "session_row cells =
     (case cells of
        [a, b, c, d] \<Rightarrow> padded 36 a @ '' '' @ padded 20 b @ '' '' @ padded 15 c @ '' '' @ padded 10 d
      | _ \<Rightarrow> [])"

definition session_lines :: "(session_id \<Rightarrow> string) \<Rightarrow> session_summary list \<Rightarrow> string list" where
  "session_lines show_id ss =
     (if ss = [] then [''No active sessions'']
      else [''Active sessions:'', session_row [''ID'', ''Name'', ''Status'', ''Uses''],
            replicate 80 CHR ''-''] @
           map (\<lambda>s. session_row [show_id (sum_id s), sum_name s, sum_status s,
                                  show_nat (unat (sum_use_count s))]) ss)"

fun debug_transport_type :: "transport_type \<Rightarrow> string" where
  "debug_transport_type Ssh = ''Ssh''"
| "debug_transport_type Local = ''Local''"
| "debug_transport_type Tcp = ''Tcp''"
| "debug_transport_type Wsl = ''Wsl''"

fun joined :: "string \<Rightarrow> string list \<Rightarrow> string" where
  "joined sep [] = []"
| "joined sep [s] = s"
| "joined sep (s # ss) = s @ sep @ joined sep ss"

definition info_lines :: "(session_id \<Rightarrow> string) \<Rightarrow> session_details \<Rightarrow> string list" where
  "info_lines show_id s =
     [''Session Information:'', ''  ID: '' @ show_id (det_id s), ''  Name: '' @ det_name s,
      ''  Status: '' @ det_status s,
      ''  Transport: '' @ debug_transport_type (tc_type (det_transport_config s)),
      ''  Created: '' @ det_created_at s, ''  Last Used: '' @ det_last_used s,
      ''  Use Count: '' @ show_nat (unat (det_use_count s))] @
     (if det_tags s \<noteq> [] then [''  Tags: '' @ joined '', '' (det_tags s)] else []) @
     (case det_description s of Some t \<Rightarrow> [''  Description: '' @ t] | None \<Rightarrow> [])"

text \<open>The commands that ask a running daemon. Starting one is below.\<close>

definition printed :: "('a \<Rightarrow> string list) \<Rightarrow> client_error + 'a \<Rightarrow> (cli_error + unit) \<times> string list" where
  "printed lines r = (case r of Inl e \<Rightarrow> (Inl (CliClient e), []) | Inr a \<Rightarrow> (Inr (), lines a))"

definition ask_daemon ::
    "daemon_world \<Rightarrow> (channel \<Rightarrow> ((client_error + 'a) \<times> channel) option) \<Rightarrow> ('a \<Rightarrow> string list)
     \<Rightarrow> ((cli_error + unit) \<times> string list) option" where
  "ask_daemon d call lines =
     (case dc_connect (dw_unix d) (dw_dial d) None of
        Inl e \<Rightarrow> Some (Inl (CliClient e), [])
      | Inr ch \<Rightarrow> map_option (printed lines \<circ> fst) (call ch))"

definition daemon_status ::
    "daemon_world \<Rightarrow> daemon_codec \<Rightarrow> write_outcome \<Rightarrow> ((cli_error + unit) \<times> string list) option" where
  "daemon_status d cd w =
     (case dc_connect (dw_unix d) (dw_dial d) None of
        Inl _ \<Rightarrow> Some (Inr (), [''Daemon is not running''])
      | Inr ch \<Rightarrow>
          (case dc_ping cd w ch of
             None \<Rightarrow> None
           | Some (Inl e, _) \<Rightarrow> Some (Inl (CliClient e), [])
           | Some (Inr False, _) \<Rightarrow> Some (Inr (), [''Daemon is not responding properly''])
           | Some (Inr True, ch1) \<Rightarrow>
               map_option (\<lambda>(r, _). case r of
                     Inl e \<Rightarrow> (Inl (CliClient e), [''Daemon is running''])
                   | Inr ss \<Rightarrow>
                       (Inr (), [''Daemon is running'', ''Active sessions: '' @ show_nat (length ss)]))
                 (dc_list_sessions cd w ch1)))"

text \<open>\<open>command\<close> is the process that is spawned in the background.\<close>

definition daemon_command_line :: "string \<Rightarrow> string option \<Rightarrow> command" where
  "daemon_command_line exe socket =
     (command_new exe)\<lparr>cmd_args := [''daemon'', ''start'', ''--foreground''] @ flag ''--socket'' socket\<rparr>"

text \<open>\<open>daemon/mod.rs\<close>. The log of a daemon in the background goes to a file or to standard output, as JSON;
  \<open>open_log\<close> is the failure of opening the file.\<close>

definition init_daemon_logging ::
    "(string \<Rightarrow> bool) \<Rightarrow> (string \<Rightarrow> string option) \<Rightarrow> (path_buf \<Rightarrow> string option) \<Rightarrow> path_buf option \<Rightarrow> bool
     \<Rightarrow> bool \<Rightarrow> cli_error + (log_filter \<times> path_buf option) option" where
  "init_daemon_logging filter_ok env open_log log_file foreground verbose =
     (let flt = env_filter filter_ok env (if verbose then ''debug'' else ''info'')
      in case log_file of
           Some p \<Rightarrow>
             (case open_log p of
                Some e \<Rightarrow> Inl (CliMessage e)
              | None \<Rightarrow> Inr (Some (flt, Some p)))
         | None \<Rightarrow> Inr (if foreground then None else Some (flt, None)))"

definition load_daemon_config ::
    "(string \<Rightarrow> string + daemon_config) \<Rightarrow> files \<Rightarrow> path_buf \<Rightarrow> cli_error + daemon_config" where
  "load_daemon_config from_str fs path =
     map_err CliMessage (try_bind (fs path) from_str)"

definition override :: "'a option \<Rightarrow> ('a \<Rightarrow> 'c \<Rightarrow> 'c) \<Rightarrow> 'c \<Rightarrow> 'c" where
  "override v upd c = (case v of Some a \<Rightarrow> upd a c | None \<Rightarrow> c)"

definition daemon_settings ::
    "bool \<Rightarrow> (string \<Rightarrow> string + daemon_config) \<Rightarrow> files \<Rightarrow> path_buf option \<Rightarrow> string option
     \<Rightarrow> path_buf option \<Rightarrow> path_buf option \<Rightarrow> cli_error + daemon_config" where
  "daemon_settings unix from_str fs config socket log_file pid_file =
     try_bind
       (case config of
          Some p \<Rightarrow> load_daemon_config from_str fs p
        | None \<Rightarrow> Inr (daemon_config_default unix))
       (\<lambda>c. Inr (override pid_file (\<lambda>p c. c\<lparr>dm_pid_file := Some p\<rparr>)
                 (override log_file (\<lambda>p c. c\<lparr>dm_log_file := Some p\<rparr>)
                   (override socket (\<lambda>s c. c\<lparr>socket_path := s\<rparr>) c))))"

text \<open>\<open>run_daemon\<close> up to the server it runs: \<open>write\<close> is the failure of writing a file, and the second result
  the files with the process id in place.\<close>

definition run_daemon ::
    "bool \<Rightarrow> (string \<Rightarrow> string + daemon_config) \<Rightarrow> (path_buf \<Rightarrow> string option) \<Rightarrow> nat
     \<Rightarrow> cli_error + (log_filter \<times> path_buf option) option
     \<Rightarrow> path_buf option \<Rightarrow> string option \<Rightarrow> bool \<Rightarrow> path_buf option \<Rightarrow> path_buf option \<Rightarrow> files
     \<Rightarrow> (cli_error + server) \<times> files" where
  "run_daemon unix from_str write pid logging config socket foreground log_file pid_file fs =
     (case (if foreground then Inr None else logging) of
        Inl e \<Rightarrow> (Inl e, fs)
      | Inr _ \<Rightarrow>
          (case daemon_settings unix from_str fs config socket log_file pid_file of
             Inl e \<Rightarrow> (Inl e, fs)
           | Inr c \<Rightarrow>
               (case dm_pid_file c of
                  None \<Rightarrow> (Inr (server_new c), fs)
                | Some p \<Rightarrow>
                    (case write p of
                       Some e \<Rightarrow> (Inl (CliMessage e), fs)
                     | None \<Rightarrow> (Inr (server_new c), fs(p := Inr (show_nat pid)))))))"

text \<open>\<open>handle_daemon_command\<close>: its result, with the lines it has printed, and the process it spawns or the
  server it runs.\<close>

datatype daemon_effect = Prints "string list" | Spawned command "string list" | Serves server

definition handle_daemon_command ::
    "daemon_world \<Rightarrow> daemon_codec \<Rightarrow> write_outcome \<Rightarrow> (session_id \<Rightarrow> string)
     \<Rightarrow> (string \<Rightarrow> string + session_id) \<Rightarrow> string \<Rightarrow> daemon_action
     \<Rightarrow> ((cli_error + unit) \<times> daemon_effect) option" where
  "handle_daemon_command d cd w show_id parse_uuid exe action =
     (case action of
        ActStart foreground socket \<Rightarrow>
          if foreground
          then Some (case fst (run_daemon (dw_unix d) (\<lambda>_. Inl []) (\<lambda>_. None) 0 (Inr None) None socket True
                                 None None (\<lambda>_. Inl [])) of
                       Inl e \<Rightarrow> (Inl e, Prints [])
                     | Inr sv \<Rightarrow> (Inr (), Serves sv))
          else Some (case dw_spawn d of
                       Some e \<Rightarrow> (Inl (CliMessage e), Prints [])
                     | None \<Rightarrow> (Inr (), Spawned (daemon_command_line exe socket) [''Daemon started'']))
      | ActStop \<Rightarrow>
          map_option (apsnd Prints) (ask_daemon d (dc_shutdown cd w) (\<lambda>_. [''Daemon shutdown requested'']))
      | ActStatus \<Rightarrow> map_option (apsnd Prints) (daemon_status d cd w)
      | ActSessions \<Rightarrow>
          map_option (apsnd Prints) (ask_daemon d (dc_list_sessions cd w) (session_lines show_id))
      | ActInfo s \<Rightarrow>
          map_option (apsnd Prints)
            (case dc_connect (dw_unix d) (dw_dial d) None of
               Inl e \<Rightarrow> Some (Inl (CliClient e), [])
             | Inr ch \<Rightarrow>
                 (case parse_session_id parse_uuid s of
                    Inl e \<Rightarrow> Some (Inl (CliYuha e), [])
                  | Inr i \<Rightarrow> map_option (printed (info_lines show_id) \<circ> fst) (dc_get_session_info cd w i ch))))"

text \<open>\<open>handle_config_command\<close>. The conversions to \<open>toml\<close> and the effects of saving are those of
  \<open>Config\<close>; the new profile is only printed.\<close>

definition describe_profile :: "'toml connection_profile \<Rightarrow> string" where
  "describe_profile p =
     (case cp_ssh p of
        Some s \<Rightarrow> ''SSH '' @ ps_username s @ ''@'' @ ps_host s @ '':'' @ show_nat (unat (ps_port s))
      | None \<Rightarrow>
          (case cp_local p of
             Some l \<Rightarrow> ''Local '' @ pl_binary_path l
           | None \<Rightarrow> ''Unknown''))"

definition new_profile ::
    "string \<Rightarrow> string \<Rightarrow> u16 option \<Rightarrow> string option \<Rightarrow> path_buf option \<Rightarrow> 'toml connection_profile" where
  "new_profile name host port username key_path =
     \<lparr>cp_name = name,
      cp_ssh = Some \<lparr>ps_host = host, ps_port = unwrap_or port 22, ps_username = unwrap_or username [],
                     ps_password = None, ps_key_path = key_path, ps_auto_upload_binary = False\<rparr>,
      cp_local = None, cp_env_vars = [], cp_overrides = []\<rparr>"

definition handle_config_command ::
    "('toml yuha_config \<Rightarrow> string + string) \<Rightarrow> ('toml connection_profile \<Rightarrow> string + string)
     \<Rightarrow> (path_buf \<Rightarrow> string option) \<Rightarrow> (path_buf \<Rightarrow> string option) \<Rightarrow> config_action \<Rightarrow> 'toml yuha_config \<Rightarrow> files
     \<Rightarrow> (cli_error + unit) \<times> string list \<times> files" where
  "handle_config_command show_config show_profile mkdir write action c fs =
     (case action of
        ActShow \<Rightarrow>
          (case show_config c of
             Inl e \<Rightarrow> (Inl (CliMessage e), [''Current Configuration:''], fs)
           | Inr t \<Rightarrow> (Inr (), [''Current Configuration:'', t], fs))
      | ActInit output \<Rightarrow>
          (case save_to_file show_config mkdir write output yuha_config_default fs of
             (Inl e, fs1) \<Rightarrow> (Inl (CliYuha e), [], fs1)
           | (Inr _, fs1) \<Rightarrow> (Inr (), [''Default configuration saved to: '' @ output], fs1))
      | ActProfiles \<Rightarrow>
          (Inr (),
           if yc_profiles c = [] then [''No profiles configured.'']
           else ''Available profiles:'' #
                map (\<lambda>(name, p). ''  '' @ name @ '': '' @ describe_profile p) (yc_profiles c), fs)
      | ActAddProfile name host port username key_path \<Rightarrow>
          (case host of
             None \<Rightarrow> (Inr (), [''SSH host is required for profile creation''], fs)
           | Some h \<Rightarrow>
               (let title = ''Profile '' @ [CHR 0x27] @ name @ [CHR 0x27] @ '' configuration:''
                in case show_profile (new_profile name h port username key_path) of
                     Inl e \<Rightarrow> (Inl (CliMessage e), [title], fs)
                   | Inr t \<Rightarrow>
                       (Inr (), [title, t,
                                 ''Add this to your yuha.toml file under [profiles.'' @ name @ '']''], fs))))"

section \<open>Lemmas\<close>

lemma and_then_simps [simp]:
  "and_then None f = None"
  "and_then (Some (Inl e, s)) f = Some (Inl e, s)"
  "and_then (Some (Inr a, s)) f = f a s"
  by (simp_all add: and_then_def)

lemma daemon_call_carried:
  assumes "carries (p # ps) ch" and "length p \<le> u16_max" and "dec_daemon cd p = Inr r"
    and "enc_daemon cd q = Inr j" and "length j \<le> u16_max"
  shows "\<exists>ch'. daemon_call expect cd Written q ch = Some (expect r, ch') \<and> carries ps ch' \<and>
    outgoing ch' = outgoing ch @ frame j"
  unfolding daemon_call_def using daemon_rpc.expecting [OF refl assms, of expect] by simp

lemma client_call_carried:
  assumes "message_channel c = Some ch" and "carries (p # ps) ch" and "length p \<le> u16_max"
    and "dec_response cd p = Inr r" and "enc_request cd q = Inr j" and "length j \<le> u16_max"
  shows "\<exists>c' ch'. client_call expect cd Written q c = Some (expect r, c') \<and> message_channel c' = Some ch' \<and>
    carries ps ch' \<and> outgoing ch' = outgoing ch @ frame j"
  unfolding client_call_def by (rule client_rpc.expecting [OF assms])

lemma session_call_carried:
  assumes "carries (p # ps) (sc_channel sc)" and "length p \<le> u16_max"
    and "dec_daemon cd p = Inr (CommandSuccess res)" and "expect res = Some a"
    and "enc_daemon cd (ExecuteCommand (sc_session_id sc) command) = Inr j" and "length j \<le> u16_max"
  shows "\<exists>ch'. session_call expect cd Written command sc = Some (Inr a, sc\<lparr>sc_channel := ch'\<rparr>) \<and>
    carries ps ch' \<and> outgoing ch' = outgoing (sc_channel sc) @ frame j"
  using daemon_call_carried [OF assms(1,2,3,5,6), of expect_command] assms(4)
  by (auto simp: session_call_def dc_execute_command_def expect_command_def)

text \<open>The requests of a test, and the daemon's answers to its commands.\<close>

definition test_commands :: "string \<Rightarrow> string option \<Rightarrow> daemon_command list" where
  "test_commands message url =
     [DcSetClipboard message, DcGetClipboard] @ (case url of Some u \<Rightarrow> [DcOpenBrowser u] | None \<Rightarrow> [])"

definition test_results :: "string option \<Rightarrow> command_result list" where
  "test_results url =
     [CmdClipboardSet, CmdClipboardContent ''Clipboard content placeholder''] @
     (case url of Some u \<Rightarrow> [CmdBrowserOpened] | None \<Rightarrow> [])"

lemma replies_execute:
  assumes "list_all2 (\<lambda>c e. from_slice (fst e) = Inr (ExecuteCommand i c)) commands evs"
    and "hm_get (active_clients h) i \<noteq> None"
  shows "map Inr (fst (replies show_id show_time from_slice evs h)) =
    map (map_sum id CommandSuccess \<circ> execute_command_on_client) commands"
  using assms
proof (induction commands evs arbitrary: h rule: list_all2_induct)
  case (Cons c cs e evs)
  then obtain payload now fresh where e: "e = (payload, now, fresh)" and f: "from_slice payload = Inr (ExecuteCommand i c)"
    by (cases e) auto
  have ok: "\<exists>r. execute_command_on_client c = Inr r"
    by (cases c) simp_all
  let ?h = "snd (via_manager (use_session show_id now i) h)"
  have "map Inr (fst (replies show_id show_time from_slice evs ?h)) =
      map (map_sum id CommandSuccess \<circ> execute_command_on_client) cs"
    by (rule Cons.IH) (use Cons.prems in simp)
  then show ?case
    using Cons.prems ok by (auto simp: e f case_prod_unfold Let_def handle_execute_command_def id_def comp_def)
qed simp

lemma replies_test:
  assumes "list_all2 (\<lambda>c e. from_slice (fst e) = Inr (ExecuteCommand i c)) (test_commands message url) evs"
    and "hm_get (active_clients h) i \<noteq> None"
  shows "fst (replies show_id show_time from_slice evs h) = map CommandSuccess (test_results url)"
  using replies_execute [OF assms, of show_id show_time]
  by (auto simp: test_commands_def test_results_def split: option.splits)

lemma session_test_carried:
  assumes "carries ps (sc_channel sc)"
    and "list_all2 (\<lambda>r p. dec_daemon cd p = Inr (CommandSuccess r) \<and> length p \<le> u16_max) (test_results url) ps"
    and "list_all2 (\<lambda>c j. enc_daemon cd (ExecuteCommand (sc_session_id sc) c) = Inr j \<and> length j \<le> u16_max)
      (test_commands message url) js"
  shows "\<exists>ch. session_test cd Written message url sc =
      Some (Inr ''Clipboard content placeholder'', sc\<lparr>sc_channel := ch\<rparr>) \<and>
    outgoing ch = outgoing (sc_channel sc) @ concat (map frame js)"
proof -
  obtain p1 p2 ps' j1 j2 js' where ps: "ps = p1 # p2 # ps'" and js: "js = j1 # j2 # js'"
    using assms(2,3) by (auto simp: test_results_def test_commands_def list_all2_Cons1 split: option.splits)
  note facts = assms(2,3) [unfolded ps js test_results_def test_commands_def, simplified]
  obtain c1 where c1: "sc_set_clipboard cd Written message sc = Some (Inr (), sc\<lparr>sc_channel := c1\<rparr>)"
    "carries (p2 # ps') c1" "outgoing c1 = outgoing (sc_channel sc) @ frame j1"
    using session_call_carried [where sc = sc and p = p1 and ps = "p2 # ps'" and j = j1 and res = CmdClipboardSet
        and command = "DcSetClipboard message" and expect = "\<lambda>r. if r = CmdClipboardSet then Some () else None"
        and a = "()" and cd = cd] assms(1) facts
    by (auto simp: sc_set_clipboard_def ps)
  let ?sc1 = "sc\<lparr>sc_channel := c1\<rparr>"
  obtain c2 where c2: "sc_get_clipboard cd Written ?sc1 =
      Some (Inr ''Clipboard content placeholder'', sc\<lparr>sc_channel := c2\<rparr>)"
    "carries ps' c2" "outgoing c2 = outgoing c1 @ frame j2"
    using session_call_carried [where sc = ?sc1 and p = p2 and ps = ps' and j = j2
        and res = "CmdClipboardContent ''Clipboard content placeholder''"
        and command = DcGetClipboard and expect = "\<lambda>r. case r of CmdClipboardContent s \<Rightarrow> Some s | _ \<Rightarrow> None"
        and cd = cd] c1(2) facts
    by (auto simp: sc_get_clipboard_def)
  show ?thesis
  proof (cases url)
    case None
    then show ?thesis
      using c1 c2 facts by (intro exI [of _ c2]) (simp add: session_test_def js)
  next
    case (Some u)
    then obtain p3 j3 where 3: "ps' = [p3]" "js' = [j3]" "dec_daemon cd p3 = Inr (CommandSuccess CmdBrowserOpened)"
      "length p3 \<le> u16_max" "enc_daemon cd (ExecuteCommand (sc_session_id sc) (DcOpenBrowser u)) = Inr j3"
      "length j3 \<le> u16_max"
      using facts by (auto simp: list_all2_Cons1)
    let ?sc2 = "sc\<lparr>sc_channel := c2\<rparr>"
    obtain c3 where c3: "sc_open_browser cd Written u ?sc2 = Some (Inr (), sc\<lparr>sc_channel := c3\<rparr>)"
      "outgoing c3 = outgoing c2 @ frame j3"
      using session_call_carried [where sc = ?sc2 and p = p3 and ps = "[]" and j = j3 and res = CmdBrowserOpened
          and command = "DcOpenBrowser u" and expect = "\<lambda>r. if r = CmdBrowserOpened then Some () else None"
          and a = "()" and cd = cd] c2(2) 3
      by (auto simp: sc_open_browser_def)
    then show ?thesis
      using c1 c2 3 Some by (intro exI [of _ c3]) (simp add: session_test_def js)
  qed
qed

text \<open>The same test without a daemon: its requests, and what a server with a working clipboard and nothing
  pending answers.\<close>

definition direct_requests :: "string \<Rightarrow> string option \<Rightarrow> protocol_request list" where
  "direct_requests message url =
     [SetClipboard message, GetClipboard] @ (case url of Some u \<Rightarrow> [OpenBrowser u] | None \<Rightarrow> [])"

definition direct_responses :: "string \<Rightarrow> string option \<Rightarrow> protocol_response list" where
  "direct_responses message url =
     [Success, Data [ClipboardContent message]] @ (case url of Some u \<Rightarrow> [Success] | None \<Rightarrow> [])"

lemma respond_direct:
  assumes "clip_poisoned (rs_clipboard r) = None" and "rb_items (rs_buffer r) = []"
    and "\<And>u. url = Some u \<Longrightarrow> open_url (env_parse_url env) u = Inr ()"
  shows "fst (respond env (direct_requests message url) r) = direct_responses message url"
  using assms
  by (auto simp: direct_requests_def direct_responses_def handle_set_clipboard_def set_clipboard_def
      handle_get_clipboard_def get_clipboard_def handle_open_browser_def rb_take_items_def Let_def
      split: option.splits)

lemma direct_test_carried:
  assumes "message_channel c = Some ch" and "carries ps ch"
    and "list_all2 (\<lambda>r p. dec_response cd p = Inr r \<and> length p \<le> u16_max) (direct_responses message url) ps"
    and "list_all2 (\<lambda>q j. enc_request cd q = Inr j \<and> length j \<le> u16_max) (direct_requests message url) js"
  shows "\<exists>c' ch'. direct_test cd Written message url c = Some (Inr message, c') \<and> message_channel c' = Some ch' \<and>
    outgoing ch' = outgoing ch @ concat (map frame js)"
proof -
  obtain p1 p2 ps' j1 j2 js' where ps: "ps = p1 # p2 # ps'" and js: "js = j1 # j2 # js'"
    using assms(3,4) by (auto simp: direct_responses_def direct_requests_def list_all2_Cons1)
  note facts = assms(3,4) [unfolded ps js direct_responses_def direct_requests_def, simplified]
  obtain c1 ch1 where 1: "client_set_clipboard cd Written message c = Some (Inr (), c1)"
    "message_channel c1 = Some ch1" "carries (p2 # ps') ch1" "outgoing ch1 = outgoing ch @ frame j1"
    using client_call_carried [where c = c and ch = ch and p = p1 and ps = "p2 # ps'" and j = j1 and r = Success
        and q = "SetClipboard message" and expect = expect_success and cd = cd] assms(1,2) facts
    by (auto simp: client_set_clipboard_def expect_success_def ps)
  obtain c2 ch2 where 2: "client_get_clipboard cd Written c1 = Some (Inr message, c2)"
    "message_channel c2 = Some ch2" "carries ps' ch2" "outgoing ch2 = outgoing ch1 @ frame j2"
    using client_call_carried [where c = c1 and ch = ch1 and p = p2 and ps = ps' and j = j2
        and r = "Data [ClipboardContent message]" and q = GetClipboard and expect = expect_clipboard and cd = cd]
      1(2,3) facts
    by (auto simp: client_get_clipboard_def expect_clipboard_def)
  show ?thesis
  proof (cases url)
    case None
    with 1 2 facts show ?thesis
      by (simp add: direct_test_def js)
  next
    case (Some u)
    then obtain p3 j3 where 3: "ps' = [p3]" "js' = [j3]" "dec_response cd p3 = Inr Success"
      "length p3 \<le> u16_max" "enc_request cd (OpenBrowser u) = Inr j3" "length j3 \<le> u16_max"
      using facts by (auto simp: list_all2_Cons1)
    obtain c3 ch3 where "client_open_browser cd Written u c2 = Some (Inr (), c3)"
      "message_channel c3 = Some ch3" "outgoing ch3 = outgoing ch2 @ frame j3"
      using client_call_carried [where c = c2 and ch = ch2 and p = p3 and ps = "[]" and j = j3 and r = Success
          and q = "OpenBrowser u" and expect = expect_success and cd = cd] 2(2,3) 3
      by (auto simp: client_open_browser_def expect_success_def)
    with 1 2 3 Some show ?thesis
      by (simp add: direct_test_def js)
  qed
qed

text \<open>The wait for a daemon: how long it can take, and what it means that it succeeded.\<close>

lemma await_daemon_time:
  "await_daemon unix cd w dials = Some (r, t) \<Longrightarrow> t \<le> length dials * from_millis 100"
  by (induction unix cd w dials arbitrary: r t rule: await_daemon.induct)
    (fastforce split: sum.splits option.splits if_splits)+

lemma await_daemon_up:
  "await_daemon unix cd w dials = Some (Inr (), t) \<Longrightarrow>
   \<exists>dial\<in>set dials. \<exists>ch ch'. dc_connect unix dial None = Inr ch \<and> dc_ping cd w ch = Some (Inr True, ch')"
  by (induction unix cd w dials arbitrary: t rule: await_daemon.induct)
    (fastforce split: sum.splits option.splits if_splits)+

lemma await_daemon_down:
  "\<forall>dial\<in>set dials. \<exists>e. dc_connect unix dial None = Inl e \<Longrightarrow>
   await_daemon unix cd w dials = Some (Inl (CliMessage ''Failed to start daemon''), length dials * from_millis 100)"
  by (induction dials) auto

section \<open>Properties\<close>

text \<open>Making sure that a daemon runs takes at most one and a half seconds of waiting, and if it succeeds
  a daemon has answered a ping, at the first probe or in one of the ten turns of the loop. If no dial is
  ever answered it fails after exactly that time.\<close>

theorem ensure_daemon_bounded:
  assumes "ensure_daemon_running d cd w = Some (r, t)"
  shows "t \<le> from_millis 1500 \<and>
    (r = Inr () \<longrightarrow> (\<exists>k<11. \<exists>ch ch'. dc_connect (dw_unix d) (dw_dials d k) None = Inr ch \<and>
      dc_ping cd w ch = Some (Inr True, ch'))) \<and>
    ((\<forall>k<11. \<exists>e. dc_connect (dw_unix d) (dw_dials d k) None = Inl e) \<and> dw_spawn d = None \<longrightarrow>
      r = Inl (CliMessage ''Failed to start daemon'') \<and> t = from_millis 1500)"
proof -
  have ms: "from_millis 1500 = from_millis 500 + 10 * from_millis 100"
    by (simp add: from_millis_def)
  have start: "t \<le> from_millis 1500 \<and> (r = Inr () \<longrightarrow> (\<exists>k<11. \<exists>ch ch'.
      dc_connect (dw_unix d) (dw_dials d k) None = Inr ch \<and> dc_ping cd w ch = Some (Inr True, ch')))"
    if "start_daemon d cd w = Some (r, t)"
    using that await_daemon_time [of "dw_unix d" cd w "map (dw_dials d) [1..<11]" r]
      await_daemon_up [of "dw_unix d" cd w "map (dw_dials d) [1..<11]"]
    unfolding ms start_daemon_def by (fastforce split: option.splits)
  have down: "r = Inl (CliMessage ''Failed to start daemon'') \<and> t = from_millis 1500"
    if dead: "\<forall>k<11. \<exists>e. dc_connect (dw_unix d) (dw_dials d k) None = Inl e" and spawn: "dw_spawn d = None"
  proof -
    obtain e where "dc_connect (dw_unix d) (dw_dials d 0) None = Inl e"
      using dead by (auto dest: spec [where x = 0])
    then show ?thesis
      using assms dead spawn await_daemon_down [of "map (dw_dials d) [1..<11]" "dw_unix d" cd w]
      unfolding ms ensure_daemon_running_def start_daemon_def by auto
  qed
  have "t \<le> from_millis 1500 \<and> (r = Inr () \<longrightarrow> (\<exists>k<11. \<exists>ch ch'.
      dc_connect (dw_unix d) (dw_dials d k) None = Inr ch \<and> dc_ping cd w ch = Some (Inr True, ch')))"
  proof (cases "start_daemon d cd w = Some (r, t)")
    case True
    then show ?thesis by (rule start)
  next
    case False
    then have "t = 0" and "r = Inr () \<longrightarrow> (\<exists>ch ch'. dc_connect (dw_unix d) (dw_dials d 0) None = Inr ch \<and>
        dc_ping cd w ch = Some (Inr True, ch'))"
      using assms by (auto simp: ensure_daemon_running_def split: sum.splits option.splits if_splits)
    moreover have "(0 :: nat) < 11"
      by simp
    ultimately show ?thesis
      by blast
  qed
  with down show ?thesis
    by blast
qed

theorem ensure_daemon_bounded_witness:
  "ensure_daemon_running \<lparr>dw_unix = True, dw_windows = False, dw_exists = \<lambda>_. True, dw_spawn = None,
       dw_dials = \<lambda>_ _. Inl ''refused'', dw_dial = \<lambda>_. Inl ''refused''\<rparr>
     \<lparr>enc_daemon = \<lambda>_. Inr [1], dec_daemon = \<lambda>_. Inr Pong\<rparr> Written =
   Some (Inl (CliMessage ''Failed to start daemon''), from_millis 1500)"
proof -
  let ?d = "\<lparr>dw_unix = True, dw_windows = False, dw_exists = \<lambda>_. True, dw_spawn = None,
       dw_dials = \<lambda>_ _. Inl ''refused'', dw_dial = \<lambda>_. Inl ''refused''\<rparr>"
  let ?cd = "\<lparr>enc_daemon = \<lambda>_. Inr [1], dec_daemon = \<lambda>_. Inr Pong\<rparr>"
  obtain r t where "ensure_daemon_running ?d ?cd Written = Some (r, t)"
    by (simp add: ensure_daemon_running_def start_daemon_def dc_connect_def await_daemon_down)
  from ensure_daemon_bounded [OF this] this show ?thesis
    by (simp add: dc_connect_def)
qed

text \<open>The credentials of a profile are never used: with a profile and no password or key on the command
  line, the direct connection is refused for want of an authentication method, and the configuration
  for the daemon is refused as incomplete, whatever the profile's password and key.\<close>

theorem profile_credentials_ignored:
  assumes "get_profile name c = Some p" and "cp_ssh p = Some s" and "ps_host s \<noteq> []" and "ps_username s \<noteq> []"
  shows "let settings = (ps_host s, ps_port s, ps_username s, ps_auto_upload_binary s) in
    effective_ssh (Some name) c host port username auto_upload = Inr settings \<and>
    (\<exists>sc tc. direct_ssh_transport settings None None = SshTransport sc tc \<and>
      (sw_connect w = None \<longrightarrow> ssh_connect w default_binary sc tc = (Inl ''No authentication method provided'', []))) \<and>
    daemon_ssh_config windows exists settings None None =
      Inl (config_error ''SSH transport requires either password or key authentication'')"
  using assms
  by (simp add: effective_ssh_def direct_ssh_transport_def connect_ssh_def connect_ssh_with_auto_upload_def
      connect_ssh_transport_def ssh_connect_def authenticate_def daemon_ssh_config_def ssh_build_def
      validated_def validate_def sb_timeout_def sb_username_def sb_port_def sb_host_def ssh_builder_new_def)

theorem profile_credentials_ignored_witness:
  "daemon_ssh_config False (\<lambda>_. True) (''h'', 22, ''bob'', False) None None =
     Inl (config_error ''SSH transport requires either password or key authentication'')"
proof -
  let ?s = "\<lparr>ps_host = ''h'', ps_port = 22, ps_username = ''bob'', ps_password = Some ''secret'',
      ps_key_path = None, ps_auto_upload_binary = False\<rparr>"
  let ?p = "\<lparr>cp_name = ''dev'', cp_ssh = Some ?s, cp_local = None, cp_env_vars = [], cp_overrides = []\<rparr>
      :: nat connection_profile"
  have "get_profile ''dev'' (set_profile ?p yuha_config_default) = Some ?p"
    by (simp add: get_profile_def set_profile_def hm_insert_def hm_get_def yuha_config_default_def)
  from profile_credentials_ignored [OF this, where s = ?s and windows = False and exists = "\<lambda>_. True"]
  show ?thesis
    by (simp add: Let_def)
qed

text \<open>C4. A connection test through the daemon, client and server against each other: the daemon answers the
  bytes the client writes, the client reads the bytes the daemon writes, in whatever chunks. If the daemon hands
  out a session it holds a client for, as it does for one it creates and not for one it takes from the pool, and
  serves no other client meanwhile, the test succeeds, and the clipboard it reads back is the daemon's
  placeholder, never the text it has just set.\<close>

theorem test_through_daemon_reads_placeholder:
  assumes "handle_connect_session show_id now fresh name tc (sv_handler sv) = (SessionCreated i reused, h1)"
    and "hm_get (active_clients h1) i \<noteq> None"
    and "enc_daemon cd (ConnectSession name tc) = Inr j" and "length j \<le> u16_max"
    and "from_slice j = Inr (ConnectSession name tc)"
    and "list_all2 (\<lambda>c e. enc_daemon cd (ExecuteCommand i c) = Inr (fst e) \<and> length (fst e) \<le> u16_max \<and>
        from_slice (fst e) = Inr (ExecuteCommand i c)) (test_commands message url) evs"
    and "list_all2 (\<lambda>r p. to_vec r = Inr p \<and> length p \<le> u16_max \<and> dec_daemon cd p = Inr r)
        (SessionCreated i reused # map CommandSuccess (test_results url)) ps"
    and "concat cs = outgoing (snd (handle_client show_id show_time from_slice to_vec
        (map arrival ((j, now, fresh) # evs)) (sv, new_with_stream [])))" and "[] \<notin> set cs"
  shows "\<exists>ch. test_via_session cd Written name tc message url (new_with_stream (map Chunk cs)) =
      Some (Inr (''Clipboard content placeholder'', reused), ch) \<and>
    outgoing ch = concat (map (frame \<circ> fst) ((j, now, fresh) # evs))"
proof -
  let ?evs = "(j, now, fresh) # evs"
  have ex: "list_all2 (\<lambda>c e. from_slice (fst e) = Inr (ExecuteCommand i c)) (test_commands message url) evs"
    by (rule list_all2_mono [OF assms(6)]) simp
  have replies: "fst (replies show_id show_time from_slice ?evs (sv_handler sv)) =
      SessionCreated i reused # map CommandSuccess (test_results url)"
    using replies_test [OF ex assms(2)] by (simp add: assms(1,5) case_prod_unfold Let_def)
  have "from_slice (fst e) \<noteq> Inr Shutdown" if "e \<in> set ?evs" for e
    using that ex assms(5) by (auto simp: list_all2_conv_all_nth in_set_conv_nth)
  moreover have "list_all2 (\<lambda>r p. to_vec r = Inr p \<and> length p \<le> u16_max)
      (fst (replies show_id show_time from_slice ?evs (sv_handler sv))) ps"
    unfolding replies by (rule list_all2_mono [OF assms(7)]) simp
  ultimately have "concat cs = concat (map frame ps)"
    using client_loop_replies [of ?evs from_slice to_vec show_id show_time sv ps "new_with_stream []"] assms(8)
    by (simp add: new_with_stream_def)
  then have carried: "carries ps (new_with_stream (map Chunk cs))"
    by (rule carriesI [OF assms(9)])
  obtain p ps' where ps: "ps = p # ps'" "length p \<le> u16_max" "dec_daemon cd p = Inr (SessionCreated i reused)"
    and rest: "list_all2 (\<lambda>r p. to_vec (CommandSuccess r) = Inr p \<and> length p \<le> u16_max \<and>
        dec_daemon cd p = Inr (CommandSuccess r)) (test_results url) ps'"
    using assms(7) by (auto simp: list_all2_Cons1 list_all2_map1)
  have results: "list_all2 (\<lambda>r p. dec_daemon cd p = Inr (CommandSuccess r) \<and> length p \<le> u16_max) (test_results url) ps'"
    by (rule list_all2_mono [OF rest]) simp
  obtain ch1 where ch1: "dc_connect_session cd Written name tc (new_with_stream (map Chunk cs)) =
      Some (Inr (i, reused), ch1)" "carries ps' ch1" "outgoing ch1 = frame j"
    using daemon_call_carried [OF carried [unfolded ps(1)] ps(2,3) assms(3,4), of expect_created]
    by (auto simp: dc_connect_session_def expect_created_def handle_daemon_response_def new_with_stream_def)
  have "list_all2 (\<lambda>c j. enc_daemon cd (ExecuteCommand i c) = Inr j \<and> length j \<le> u16_max)
      (test_commands message url) (map fst evs)"
    unfolding list_all2_map2 by (rule list_all2_mono [OF assms(6)]) simp
  then obtain ch where "session_test cd Written message url \<lparr>sc_channel = ch1, sc_session_id = i\<rparr> =
      Some (Inr ''Clipboard content placeholder'', \<lparr>sc_channel = ch, sc_session_id = i\<rparr>)"
    and "outgoing ch = outgoing ch1 @ concat (map frame (map fst evs))"
    using session_test_carried [where sc = "\<lparr>sc_channel = ch1, sc_session_id = i\<rparr>" and ps = ps' and cd = cd
        and message = message and url = url and js = "map fst evs"] ch1(2) results by auto
  then show ?thesis
    using ch1 by (simp add: test_via_session_def comp_def)
qed

text \<open>A run with a daemon that has just started, over a codec that knows the messages of the test.\<close>

definition sample_codec :: "(daemon_request \<times> bytes) list \<Rightarrow> (daemon_response \<times> bytes) list \<Rightarrow> daemon_codec" where
  "sample_codec qs rs =
     \<lparr>enc_daemon = (\<lambda>q. case map_of qs q of Some j \<Rightarrow> Inr j | None \<Rightarrow> Inl ''bad''),
      dec_daemon = (\<lambda>p. case find (\<lambda>x. snd x = p) rs of Some x \<Rightarrow> Inr (fst x) | None \<Rightarrow> Inl ''bad'')\<rparr>"

theorem test_through_daemon_reads_placeholder_witness:
  "\<exists>cd cs ch. test_via_session cd Written ''s'' (sample_ssh ''bob'' ''h'') ''hi'' None (new_with_stream (map Chunk cs)) =
     Some (Inr (''Clipboard content placeholder'', False), ch) \<and>
     outgoing ch = [0, 1, 1, 0, 1, 2, 0, 1, 3]"
proof -
  let ?tc = "sample_ssh ''bob'' ''h''"
  let ?qs = "[(ConnectSession ''s'' ?tc, [1]), (ExecuteCommand 7 (DcSetClipboard ''hi''), [2]),
      (ExecuteCommand 7 DcGetClipboard, [3])] :: (daemon_request \<times> bytes) list"
  let ?rs = "[(SessionCreated 7 False, [4]), (CommandSuccess CmdClipboardSet, [5]),
      (CommandSuccess (CmdClipboardContent ''Clipboard content placeholder''), [6])] :: (daemon_response \<times> bytes) list"
  let ?cd = "sample_codec ?qs ?rs"
  let ?from = "\<lambda>p. case find (\<lambda>x. snd x = p) ?qs of Some x \<Rightarrow> Inr (fst x) | None \<Rightarrow> Inl ''bad''"
  let ?to = "\<lambda>r. case map_of ?rs r of Some p \<Rightarrow> Inr p | None \<Rightarrow> Inl ''bad''"
  let ?sv = "server_new (daemon_config_default True)"
  let ?h1 = "snd (handle_connect_session (\<lambda>_. []) 0 7 ''s'' ?tc (sv_handler ?sv))"
  have conn: "handle_connect_session (\<lambda>_. []) 0 7 ''s'' ?tc (sv_handler ?sv) = (SessionCreated 7 False, ?h1)"
    and active: "hm_get (active_clients ?h1) 7 \<noteq> None"
    by (simp_all add: handle_connect_session_def session_run_defs list_sessions_def list_all_sessions_def hm_values_def)
  let ?out = "outgoing (snd (handle_client (\<lambda>_. []) (\<lambda>_. []) ?from ?to
      (map arrival [([1], 0, 7), ([2], 0, 7), ([3], 0, 7)]) (?sv, new_with_stream [])))"
  have "\<exists>ch. test_via_session ?cd Written ''s'' ?tc ''hi'' None (new_with_stream (map Chunk (map (\<lambda>b. [b]) ?out))) =
      Some (Inr (''Clipboard content placeholder'', False), ch) \<and>
    outgoing ch = concat (map (frame \<circ> fst) [([1], 0 :: time, 7 :: session_id), ([2], 0, 7), ([3], 0, 7)])"
    by (rule test_through_daemon_reads_placeholder [where from_slice = ?from and to_vec = ?to and
          show_id = "\<lambda>_. []" and show_time = "\<lambda>_. []" and sv = ?sv and ps = "[[4], [5], [6]]",
          OF conn active])
      (auto simp: sample_codec_def u16_max_def test_commands_def test_results_def)
  then obtain ch where test: "test_via_session ?cd Written ''s'' ?tc ''hi'' None
      (new_with_stream (map Chunk (map (\<lambda>b. [b]) ?out))) = Some (Inr (''Clipboard content placeholder'', False), ch)"
    and written: "outgoing ch = concat (map (frame \<circ> fst) [([1], 0 :: time, 7 :: session_id), ([2], 0, 7), ([3], 0, 7)])"
    by blast
  have "outgoing ch = [0, 1, 1, 0, 1, 2, 0, 1, 3]"
    unfolding written by (simp add: frame_def be_bytes_def)
  with test show ?thesis
    by (intro exI conjI)
qed

text \<open>C2. The same test without a daemon reads back what it set: run against the server loop of the remote
  binary, each side reading exactly the bytes the other writes in whatever chunks, the test succeeds and its
  result is its own message, provided the clipboard's lock is not poisoned and nothing is pending there.\<close>

theorem direct_test_reads_back:
  assumes "clip_poisoned (rs_clipboard r) = None" and "rb_items (rs_buffer r) = []"
    and "\<And>u. url = Some u \<Longrightarrow> open_url (env_parse_url env) u = Inr ()"
    and "list_all2 (\<lambda>q j. enc_request cd q = Inr j \<and> length j \<le> u16_max \<and> from_slice j = Inr q)
        (direct_requests message url) js"
    and "list_all2 (\<lambda>resp p. to_vec resp = Inr p \<and> length p \<le> u16_max \<and> dec_response cd p = Inr resp)
        (direct_responses message url) ps"
    and "concat cs = concat (map frame js)" and "[] \<notin> set cs" and "[] \<notin> set ds"
    and "concat ds = outgoing (snd (snd (serve_loop env from_slice to_vec
        (replicate (length js) (Turn (\<lambda>r. r) Written)) (r, new_with_stream (map Chunk cs)))))"
  shows "\<exists>c ch. direct_test cd Written message url \<lparr>message_channel = Some (new_with_stream (map Chunk ds))\<rparr> =
      Some (Inr message, c) \<and> message_channel c = Some ch \<and> outgoing ch = concat cs"
proof -
  let ?qs = "direct_requests message url"
  have reqs: "list_all2 (\<lambda>q j. from_slice j = Inr q \<and> length j \<le> u16_max) ?qs js"
    and encs: "list_all2 (\<lambda>q j. enc_request cd q = Inr j \<and> length j \<le> u16_max) ?qs js"
    using assms(4) by (auto elim: list_all2_mono)
  have resps: "list_all2 (\<lambda>resp p. to_vec resp = Inr p \<and> length p \<le> u16_max) (fst (respond env ?qs r)) ps"
    and decs: "list_all2 (\<lambda>resp p. dec_response cd p = Inr resp \<and> length p \<le> u16_max) (direct_responses message url) ps"
    using assms(5) by (auto simp: respond_direct [OF assms(1-3)] elim: list_all2_mono)
  have "length js = length ?qs"
    using list_all2_lengthD [OF encs] by simp
  then have "concat ds = concat (map frame ps)"
    using serve_loop_responds [OF reqs resps carriesI [OF assms(7,6)]] assms(9)
    by (auto simp: new_with_stream_def)
  from direct_test_carried [OF _ carriesI [OF assms(8) this] decs encs,
      of "\<lparr>message_channel = Some (new_with_stream (map Chunk ds))\<rparr>"]
  show ?thesis
    using assms(6) by (simp add: new_with_stream_def)
qed

theorem direct_test_reads_back_witness:
  "\<exists>cd ds c ch. direct_test cd Written ''hi'' None \<lparr>message_channel = Some (new_with_stream (map Chunk ds))\<rparr> =
     Some (Inr ''hi'', c) \<and> message_channel c = Some ch \<and> outgoing ch = [0, 1, 1, 0, 1, 2]"
proof -
  let ?cd = "\<lparr>enc_request = \<lambda>q. Inr (if q = GetClipboard then [2] else [1]),
      dec_response = \<lambda>p. Inr (if p = [1] then Success else Data [ClipboardContent ''hi''])\<rparr>"
  let ?from = "\<lambda>j. Inr (if j = [1] then SetClipboard ''hi'' else GetClipboard) :: string + protocol_request"
  let ?to = "\<lambda>resp. Inr (if resp = Success then [1] else [2]) :: string + bytes"
  let ?r = "remote_new clipboard_init"
  let ?cs = "[[0], [1, 1, 0], [1], [2]] :: bytes list"
  let ?out = "outgoing (snd (snd (serve_loop quiet_env ?from ?to
      (replicate (length [[1], [2] :: bytes]) (Turn (\<lambda>r. r) Written)) (?r, new_with_stream (map Chunk ?cs)))))"
  have "\<exists>c ch. direct_test ?cd Written ''hi'' None
        \<lparr>message_channel = Some (new_with_stream (map Chunk (map (\<lambda>b. [b]) ?out)))\<rparr> = Some (Inr ''hi'', c) \<and>
      message_channel c = Some ch \<and> outgoing ch = concat ?cs"
    by (rule direct_test_reads_back [where from_slice = ?from and to_vec = ?to and r = ?r and env = quiet_env
          and js = "[[1], [2]]" and ps = "[[1], [2]]"])
      (auto simp: remote_new_def clipboard_init_def rb_new_def direct_requests_def direct_responses_def u16_max_def
        frame_def be_bytes_def simp del: serve_loop.simps)
  then obtain c ch where test: "direct_test ?cd Written ''hi'' None
        \<lparr>message_channel = Some (new_with_stream (map Chunk (map (\<lambda>b. [b]) ?out)))\<rparr> = Some (Inr ''hi'', c)"
      "message_channel c = Some ch"
    and written: "outgoing ch = concat ?cs"
    by blast
  have "outgoing ch = [0, 1, 1, 0, 1, 2]"
    unfolding written by simp
  with test show ?thesis
    by (intro exI conjI)
qed

end
