(* ===== verification/Spec2Isabelle.thy ===== *)
theory Spec2Isabelle
  imports Retry Error_Context Manager_Race Session_Locks Registry_Race Remote_Main Cli
begin

text \<open>
  A model of yuha, a client that works on a remote host through a server it runs there. All paths are under
  \<open>src/crates/\<close>.

  \<^bold>\<open>The program.\<close> \<open>core\<close> holds what the other crates share: errors, transport configurations, framed
  messages over a byte stream, the protocol, and the bookkeeping of sessions. \<open>remote\<close> is the server that runs
  on the remote host: it answers requests of the client, relays forwarded ports, and takes commands from local
  shells over IPC. \<open>client\<close> opens transports to such a server, and also contains a daemon that keeps sessions for
  several clients and the client of that daemon. \<open>cli\<close> is the command line.

  \<^bold>\<open>Theories and what they model.\<close>
  \<^item> \<open>Prelude\<close>: machine integers, time, decimal rendering, white space, error sums (\<open>try_bind\<close>, \<open>map_err\<close>).
    \<open>Hash_Map\<close> and \<open>Id_Index\<close>: \<open>HashMap\<close> as a list with distinct keys in the order of iteration, and the
    secondary indexes of the registry, each with the locale of its laws (\<open>hash_map\<close>, \<open>id_index\<close>).
  \<^item> \<open>Errors\<close>, \<open>Error_Context\<close>, \<open>Retry\<close>: \<open>core/src/error/\<close>, with the retry loop and the circuit breaker.
  \<^item> \<open>Transport\<close>: \<open>core/src/transport/\<close>, configurations, validation, connection keys, builders.
  \<^item> \<open>Channel\<close>: \<open>core/src/message_channel.rs\<close>, on the locale \<open>framing\<close>. \<open>Protocol\<close>: \<open>core/src/protocol/\<close>,
    the buffers on the locales \<open>protocol_buffer\<close> and \<open>lossless_buffer\<close>.
  \<^item> \<open>Session\<close>, \<open>Registry\<close>, \<open>Pool\<close>, \<open>Lifecycle\<close>, \<open>Session_Metrics\<close>, \<open>Manager\<close>: \<open>core/src/session/\<close>. The
    registry and the pool are given to the manager through the locales \<open>session_store\<close> and \<open>reuse_pool\<close>.
    \<open>Manager_Race\<close>: the manager's status updates as tasks that take one lock at a time. \<open>Registry_Race\<close>:
    registrations and removals lock by lock. \<open>Locks\<close>, \<open>Session_Locks\<close>: reader-writer locks that are granted in
    the order they are asked for, and which of them every operation of the session layer takes and holds.
  \<^item> \<open>Daemon_Protocol\<close>, \<open>Daemon\<close>, \<open>Daemon_Client\<close>: the daemon of \<open>client/src/daemon/\<close>, its messages and its client.
  \<^item> \<open>Clipboard_Browser\<close>, \<open>Remote_Server\<close>, \<open>Ipc\<close>: the remote server with its relay tasks, request loop and IPC.
    \<open>Remote_Main\<close>: the start of that process, and the shell commands from their arguments to the clipboard.
  \<^item> \<open>Remote_Client\<close>, \<open>Ssh_Transport\<close>, \<open>Client_Transports\<close>: the client, its transports and their factory.
  \<^item> \<open>Rpc\<close>: the contract of a call that both clients meet (locale \<open>rpc\<close>, interpreted on the two
    \<open>send_request\<close>), and the request loop of the server as its other side.
  \<^item> \<open>Logging\<close>, \<open>Core_Metrics\<close>, \<open>Config\<close>: the modules of these names in \<open>core/src/\<close>.
  \<^item> \<open>Cli\<close>: \<open>cli/src/main.rs\<close> and the start of the daemon.

  Names follow the source; a prefix or suffix distinguishes methods of the same name. Every operation takes the
  state it works on as its last argument and returns the new one. A \<open>Result\<close> is a sum with the error on the left.
  Errors that panic the task, and calls that have not returned yet, are \<open>None\<close>.

  \<^bold>\<open>What is proved.\<close>
  \<^item> Each data structure keeps its invariant in every run of its operations: the indexes of the registry agree
    with its sessions, the pool is bounded and a pooled session is in the bucket of its key, the gauges of the
    metrics count the registered sessions as long as no replacement of metadata changes a status, a breaker is
    open exactly as its failures and the clock say.
  \<^item> Optimised or concurrent code agrees with a plain specification: listing through an index is a scan, the
    request loop with its periodic tick is the loop without, what the relay tasks report about one connection
    is in order in every interleaving, the SSH adapter is a byte stream, listings of the registry lack only the
    sessions still to be indexed.
  \<^item> The operations of the session manager never block each other for ever: all of them take the locks in one
    order. The two indexed listings of the registry do not, and can block an update and be blocked by it.
  \<^item> Components compose: framed messages arrive whole in every chunking; handling one request after another,
    the daemon stays in states of the session manager; serving a client, it answers the well-formed requests in
    order; the remote binary answers on its standard output, where log lines come between the answers if the
    filter lets them through; the connection tests of the command line are run against the server loop and
    against the daemon, each side reading exactly the bytes the other writes.
  \<^item> Errors and limits: what each operation answers when it fails and that it leaves the state alone then; the
    bounds of retries, waits and counters; which loops end and when.
  \<^item> Where the code does not do what it means to, the property states what it does: connections counted for the
    daemon's whole life, reused sessions without a client, forwards that stop all together, a clipboard
    read that discards pending items, uploads that corrupt the stream, credentials of profiles that are dropped, and others.

  \<^bold>\<open>Concurrency.\<close> A step of the model is what the source does under one lock or between two \<open>await\<close>s on shared
  state. The phases of a relay task, the listeners, the passes of the cleanup task and the wake-ups of the
  metrics tasks are separate steps; the step relations and runs quantify over their interleavings. An operation
  that takes several locks one after the other is one step in \<open>Manager\<close> and \<open>Registry\<close>. Status updates,
  registrations and removals also exist as the turns between their locks, under every schedule, in
  \<open>Manager_Race\<close> and \<open>Registry_Race\<close>; lemmas show that the turns without interruption are the step. There every
  lock is free when it is wanted. \<open>Session_Locks\<close> has the waiting, for all operations: a task arrives at a lock,
  is queued, is granted the lock and frees it, and the data are left out. The daemon spawns a task per client;
  its handlers are modelled one request at a time (\<open>serial_run\<close>), so the properties of the daemon as a whole
  hold of requests that do not overlap, and \<open>Manager_Race\<close> shows what overlapping status updates can do.

  \<^bold>\<open>Parameters.\<close> Code that is not in the repository is an argument: \<open>serde_json\<close> and \<open>toml\<close> as encoders and
  decoders, \<open>Url::parse\<close>, \<open>russh\<close> and base64, what a remote shell does with a command, the rendering of UUIDs, times and durations, random jitter, the
  clock, the environment, and the answers of sockets, files and processes. Theorems that need an encoder and a
  decoder to fit together say so for the messages concerned.

  \<^bold>\<open>Numbers.\<close> Counters keep their width and wrap, as in the release profile; lengths are natural numbers. Where a
  theorem needs that a counter does not wrap, this is a hypothesis. The success rate of timed operations is the
  value of an argument that stands for the \<open>f64\<close> quotient; the other floating-point rates are rationals, or
  numbers of any field. There is no fuel: the loops recurse over the list of the events they meet, and a loop
  that has met all of them and not ended is still waiting.

  \<^bold>\<open>Not modelled.\<close> The graphical client is an empty \<open>main\<close>. Parsing of command lines is \<open>clap\<close>'s. Of \<open>tracing\<close>
  the configuration of the subscriber is modelled, and log lines where they matter to others: on the standard
  output of the remote binary, which with \<open>--stdio\<close> is the stream to the client. Elsewhere they do not appear
  in the states. The panic hook of the remote binary and the text of its startup file are left out; the forwarding of reads and
  writes to the pipes of a process is pure I/O too. The copy of the daemon protocol in \<open>core/src/protocol/daemon.rs\<close>
  is not used by any crate. The build script, tests and examples are not part of the running program.
\<close>

end
